theory Spec2Isabelle
  imports Complex_Main "HOL-Library.Log_Nat"
begin

section \<open>Python values\<close>

text \<open>
  The values that cross the boundaries of the program are JSON-shaped Python objects:
  \<open>None\<close>, booleans, integers, floats, strings, lists and dicts with string keys. A dict
  is kept as the list of its items in insertion order, which is the order Python
  iterates it in. A float carries its exact (finite) value as a rational. A character
  of a \<open>string\<close> stands for one code point below 256.
\<close>

datatype json =
    JNull
  | JBool bool
  | JInt int
  | JFloat rat
  | JStr string
  | JList "json list"
  | JObj "(string \<times> json) list"

type_synonym pydict = "(string \<times> json) list"

text \<open>\<open>bool(v)\<close>: the truth value Python gives an object in a condition.\<close>

fun truthy :: "json \<Rightarrow> bool" where
  "truthy JNull = False"
| "truthy (JBool b) = b"
| "truthy (JInt n) = (n \<noteq> 0)"
| "truthy (JFloat r) = (r \<noteq> 0)"
| "truthy (JStr s) = (s \<noteq> [])"
| "truthy (JList xs) = (xs \<noteq> [])"
| "truthy (JObj kvs) = (kvs \<noteq> [])"

text \<open>\<open>d.get(k)\<close> as an option, \<open>d.get(k, default)\<close>, \<open>k in d\<close> and \<open>d[k] = v\<close>
  (an existing key keeps its place, a new key goes last).\<close>

definition dict_get :: "pydict \<Rightarrow> string \<Rightarrow> json option" where
  "dict_get d k = map_of d k"

definition dict_get_default :: "pydict \<Rightarrow> string \<Rightarrow> json \<Rightarrow> json" where
  "dict_get_default d k dflt = (case dict_get d k of None \<Rightarrow> dflt | Some v \<Rightarrow> v)"

definition dict_contains :: "pydict \<Rightarrow> string \<Rightarrow> bool" where
  "dict_contains d k = (k \<in> set (map fst d))"

fun dict_set :: "pydict \<Rightarrow> string \<Rightarrow> json \<Rightarrow> pydict" where
  "dict_set [] k v = [(k, v)]"
| "dict_set ((k', v') # d) k v =
     (if k' = k then (k, v) # d else (k', v') # dict_set d k v)"

section \<open>Error taxonomy (errors.py)\<close>

datatype ErrorCode =
    INVALID_URL
  | NAVIGATION_TIMEOUT
  | NETWORK_ERROR
  | ELEMENT_NOT_FOUND
  | ELEMENT_NOT_VISIBLE
  | ELEMENT_NOT_EDITABLE
  | ELEMENT_NOT_CLICKABLE
  | INTERNAL_ERROR

fun code_value :: "ErrorCode \<Rightarrow> string" where
  "code_value INVALID_URL = ''INVALID_URL''"
| "code_value NAVIGATION_TIMEOUT = ''NAVIGATION_TIMEOUT''"
| "code_value NETWORK_ERROR = ''NETWORK_ERROR''"
| "code_value ELEMENT_NOT_FOUND = ''ELEMENT_NOT_FOUND''"
| "code_value ELEMENT_NOT_VISIBLE = ''ELEMENT_NOT_VISIBLE''"
| "code_value ELEMENT_NOT_EDITABLE = ''ELEMENT_NOT_EDITABLE''"
| "code_value ELEMENT_NOT_CLICKABLE = ''ELEMENT_NOT_CLICKABLE''"
| "code_value INTERNAL_ERROR = ''INTERNAL_ERROR''"

record ToolError =
  code :: ErrorCode
  message :: string
  details :: "pydict option"

text \<open>
  What a Python call can raise: the domain exception \<open>ToolError\<close>, the two library
  exceptions the program catches by class (\<open>json.JSONDecodeError\<close> and pydantic's
  \<open>ValidationError\<close>, which carries \<open>exc.errors()\<close>), and any other instance of
  \<open>Exception\<close>, none of which the program tells apart. Each carries what \<open>str(exc)\<close>
  returns. Signals outside the \<open>Exception\<close> class (interpreter exit, keyboard
  interrupt) are not values of this type.
\<close>

datatype exn =
    ToolErr ToolError
  | JSONDecodeError string
  | ValidationError json string
  | OtherException string

definition ToolError_to_payload :: "ToolError \<Rightarrow> pydict" where
  "ToolError_to_payload e =
     (let payload = [(''code'', JStr (code_value (code e))), (''message'', JStr (message e))]
      in case details e of
           None \<Rightarrow> payload
         | Some d \<Rightarrow> if d \<noteq> [] then dict_set payload ''details'' (JObj d) else payload)"

definition ToolError_str :: "ToolError \<Rightarrow> string" where
  "ToolError_str e = code_value (code e) @ '': '' @ message e"

fun py_str :: "exn \<Rightarrow> string" where
  "py_str (ToolErr e) = ToolError_str e"
| "py_str (JSONDecodeError m) = m"
| "py_str (ValidationError errs m) = m"
| "py_str (OtherException m) = m"

fun to_error_payload :: "exn \<Rightarrow> pydict" where
  "to_error_payload (ToolErr e) = ToolError_to_payload e"
| "to_error_payload exc =
     [(''code'', JStr (code_value INTERNAL_ERROR)),
      (''message'', JStr (if py_str exc \<noteq> [] then py_str exc else ''Internal error''))]"

section \<open>Tool execution service (mcp\_server.py)\<close>

text \<open>
  The program acts on a world \<open>'w\<close> it does not own: the browser engine behind the
  tools, the completion service, the clocks. A capability's \<open>run\<close> takes the raw
  arguments and the world, and returns the pair of session identifier and payload, or
  raises. The state threaded through the program is the world together with the trace
  of the external calls made so far.
\<close>

record 'w ToolDefinition =
  tool_name :: string
  tool_description :: string
  tool_schema :: pydict
  run :: "pydict \<Rightarrow> 'w \<Rightarrow> (exn + string \<times> pydict) \<times> 'w"

datatype llm_request =
    ExtractionPrompt json pydict
  | NextPagePrompt json

datatype event =
    ToolRun string
  | Completion llm_request

record 'w state =
  world :: 'w
  trace :: "event list"

text \<open>
  \<open>timestamp\<close> is \<open>_timestamp()\<close> read in a world; \<open>duration_ms w0 w1\<close> is
  \<open>_duration_ms(start)\<close> read in world \<open>w1\<close> for a \<open>start\<close> taken in world \<open>w0\<close>.
\<close>

record 'w ToolService =
  tools :: "(string \<times> 'w ToolDefinition) list"
  timestamp :: "'w \<Rightarrow> string"
  duration_ms :: "'w \<Rightarrow> 'w \<Rightarrow> int"

definition meta :: "'w ToolService \<Rightarrow> 'w \<Rightarrow> int \<Rightarrow> json" where
  "meta svc w duration = JObj [(''ts'', JStr (timestamp svc w)), (''duration_ms'', JInt duration)]"

definition run_tool ::
  "'w ToolDefinition \<Rightarrow> string \<Rightarrow> pydict \<Rightarrow> 'w state \<Rightarrow> (exn + string \<times> pydict) \<times> 'w state" where
  "run_tool tool name args s =
     (case run tool args (world s) of
        (r, w') \<Rightarrow> (r, \<lparr>world = w', trace = trace s @ [ToolRun name]\<rparr>))"

definition call :: "'w ToolService \<Rightarrow> string \<Rightarrow> pydict \<Rightarrow> 'w state \<Rightarrow> pydict \<times> 'w state" where
  "call svc name arguments s =
     (case map_of (tools svc) name of
        None \<Rightarrow>
          ([(''ok'', JBool False),
            (''tool'', JStr name),
            (''error'', JObj [(''code'', JStr (code_value INTERNAL_ERROR)),
                              (''message'', JStr (''Unknown tool: '' @ name))]),
            (''meta'', meta svc (world s) 0)], s)
      | Some tool \<Rightarrow>
          (let incoming_args = arguments;
               start = world s
           in case run_tool tool name incoming_args s of
                (Inl (ToolErr exc), s') \<Rightarrow>
                  (let duration = duration_ms svc start (world s');
                       error_payload = ToolError_to_payload exc;
                       failure = [(''ok'', JBool False),
                                  (''tool'', JStr name),
                                  (''error'', JObj error_payload),
                                  (''meta'', meta svc (world s') duration)]
                   in case dict_get incoming_args ''session_id'' of
                        None \<Rightarrow> (failure, s')
                      | Some sid \<Rightarrow>
                          (if truthy sid then dict_set failure ''session_id'' sid else failure, s'))
              | (Inl exc, s') \<Rightarrow>
                  (let duration = duration_ms svc start (world s')
                   in ([(''ok'', JBool False),
                        (''tool'', JStr name),
                        (''error'', JObj (to_error_payload exc)),
                        (''meta'', meta svc (world s') duration)], s'))
              | (Inr (session_id, data), s') \<Rightarrow>
                  (let duration = duration_ms svc start (world s')
                   in ([(''ok'', JBool True),
                        (''tool'', JStr name),
                        (''session_id'', JStr session_id),
                        (''data'', JObj data),
                        (''meta'', meta svc (world s') duration)], s'))))"

text \<open>\<open>isinstance(exc, ToolError)\<close>.\<close>

fun isinstance_ToolError :: "exn \<Rightarrow> bool" where
  "isinstance_ToolError (ToolErr e) = True"
| "isinstance_ToolError exc = False"

text \<open>A one-tool registry over a world that counts the calls made, whose tool always
  raises the given exception; used to run the service on concrete inputs.\<close>

definition raising_service :: "exn \<Rightarrow> nat ToolService" where
  "raising_service exc =
     \<lparr>tools = [(''click'',
          \<lparr>tool_name = ''click'', tool_description = ''Click an element.'', tool_schema = [],
           run = (\<lambda>args w. (Inl exc, Suc w))\<rparr>)],
      timestamp = (\<lambda>w. ''2024-01-01T00:00:00+00:00''),
      duration_ms = (\<lambda>w0 w1. int w1 - int w0)\<rparr>"

definition initial_state :: "nat state" where
  "initial_state = \<lparr>world = 0, trace = []\<rparr>"

section \<open>Session boundary (browser.py)\<close>

text \<open>
  The browser engine is external: creating a context or a page may raise, and
  \<open>uuid4_hex\<close> is \<open>uuid.uuid4().hex\<close>. Contexts and pages are opaque handles.
\<close>

record ('c, 'p) StoredPage =
  stored_context :: 'c
  stored_page :: 'p

record ('w, 'c, 'p) BrowserEngine =
  new_context :: "'w \<Rightarrow> (exn + 'c) \<times> 'w"
  new_page :: "'c \<Rightarrow> 'w \<Rightarrow> (exn + 'p) \<times> 'w"
  uuid4_hex :: "'w \<Rightarrow> string \<times> 'w"

type_synonym ('c, 'p) sessions = "string \<rightharpoonup> ('c, 'p) StoredPage"

text \<open>\<open>session_id and session_id in self._sessions\<close>, with the stored entry when it holds.\<close>

definition known_session ::
  "('c, 'p) sessions \<Rightarrow> string option \<Rightarrow> ('c, 'p) StoredPage option" where
  "known_session sessions session_id =
     (case session_id of
        None \<Rightarrow> None
      | Some sid \<Rightarrow> if sid \<noteq> [] then sessions sid else None)"

text \<open>\<open>f"sess_{uuid.uuid4().hex[:12]}"\<close>.\<close>

definition mint_session_id :: "('w, 'c, 'p) BrowserEngine \<Rightarrow> 'w \<Rightarrow> string \<times> 'w" where
  "mint_session_id br w = (case uuid4_hex br w of (h, w') \<Rightarrow> (''sess_'' @ take 12 h, w'))"

text \<open>\<open>session_id or f"sess_..."\<close>: the identifier source is read only when the supplied
  identifier is absent or empty.\<close>

definition session_id_or_mint ::
  "('w, 'c, 'p) BrowserEngine \<Rightarrow> string option \<Rightarrow> 'w \<Rightarrow> string \<times> 'w" where
  "session_id_or_mint br session_id w =
     (case session_id of
        None \<Rightarrow> mint_session_id br w
      | Some sid \<Rightarrow> if sid \<noteq> [] then (sid, w) else mint_session_id br w)"

definition session ::
  "('w, 'c, 'p) BrowserEngine \<Rightarrow> string option \<Rightarrow> ('c, 'p) sessions \<Rightarrow> 'w
     \<Rightarrow> (exn + string \<times> 'p) \<times> ('c, 'p) sessions \<times> 'w" where
  "session br session_id sessions w =
     (case known_session sessions session_id of
        Some stored \<Rightarrow> (Inr (the session_id, stored_page stored), sessions, w)
      | None \<Rightarrow>
          (case new_context br w of
             (Inl exc, w1) \<Rightarrow> (Inl exc, sessions, w1)
           | (Inr ctx, w1) \<Rightarrow>
               (case new_page br ctx w1 of
                  (Inl exc, w2) \<Rightarrow> (Inl exc, sessions, w2)
                | (Inr pg, w2) \<Rightarrow>
                    (case session_id_or_mint br session_id w2 of
                       (sid, w3) \<Rightarrow>
                         (Inr (sid, pg),
                          sessions(sid \<mapsto> \<lparr>stored_context = ctx, stored_page = pg\<rparr>), w3)))))"

text \<open>A run of the session boundary over a list of requests, in order; and the condition
  that no identifier minted along the run is one already stored.\<close>

fun sessions_after ::
  "('w, 'c, 'p) BrowserEngine \<Rightarrow> string option list \<Rightarrow> ('c, 'p) sessions \<Rightarrow> 'w
     \<Rightarrow> ('c, 'p) sessions \<times> 'w" where
  "sessions_after br [] sessions w = (sessions, w)"
| "sessions_after br (r # rs) sessions w =
     (case session br r sessions w of (_, sessions', w') \<Rightarrow> sessions_after br rs sessions' w')"

fun mints_fresh ::
  "('w, 'c, 'p) BrowserEngine \<Rightarrow> string option list \<Rightarrow> ('c, 'p) sessions \<Rightarrow> 'w \<Rightarrow> bool" where
  "mints_fresh br [] sessions w = True"
| "mints_fresh br (r # rs) sessions w =
     (case session br r sessions w of
        (res, sessions', w') \<Rightarrow>
          (case res of
             Inr (sid, pg) \<Rightarrow> (r = Some sid \<or> sessions sid = None)
           | Inl exc \<Rightarrow> True)
          \<and> mints_fresh br rs sessions' w')"

text \<open>An engine over a counter: every handle is the value of the counter when it was
  made, and the identifier source always returns the same 32 hexadecimal digits.\<close>

definition counting_engine :: "(nat, nat, nat) BrowserEngine" where
  "counting_engine =
     \<lparr>new_context = (\<lambda>w. (Inr w, Suc w)),
      new_page = (\<lambda>c w. (Inr w, Suc w)),
      uuid4_hex = (\<lambda>w. (''0123456789abcdef0123456789abcdef'', Suc w))\<rparr>"

section \<open>Result structuring and quality report (scraping\_agent.py)\<close>

text \<open>\<open>isinstance(value, list) and len(value) > 0\<close>.\<close>

fun nonempty_list :: "json \<Rightarrow> bool" where
  "nonempty_list (JList xs) = (xs \<noteq> [])"
| "nonempty_list v = False"

text \<open>The loop of \<open>_structure_data\<close> over \<open>schema.items()\<close>: the first key whose value is
  a non-empty list, or \<open>None\<close>.\<close>

fun find_array_field :: "pydict \<Rightarrow> string option" where
  "find_array_field [] = None"
| "find_array_field ((key, val) # rest) =
     (if nonempty_list val then Some key else find_array_field rest)"

text \<open>\<open>utcnow_iso\<close> is the value of \<open>datetime.utcnow().isoformat()\<close> at the call.\<close>

definition structure_data :: "json list \<Rightarrow> pydict \<Rightarrow> string \<Rightarrow> pydict" where
  "structure_data extracted_items schema utcnow_iso =
     (let array_field = find_array_field schema;
          result = (case array_field of
                      None \<Rightarrow> [(''items'', JList extracted_items)]
                    | Some k \<Rightarrow> if k \<noteq> [] then [(k, JList extracted_items)]
                                else [(''items'', JList extracted_items)])
      in if dict_contains schema ''metadata''
         then dict_set result ''metadata''
                (JObj [(''date_extraction'', JStr (utcnow_iso @ ''Z'')),
                       (''nb_resultats'', JInt (int (length extracted_items)))])
         else result)"

text \<open>The counters of \<open>missing_fields\<close>: a dict from field path to count, in insertion
  order. \<open>missing_fields[p] = missing_fields.get(p, 0) + 1\<close>.\<close>

fun count_missing :: "(string \<times> nat) list \<Rightarrow> string \<Rightarrow> (string \<times> nat) list" where
  "count_missing [] p = [(p, 1)]"
| "count_missing ((p', n) # rest) p =
     (if p' = p then (p, n + 1) # rest else (p', n) # count_missing rest p)"

text \<open>\<open>f"{prefix}.{key}" if prefix else key\<close>.\<close>

definition field_path :: "string \<Rightarrow> string \<Rightarrow> string" where
  "field_path prefix key = (if prefix \<noteq> [] then prefix @ ''.'' @ key else key)"

fun is_container :: "json \<Rightarrow> bool" where
  "is_container (JObj kvs) = True"
| "is_container (JList xs) = True"
| "is_container v = False"

text \<open>
  \<open>check_nested\<close> of \<open>_check_item_completeness\<close>. The state is the pair of the
  \<open>is_complete\<close> flag and the \<open>missing_fields\<close> counters, both of which the Python
  closure updates in place.
\<close>

fun check_nested :: "json \<Rightarrow> string \<Rightarrow> bool \<times> (string \<times> nat) list \<Rightarrow> bool \<times> (string \<times> nat) list"
and check_dict_items :: "pydict \<Rightarrow> string \<Rightarrow> bool \<times> (string \<times> nat) list \<Rightarrow> bool \<times> (string \<times> nat) list"
and check_list_items :: "json list \<Rightarrow> string \<Rightarrow> bool \<times> (string \<times> nat) list \<Rightarrow> bool \<times> (string \<times> nat) list"
where
  "check_nested (JObj kvs) prefix st = check_dict_items kvs prefix st"
| "check_nested (JList xs) prefix st = check_list_items xs prefix st"
| "check_nested v prefix st = st"
| "check_dict_items [] prefix st = st"
| "check_dict_items ((key, val) # rest) prefix st =
     check_dict_items rest prefix
       (if val = JNull \<or> val = JStr []
        then (False, count_missing (snd st) (field_path prefix key))
        else if is_container val then check_nested val (field_path prefix key) st
        else st)"
| "check_list_items [] prefix st = st"
| "check_list_items (x # xs) prefix st = check_list_items xs prefix (check_nested x prefix st)"

definition check_item_completeness ::
  "json \<Rightarrow> (string \<times> nat) list \<Rightarrow> bool \<times> (string \<times> nat) list" where
  "check_item_completeness item missing_fields = check_nested item [] (True, missing_fields)"

text \<open>The loop over the items: the number of complete items and the counters.\<close>

fun analyze_items :: "json list \<Rightarrow> nat \<times> (string \<times> nat) list \<Rightarrow> nat \<times> (string \<times> nat) list" where
  "analyze_items [] acc = acc"
| "analyze_items (item # rest) (complete_items, missing_fields) =
     (case check_item_completeness item missing_fields of
        (is_complete, missing_fields') \<Rightarrow>
          analyze_items rest
            (if is_complete then complete_items + 1 else complete_items, missing_fields'))"

text \<open>\<open>str(n)\<close> for a non-negative integer.\<close>

definition digit_char :: "nat \<Rightarrow> char" where
  "digit_char d = ''0123456789'' ! d"

function show_nat :: "nat \<Rightarrow> string" where
  "show_nat n = (if n < 10 then [digit_char n] else show_nat (n div 10) @ [digit_char (n mod 10)])"
  by pat_completeness auto
termination
  by (relation "measure id") auto

text \<open>The first list among the values of \<open>structured_data\<close>, or the empty list.\<close>

fun find_items :: "pydict \<Rightarrow> json list" where
  "find_items [] = []"
| "find_items ((key, JList xs) # rest) = xs"
| "find_items ((key, val) # rest) = find_items rest"


text \<open>
  Python floats are IEEE binary64 numbers. \<open>binary64 q\<close> is the float nearest to the
  rational \<open>q\<close> (ties to even, 53 significant bits, gradual underflow below
  \<open>2^-1022\<close>), which is what a correctly rounded operation returns for an exact
  result \<open>q\<close> below the overflow threshold. \<open>a / b\<close> on integers is correctly rounded;
  \<open>round(x, 3)\<close> rounds the exact value of \<open>x\<close> to three decimals, ties to even, and
  returns the float nearest to that decimal.
\<close>

definition round_half_even :: "rat \<Rightarrow> int" where
  "round_half_even x =
     (let f = \<lfloor>x\<rfloor>; d = x - of_int f
      in if d < 1 / 2 then f else if 1 / 2 < d then f + 1 else if even f then f else f + 1)"

definition ilog2 :: "rat \<Rightarrow> int" where
  "ilog2 q = (case quotient_of q of (a, b) \<Rightarrow>
     (let d = bitlen a - bitlen b in if power_int 2 d \<le> q then d else d - 1))"

definition binary64 :: "rat \<Rightarrow> rat" where
  "binary64 q =
     (if q = 0 then 0
      else (let p = 52 - max (ilog2 \<bar>q\<bar>) (- 1022)
            in of_int (round_half_even (q * power_int 2 p)) / power_int 2 p))"

definition py_truediv :: "nat \<Rightarrow> nat \<Rightarrow> rat" where
  "py_truediv a b = binary64 (of_nat a / of_nat b)"

definition py_round3 :: "rat \<Rightarrow> rat" where
  "py_round3 x = binary64 (of_int (round_half_even (x * 1000)) / 1000)"

definition generate_quality_report :: "pydict \<Rightarrow> pydict \<Rightarrow> pydict" where
  "generate_quality_report structured_data schema =
     (let items = find_items structured_data;
          total_items = length items
      in if total_items = 0
         then [(''total_items'', JInt 0),
               (''complete_items'', JInt 0),
               (''completion_rate'', JFloat 0),
               (''missing_fields'', JList []),
               (''errors'', JList [])]
         else (case analyze_items items (0, []) of
                 (complete_items, missing_fields) \<Rightarrow>
                   (let completion_rate = py_truediv complete_items total_items;
                        missing_fields_list =
                          map (\<lambda>(field, count). JStr (field @ '': '' @ show_nat count @ '' items''))
                            missing_fields
                    in [(''total_items'', JInt (int total_items)),
                        (''complete_items'', JInt (int complete_items)),
                        (''completion_rate'', JFloat (py_round3 completion_rate)),
                        (''missing_fields'', JList missing_fields_list),
                        (''errors'', JList [])])))"

subsection \<open>The analyzer as the specification words it\<close>

text \<open>
  A field is missing when its value is null or the empty string. \<open>missing_in prefix v\<close>
  lists the dotted paths of the missing fields met in \<open>v\<close>, one entry per occurrence,
  in the order of the walk; an entry of a nested list is walked under the path of the
  list itself.
\<close>

definition is_missing :: "json \<Rightarrow> bool" where
  "is_missing v = (v = JNull \<or> v = JStr [])"

fun missing_in :: "string \<Rightarrow> json \<Rightarrow> string list"
and missing_in_dict :: "string \<Rightarrow> pydict \<Rightarrow> string list"
and missing_in_list :: "string \<Rightarrow> json list \<Rightarrow> string list"
where
  "missing_in prefix (JObj kvs) = missing_in_dict prefix kvs"
| "missing_in prefix (JList xs) = missing_in_list prefix xs"
| "missing_in prefix v = []"
| "missing_in_dict prefix [] = []"
| "missing_in_dict prefix ((key, val) # rest) =
     (if is_missing val then [field_path prefix key] else missing_in (field_path prefix key) val)
       @ missing_in_dict prefix rest"
| "missing_in_list prefix [] = []"
| "missing_in_list prefix (x # xs) = missing_in prefix x @ missing_in_list prefix xs"

definition item_complete :: "json \<Rightarrow> bool" where
  "item_complete item = (missing_in [] item = [])"

definition all_missing :: "json list \<Rightarrow> string list" where
  "all_missing items = concat (map (missing_in []) items)"

text \<open>The number of items that miss a path at least once.\<close>

definition items_missing :: "string \<Rightarrow> json list \<Rightarrow> nat" where
  "items_missing p items = length (filter (\<lambda>item. p \<in> set (missing_in [] item)) items)"

text \<open>The distinct elements of a list in the order of their first occurrence.\<close>

fun first_seen :: "'a list \<Rightarrow> 'a list" where
  "first_seen [] = []"
| "first_seen (x # xs) = x # filter (\<lambda>y. y \<noteq> x) (first_seen xs)"

definition render_missing :: "string list \<Rightarrow> string \<Rightarrow> json" where
  "render_missing occurrences p = JStr (p @ '': '' @ show_nat (count_list occurrences p) @ '' items'')"

text \<open>Sample items: one complete product, one with a missing price, and one whose nested
  list misses the same field in two entries.\<close>

definition complete_product :: json where
  "complete_product = JObj [(''name'', JStr ''Lamp''), (''price'', JFloat (25 / 2))]"

definition unpriced_product :: json where
  "unpriced_product = JObj [(''name'', JStr ''Desk''), (''price'', JNull)]"

definition untagged_product :: json where
  "untagged_product =
     JObj [(''name'', JStr ''Chair''),
           (''tags'', JList [JObj [(''label'', JStr [])], JObj [(''label'', JNull)]])]"

section \<open>Request dispatcher (mcp\_server.py)\<close>

text \<open>\<open>str.isspace\<close> on the code points below 256, and \<open>str.strip()\<close>.\<close>

definition py_isspace :: "char \<Rightarrow> bool" where
  "py_isspace c = (of_char c \<in> {9, 10, 11, 12, 13, 28, 29, 30, 31, 32, 133, 160 :: nat})"

definition strip :: "string \<Rightarrow> string" where
  "strip s = rev (dropWhile py_isspace (rev (dropWhile py_isspace s)))"

text \<open>The request identifier is a string, an integer or \<open>None\<close>, kept as a JSON value.\<close>

record MCPRequest =
  request_id :: json
  request_method :: string
  params :: pydict

record MCPResponse =
  response_id :: json
  response_result :: "pydict option"
  response_error :: "pydict option"

text \<open>
  The server with its external collaborators: pydantic's \<open>MCPRequest.model_validate_json\<close>
  and \<open>ToolCallParams.model_validate\<close>, which return the validated object or raise, and
  the serialiser \<open>_dumps\<close> (\<open>orjson.dumps\<close> when that module is installed, \<open>json.dumps\<close>
  otherwise), which returns the text of a mapping or raises: \<open>orjson\<close> raises a
  \<open>TypeError\<close> on an integer beyond 64 bits.
\<close>

record 'w MCPServer =
  tool_service :: "'w ToolService"
  model_validate_json :: "string \<Rightarrow> exn + MCPRequest"
  model_validate_params :: "pydict \<Rightarrow> exn + string \<times> pydict"
  dumps :: "pydict \<Rightarrow> exn + string"

definition SERVER_INFO :: pydict where
  "SERVER_INFO =
     [(''name'', JStr ''mcp-web-automation''),
      (''version'', JStr ''0.1.0''),
      (''mcp_protocol'', JStr ''stdio'')]"

definition descriptors :: "'w ToolService \<Rightarrow> pydict" where
  "descriptors svc =
     map (\<lambda>(name, tool).
            (name, JObj [(''name'', JStr (tool_name tool)),
                         (''description'', JStr (tool_description tool)),
                         (''input_schema'', JObj (tool_schema tool))]))
       (tools svc)"

definition to_json_payload :: "MCPResponse \<Rightarrow> pydict" where
  "to_json_payload r =
     [(''id'', response_id r)]
       @ (case response_result r of None \<Rightarrow> [] | Some res \<Rightarrow> [(''result'', JObj res)])
       @ (case response_error r of None \<Rightarrow> [] | Some err \<Rightarrow> [(''error'', JObj err)])"

text \<open>\<open>MCPResponse.to_json\<close>: the serialised payload, or the exception of the serialiser.\<close>

definition to_json :: "'w MCPServer \<Rightarrow> MCPResponse \<Rightarrow> exn + string" where
  "to_json srv r = dumps srv (to_json_payload r)"

definition handle ::
  "'w MCPServer \<Rightarrow> MCPRequest \<Rightarrow> 'w state \<Rightarrow> (exn + MCPResponse) \<times> 'w state" where
  "handle srv request s =
     (if request_method request = ''initialize'' then
        (Inr \<lparr>response_id = request_id request,
              response_result = Some (SERVER_INFO
                @ [(''tools'', JList (map (JStr \<circ> fst) (descriptors (tool_service srv))))]),
              response_error = None\<rparr>, s)
      else if request_method request = ''tools/list'' then
        (Inr \<lparr>response_id = request_id request,
              response_result = Some [(''tools'', JList (map snd (descriptors (tool_service srv))))],
              response_error = None\<rparr>, s)
      else if request_method request = ''tools/call'' then
        (case model_validate_params srv (params request) of
           Inl exc \<Rightarrow> (Inl exc, s)
         | Inr (name, arguments) \<Rightarrow>
             (case call (tool_service srv) name arguments s of
                (res, s') \<Rightarrow>
                  (Inr \<lparr>response_id = request_id request, response_result = Some res, response_error = None\<rparr>, s')))
      else
        (Inr \<lparr>response_id = request_id request,
              response_result = None,
              response_error = Some [(''code'', JStr (code_value INTERNAL_ERROR)),
                            (''message'', JStr (''Unknown method: '' @ request_method request))]\<rparr>, s))"

text \<open>
  The response to a payload that fails validation. In \<open>_dispatch\<close> its \<open>to_json()\<close> is
  called inside the \<open>except ValidationError\<close> clause, and the \<open>to_json()\<close> of every other
  response after the \<open>try\<close> statement: an exception of the serialiser leaves \<open>_dispatch\<close>
  and, \<open>serve_forever\<close> having no handler, ends the loop.
\<close>

definition invalid_request_response :: "json \<Rightarrow> MCPResponse" where
  "invalid_request_response errors =
     \<lparr>response_id = JNull,
      response_result = None,
      response_error = Some [(''code'', JStr (code_value INTERNAL_ERROR)),
                    (''message'', JStr ''Invalid request payload''),
                    (''details'', errors)]\<rparr>"

definition dispatch :: "'w MCPServer \<Rightarrow> string \<Rightarrow> 'w state \<Rightarrow> (exn + string) \<times> 'w state" where
  "dispatch srv payload s =
     (case model_validate_json srv payload of
        Inl (ValidationError errors msg) \<Rightarrow>
          (to_json srv (invalid_request_response errors), s)
      | Inl exc \<Rightarrow> (Inl exc, s)
      | Inr request \<Rightarrow>
          (case handle srv request s of
             (Inl (ValidationError errors msg), s') \<Rightarrow>
               (to_json srv
                  \<lparr>response_id = request_id request,
                   response_result = None,
                   response_error = Some [(''code'', JStr (code_value INTERNAL_ERROR)),
                                 (''message'', JStr ''Invalid parameters''),
                                 (''details'', errors)]\<rparr>, s')
           | (Inl exc, s') \<Rightarrow>
               (to_json srv
                  \<lparr>response_id = request_id request,
                   response_result = None,
                   response_error = Some (to_error_payload exc)\<rparr>, s')
           | (Inr response, s') \<Rightarrow> (to_json srv response, s')))"

text \<open>
  \<open>serve_forever\<close> over the lines of standard input: the lines written to standard
  output, the exception that ended the loop if one did, and the final state.
\<close>

fun serve_forever ::
  "'w MCPServer \<Rightarrow> string list \<Rightarrow> 'w state \<Rightarrow> string list \<times> exn option \<times> 'w state" where
  "serve_forever srv [] s = ([], None, s)"
| "serve_forever srv (raw_line # rest) s =
     (let line = strip raw_line
      in if line = [] then serve_forever srv rest s
         else (case dispatch srv line s of
                 (Inl exc, s') \<Rightarrow> ([], Some exc, s')
               | (Inr response_line, s') \<Rightarrow>
                   (case serve_forever srv rest s' of
                      (out, stopped, s'') \<Rightarrow> ((response_line @ [CHR 0x0A]) # out, stopped, s''))))"


text \<open>
  The line written for a raw line that reaches the parser, fails validation, and whose
  response the serialiser returns; \<open>None\<close> for every other raw line.
\<close>

definition malformed_response :: "'w MCPServer \<Rightarrow> string \<Rightarrow> string option" where
  "malformed_response srv raw_line =
     (case model_validate_json srv (strip raw_line) of
        Inl (ValidationError errors msg) \<Rightarrow>
          (if strip raw_line = [] then None
           else (case dumps srv [(''id'', JNull),
                                 (''error'', JObj [(''code'', JStr ''INTERNAL_ERROR''),
                                                   (''message'', JStr ''Invalid request payload''),
                                                   (''details'', errors)])] of
                   Inl exc \<Rightarrow> None
                 | Inr text \<Rightarrow> Some (text @ [CHR 0x0A])))
      | _ \<Rightarrow> None)"

text \<open>
  A sample server. Its parser accepts one line, an \<open>initialize\<close> request; it rejects a
  line whose \<open>method\<close> is an integer of thirty digits with the errors pydantic reports
  for it, which echo the integer under \<open>input\<close>; and it rejects every other payload as
  invalid JSON. Its serialiser raises, as \<open>orjson\<close> does, on a mapping that holds an
  integer beyond 64 bits, and writes the keys of any other mapping.
\<close>

definition initialize_line :: string where
  "initialize_line = ''{'' @ [CHR 0x22] @ ''method'' @ [CHR 0x22] @ '':''
     @ [CHR 0x22] @ ''initialize'' @ [CHR 0x22] @ ''}''"

definition wide_integer_line :: string where
  "wide_integer_line = ''{'' @ [CHR 0x22] @ ''method'' @ [CHR 0x22] @ '':''
     @ ''123456789012345678901234567890'' @ ''}''"

definition json_invalid :: json where
  "json_invalid = JList [JObj [(''type'', JStr ''json_invalid''), (''msg'', JStr ''Invalid JSON'')]]"

definition wide_integer_errors :: json where
  "wide_integer_errors =
     JList [JObj [(''type'', JStr ''string_type''),
                  (''loc'', JList [JStr ''method'']),
                  (''msg'', JStr ''Input should be a valid string''),
                  (''input'', JInt 123456789012345678901234567890)]]"

fun wide_integer :: "json \<Rightarrow> bool"
and wide_integer_dict :: "pydict \<Rightarrow> bool"
and wide_integer_list :: "json list \<Rightarrow> bool"
where
  "wide_integer (JInt n) = (n < - (2 ^ 63) \<or> 2 ^ 64 \<le> n)"
| "wide_integer (JObj kvs) = wide_integer_dict kvs"
| "wide_integer (JList xs) = wide_integer_list xs"
| "wide_integer v = False"
| "wide_integer_dict [] = False"
| "wide_integer_dict ((key, val) # rest) = (wide_integer val \<or> wide_integer_dict rest)"
| "wide_integer_list [] = False"
| "wide_integer_list (x # xs) = (wide_integer x \<or> wide_integer_list xs)"

definition sample_dumps :: "pydict \<Rightarrow> exn + string" where
  "sample_dumps payload =
     (if wide_integer_dict payload then Inl (OtherException ''Integer exceeds 64-bit range'')
      else Inr (concat (map (\<lambda>(k, v). k @ '';'') payload)))"

definition sample_server :: "nat MCPServer" where
  "sample_server =
     \<lparr>tool_service = raising_service (OtherException ''boom''),
      model_validate_json =
        (\<lambda>payload. if payload = initialize_line
           then Inr \<lparr>request_id = JNull, request_method = ''initialize'', params = []\<rparr>
           else if payload = wide_integer_line
           then Inl (ValidationError wide_integer_errors ''1 validation error for MCPRequest'')
           else Inl (ValidationError json_invalid ''1 validation error for MCPRequest'')),
      model_validate_params =
        (\<lambda>p. Inl (ValidationError json_invalid ''1 validation error for ToolCallParams'')),
      dumps = sample_dumps\<rparr>"

section \<open>Extraction orchestrator (scraping\_agent.py)\<close>

subsection \<open>Python operations the orchestrator uses\<close>

text \<open>
  The operations below raise for operands of the wrong type, as the interpreter does;
  the message is that of CPython 3.12, and only the fact that an exception is raised
  matters to what follows.
\<close>

fun type_name :: "json \<Rightarrow> string" where
  "type_name JNull = ''NoneType''"
| "type_name (JBool b) = ''bool''"
| "type_name (JInt n) = ''int''"
| "type_name (JFloat r) = ''float''"
| "type_name (JStr s) = ''str''"
| "type_name (JList xs) = ''list''"
| "type_name (JObj d) = ''dict''"

text \<open>\<open>len(v)\<close>, \<open>v[:n]\<close>, \<open>d[k]\<close>, iteration over \<open>v\<close> and \<open>k < v\<close> for an integer \<open>k\<close>.\<close>

fun py_len :: "json \<Rightarrow> exn + nat" where
  "py_len (JStr s) = Inr (length s)"
| "py_len (JList xs) = Inr (length xs)"
| "py_len (JObj d) = Inr (length d)"
| "py_len v = Inl (OtherException (''object of type '' @ [CHR 0x27] @ type_name v @ [CHR 0x27] @ '' has no len()''))"

fun py_prefix :: "nat \<Rightarrow> json \<Rightarrow> exn + json" where
  "py_prefix n (JStr s) = Inr (JStr (take n s))"
| "py_prefix n (JList xs) = Inr (JList (take n xs))"
| "py_prefix n (JObj d) = Inl (OtherException (''slice(None, '' @ show_nat n @ '', None)''))"
| "py_prefix n v = Inl (OtherException ([CHR 0x27] @ type_name v @ [CHR 0x27] @ '' object is not subscriptable''))"

fun py_getitem :: "json \<Rightarrow> string \<Rightarrow> exn + json" where
  "py_getitem (JObj d) k =
     (case dict_get d k of
        None \<Rightarrow> Inl (OtherException ([CHR 0x27] @ k @ [CHR 0x27]))
      | Some v \<Rightarrow> Inr v)"
| "py_getitem (JList xs) k =
     Inl (OtherException (''list indices must be integers or slices, not str''))"
| "py_getitem (JStr s) k =
     Inl (OtherException (''string indices must be integers, not '' @ [CHR 0x27] @ ''str'' @ [CHR 0x27]))"
| "py_getitem v k =
     Inl (OtherException ([CHR 0x27] @ type_name v @ [CHR 0x27] @ '' object is not subscriptable''))"

fun py_iter :: "json \<Rightarrow> exn + json list" where
  "py_iter (JList xs) = Inr xs"
| "py_iter (JStr s) = Inr (map (\<lambda>c. JStr [c]) s)"
| "py_iter (JObj d) = Inr (map (JStr \<circ> fst) d)"
| "py_iter v = Inl (OtherException ([CHR 0x27] @ type_name v @ [CHR 0x27] @ '' object is not iterable''))"

fun py_int_lt :: "nat \<Rightarrow> json \<Rightarrow> exn + bool" where
  "py_int_lt k (JInt n) = Inr (int k < n)"
| "py_int_lt k (JFloat r) = Inr (of_nat k < r)"
| "py_int_lt k (JBool b) = Inr (int k < (if b then 1 else 0))"
| "py_int_lt k v = Inl (OtherException ([CHR 0x27] @ ''<'' @ [CHR 0x27]
     @ '' not supported between instances of '' @ [CHR 0x27] @ ''int'' @ [CHR 0x27]
     @ '' and '' @ [CHR 0x27] @ type_name v @ [CHR 0x27]))"

text \<open>String methods: \<open>find\<close> and \<open>rfind\<close> of a character (\<open>None\<close> for \<open>-1\<close>),
  \<open>startswith\<close>, \<open>endswith\<close>, \<open>split\<close> on a character, \<open>join\<close>, and the slice
  \<open>s[i:j]\<close> for non-negative indices.\<close>

fun find_char :: "char \<Rightarrow> string \<Rightarrow> nat option" where
  "find_char c [] = None"
| "find_char c (x # xs) = (if x = c then Some 0 else map_option Suc (find_char c xs))"

definition rfind_char :: "char \<Rightarrow> string \<Rightarrow> nat option" where
  "rfind_char c s = map_option (\<lambda>i. length s - 1 - i) (find_char c (rev s))"

definition startswith :: "string \<Rightarrow> string \<Rightarrow> bool" where
  "startswith s p = (take (length p) s = p)"

definition endswith :: "string \<Rightarrow> string \<Rightarrow> bool" where
  "endswith s p = (length p \<le> length s \<and> drop (length s - length p) s = p)"

fun split_char :: "char \<Rightarrow> string \<Rightarrow> string list" where
  "split_char c [] = [[]]"
| "split_char c (x # xs) =
     (if x = c then [] # split_char c xs
      else (case split_char c xs of
              [] \<Rightarrow> [[x]]
            | l # ls \<Rightarrow> (x # l) # ls))"

fun join :: "string \<Rightarrow> string list \<Rightarrow> string" where
  "join sep [] = []"
| "join sep [l] = l"
| "join sep (l # ls) = l @ sep @ join sep ls"

definition slice :: "nat \<Rightarrow> nat \<Rightarrow> string \<Rightarrow> string" where
  "slice i j s = take (j - i) (drop i s)"

text \<open>\<open>ErrorCode[name]\<close>, with \<open>None\<close> for the \<open>KeyError\<close>.\<close>

definition ErrorCode_of_name :: "string \<Rightarrow> ErrorCode option" where
  "ErrorCode_of_name n =
     (if n = ''INVALID_URL'' then Some INVALID_URL
      else if n = ''NAVIGATION_TIMEOUT'' then Some NAVIGATION_TIMEOUT
      else if n = ''NETWORK_ERROR'' then Some NETWORK_ERROR
      else if n = ''ELEMENT_NOT_FOUND'' then Some ELEMENT_NOT_FOUND
      else if n = ''ELEMENT_NOT_VISIBLE'' then Some ELEMENT_NOT_VISIBLE
      else if n = ''ELEMENT_NOT_EDITABLE'' then Some ELEMENT_NOT_EDITABLE
      else if n = ''ELEMENT_NOT_CLICKABLE'' then Some ELEMENT_NOT_CLICKABLE
      else if n = ''INTERNAL_ERROR'' then Some INTERNAL_ERROR
      else None)"

subsection \<open>The agent\<close>

record ScrapingConfig =
  url :: string
  schema :: pydict
  interactions :: "pydict list"
  options :: pydict

record ExtractionResult =
  status :: string
  data :: pydict
  quality_report :: pydict
  error :: "string option"

text \<open>
  The agent with its external collaborators. \<open>client\<close> is the completion service: the
  request carries the two parts of the prompt that vary, and the answer is
  \<open>response.choices[0].message.content\<close>, which may be \<open>None\<close>, or an exception.
  \<open>json_loads\<close> is \<open>json.loads\<close>. \<open>sleep_ms d\<close> is \<open>time.sleep(d / 1000.0)\<close> for the
  \<open>duration\<close> of a \<open>wait\<close> interaction, which raises for a duration that is not a
  non-negative number. \<open>utcnow_isoformat\<close> is \<open>datetime.utcnow().isoformat()\<close>.
\<close>

record 'w ScrapingAgent =
  client :: "llm_request \<Rightarrow> 'w \<Rightarrow> (exn + string option) \<times> 'w"
  agent_tool_service :: "'w ToolService"
  json_loads :: "string \<Rightarrow> exn + json"
  sleep_ms :: "json \<Rightarrow> 'w \<Rightarrow> (exn + unit) \<times> 'w"
  utcnow_isoformat :: "'w \<Rightarrow> string"

definition complete :: "'w ScrapingAgent \<Rightarrow> llm_request \<Rightarrow> 'w state \<Rightarrow> (exn + string option) \<times> 'w state" where
  "complete ag request s =
     (case client ag request (world s) of
        (r, w') \<Rightarrow> (r, \<lparr>world = w', trace = trace s @ [Completion request]\<rparr>))"

text \<open>
  The exception \<open>_call_tool\<close> raises for a failure envelope. The envelopes of
  \<open>ToolService.call\<close> always carry a mapping under \<open>error\<close> with a string code and a
  string message; for any other shape the attribute access of the source fails.
\<close>

definition error_of_envelope :: "pydict \<Rightarrow> exn" where
  "error_of_envelope result =
     (case dict_get_default result ''error'' (JObj []) of
        JObj err \<Rightarrow>
          (case (dict_get_default err ''code'' (JStr ''INTERNAL_ERROR''),
                 dict_get_default err ''message'' (JStr ''Tool call failed'')) of
             (JStr error_code, JStr msg) \<Rightarrow>
               ToolErr \<lparr>code = (case ErrorCode_of_name error_code of
                                  None \<Rightarrow> INTERNAL_ERROR
                                | Some c \<Rightarrow> c),
                        message = msg,
                        details = None\<rparr>
           | _ \<Rightarrow> OtherException ''malformed error payload'')
      | _ \<Rightarrow> OtherException ''error payload is not a mapping'')"

definition call_tool ::
  "'w ScrapingAgent \<Rightarrow> string \<Rightarrow> pydict \<Rightarrow> 'w state \<Rightarrow> (exn + json \<times> json) \<times> 'w state" where
  "call_tool ag name arguments s =
     (case call (agent_tool_service ag) name arguments s of
        (result, s') \<Rightarrow>
          if \<not> truthy (dict_get_default result ''ok'' JNull)
          then (Inl (error_of_envelope result), s')
          else (Inr (dict_get_default result ''session_id'' JNull,
                     dict_get_default result ''data'' (JObj [])), s'))"

definition navigate :: "'w ScrapingAgent \<Rightarrow> string \<Rightarrow> 'w state \<Rightarrow> (exn + json \<times> json) \<times> 'w state" where
  "navigate ag u s = call_tool ag ''navigate'' [(''url'', JStr u)] s"

text \<open>
  \<open>_execute_interactions\<close>: a failing click or fill is logged and the loop goes on; a
  \<open>wait\<close> sleeps; a \<open>scroll\<close> and any other type do nothing.
\<close>

fun execute_interactions ::
  "'w ScrapingAgent \<Rightarrow> json \<Rightarrow> pydict list \<Rightarrow> 'w state \<Rightarrow> (exn + unit) \<times> 'w state" where
  "execute_interactions ag session_id [] s = (Inr (), s)"
| "execute_interactions ag session_id (interaction # rest) s =
     (let interaction_type = dict_get interaction ''type''
      in if interaction_type = Some (JStr ''click'') then
           (case call_tool ag ''click''
                   [(''session_id'', session_id),
                    (''selector'', dict_get_default interaction ''selector'' JNull)] s of
              (Inl exc, s') \<Rightarrow>
                if isinstance_ToolError exc then execute_interactions ag session_id rest s'
                else (Inl exc, s')
            | (Inr r, s') \<Rightarrow> execute_interactions ag session_id rest s')
         else if interaction_type = Some (JStr ''wait'') then
           (case sleep_ms ag (dict_get_default interaction ''duration'' (JInt 1000)) (world s) of
              (Inl exc, w') \<Rightarrow> (Inl exc, s\<lparr>world := w'\<rparr>)
            | (Inr u, w') \<Rightarrow> execute_interactions ag session_id rest (s\<lparr>world := w'\<rparr>))
         else if interaction_type = Some (JStr ''scroll'') then
           execute_interactions ag session_id rest s
         else if interaction_type = Some (JStr ''fill'') then
           (case call_tool ag ''fill''
                   [(''session_id'', session_id),
                    (''selector'', dict_get_default interaction ''selector'' JNull),
                    (''value'', dict_get_default interaction ''value'' JNull)] s of
              (Inl exc, s') \<Rightarrow>
                if isinstance_ToolError exc then execute_interactions ag session_id rest s'
                else (Inl exc, s')
            | (Inr r, s') \<Rightarrow> execute_interactions ag session_id rest s')
         else execute_interactions ag session_id rest s)"

text \<open>\<open>isinstance(v, list)\<close> and the first list among the values of a dict.\<close>

fun is_list :: "json \<Rightarrow> bool" where
  "is_list (JList xs) = True"
| "is_list v = False"

definition parsed_items :: "json \<Rightarrow> json" where
  "parsed_items parsed =
     (case parsed of
        JObj d \<Rightarrow>
          (case dict_get d ''items'' of
             Some items \<Rightarrow> items
           | None \<Rightarrow>
               (case filter is_list (map snd d) of
                  v # vs \<Rightarrow> v
                | [] \<Rightarrow> JList [parsed]))
      | JList xs \<Rightarrow> parsed
      | _ \<Rightarrow> JList [])"

definition parse_llm_response :: "'w ScrapingAgent \<Rightarrow> string \<Rightarrow> exn + json" where
  "parse_llm_response ag response_text =
     (case (find_char (CHR ''{'') response_text, rfind_char (CHR ''}'') response_text) of
        (Some start_idx, Some end_idx) \<Rightarrow>
          (case json_loads ag (slice start_idx (end_idx + 1) response_text) of
             Inl (JSONDecodeError msg) \<Rightarrow> Inr (JList [])
           | Inl exc \<Rightarrow> Inl exc
           | Inr parsed \<Rightarrow> Inr (parsed_items parsed))
      | _ \<Rightarrow> Inr (JList []))"

definition extract_with_llm ::
  "'w ScrapingAgent \<Rightarrow> json \<Rightarrow> pydict \<Rightarrow> 'w state \<Rightarrow> (exn + json) \<times> 'w state" where
  "extract_with_llm ag html_content sch s =
     (case py_len html_content of
        Inl exc \<Rightarrow> (Inl exc, s)
      | Inr n \<Rightarrow>
          (case (if 50000 < n then py_prefix 50000 html_content else Inr html_content) of
             Inl exc \<Rightarrow> (Inl exc, s)
           | Inr html_snippet \<Rightarrow>
               (case complete ag (ExtractionPrompt html_snippet sch) s of
                  (Inl exc, s') \<Rightarrow> (Inl exc, s')
                | (Inr None, s') \<Rightarrow>
                    (Inl (OtherException
                       ([CHR 0x27] @ ''NoneType'' @ [CHR 0x27] @ '' object has no attribute ''
                          @ [CHR 0x27] @ ''find'' @ [CHR 0x27])), s')
                | (Inr (Some response_text), s') \<Rightarrow> (parse_llm_response ag response_text, s'))))"

text \<open>The clean-up of the selector answered by the completion service.\<close>

definition fence :: string where
  "fence = [CHR 0x60, CHR 0x60, CHR 0x60]"

definition clean_selector :: "string \<Rightarrow> string" where
  "clean_selector content =
     (let selector = strip content;
          selector =
            (if startswith selector fence then
               (let lines = split_char (CHR 0x0A) selector;
                    lines = (if startswith (hd lines) fence then tl lines else lines);
                    lines = (if lines \<noteq> [] \<and> strip (last lines) = fence then butlast lines else lines)
                in strip (join [CHR 0x0A] lines))
             else selector)
      in if startswith selector [CHR 0x60] \<and> endswith selector [CHR 0x60]
            \<and> count_list selector (CHR 0x60) = 2
         then strip (slice 1 (length selector - 1) selector)
         else selector)"

definition navigate_to_next_page ::
  "'w ScrapingAgent \<Rightarrow> json \<Rightarrow> json \<Rightarrow> 'w state \<Rightarrow> (exn + bool) \<times> 'w state" where
  "navigate_to_next_page ag session_id html_content s =
     (case py_prefix 30000 html_content of
        Inl exc \<Rightarrow> (Inl exc, s)
      | Inr html_prefix \<Rightarrow>
          (case complete ag (NextPagePrompt html_prefix) s of
             (Inl exc, s') \<Rightarrow> (Inl exc, s')
           | (Inr None, s') \<Rightarrow>
               (Inl (OtherException
                  ([CHR 0x27] @ ''NoneType'' @ [CHR 0x27] @ '' object has no attribute ''
                     @ [CHR 0x27] @ ''strip'' @ [CHR 0x27])), s')
           | (Inr (Some content), s') \<Rightarrow>
               (let selector = clean_selector content
                in if selector = ''NO_PAGINATION'' \<or> selector = [] then (Inr False, s')
                   else (case call_tool ag ''click''
                                [(''session_id'', session_id), (''selector'', JStr selector)] s' of
                           (Inr r, s'') \<Rightarrow> (Inr True, s'')
                         | (Inl (ToolErr e), s'') \<Rightarrow>
                             (if code e = ELEMENT_NOT_VISIBLE \<or> code e = ELEMENT_NOT_CLICKABLE
                              then (Inr False, s'')
                              else (Inr False, s''))
                         | (Inl exc, s'') \<Rightarrow> (Inl exc, s'')))))"

text \<open>
  The body of the \<open>while\<close> loop of \<open>scrape\<close> for the page numbered \<open>page_count\<close> (already
  incremented): the items accumulated so far, and whether the loop goes on (\<open>False\<close>
  for a \<open>break\<close>).
\<close>

definition extract_page ::
  "'w ScrapingAgent \<Rightarrow> ScrapingConfig \<Rightarrow> json \<Rightarrow> nat \<Rightarrow> json list \<Rightarrow> 'w state
     \<Rightarrow> (exn + json list \<times> bool) \<times> 'w state" where
  "extract_page ag config session_id page_count all_extracted_data s =
     (let max_pages = dict_get_default (options config) ''max_pages'' (JInt 1);
          pagination_enabled = dict_get_default (options config) ''pagination'' (JBool False)
      in case call_tool ag ''get_html'' [(''session_id'', session_id)] s of
           (Inl exc, s1) \<Rightarrow> (Inl exc, s1)
         | (Inr (sid, html_data), s1) \<Rightarrow>
             (case py_getitem html_data ''html'' of
                Inl exc \<Rightarrow> (Inl exc, s1)
              | Inr html_content \<Rightarrow>
                  (case extract_with_llm ag html_content (schema config) s1 of
                     (Inl exc, s2) \<Rightarrow> (Inl exc, s2)
                   | (Inr page_data, s2) \<Rightarrow>
                       (case (if truthy page_data
                              then (case py_iter page_data of
                                      Inl exc \<Rightarrow> Inl exc
                                    | Inr xs \<Rightarrow> Inr (all_extracted_data @ xs))
                              else Inr all_extracted_data) of
                          Inl exc \<Rightarrow> (Inl exc, s2)
                        | Inr extended \<Rightarrow>
                            (if \<not> truthy pagination_enabled then (Inr (extended, False), s2)
                             else (case py_int_lt page_count max_pages of
                                     Inl exc \<Rightarrow> (Inl exc, s2)
                                   | Inr False \<Rightarrow> (Inr (extended, False), s2)
                                   | Inr True \<Rightarrow>
                                       (case navigate_to_next_page ag session_id html_content s2 of
                                          (Inl exc, s3) \<Rightarrow> (Inl exc, s3)
                                        | (Inr has_next, s3) \<Rightarrow> (Inr (extended, has_next), s3))))))))"

text \<open>An upper bound of the integers below \<open>max_pages\<close>, for the termination of the loop.\<close>

fun page_bound :: "json \<Rightarrow> nat" where
  "page_bound (JInt n) = nat n"
| "page_bound (JFloat r) = nat \<lceil>r\<rceil>"
| "page_bound (JBool b) = (if b then 1 else 0)"
| "page_bound v = 0"

lemma py_int_lt_bound: "py_int_lt k v = Inr True \<Longrightarrow> k < page_bound v"
proof (cases v)
  case (JFloat r)
  assume "py_int_lt k v = Inr True"
  then have "of_int (int k) < r"
    using JFloat by simp
  then have "int k < \<lceil>r\<rceil>"
    by (simp only: less_ceiling_iff)
  then show ?thesis
    using JFloat by simp
qed (auto split: if_splits)

function extraction_loop ::
  "'w ScrapingAgent \<Rightarrow> ScrapingConfig \<Rightarrow> json \<Rightarrow> nat \<Rightarrow> json list \<Rightarrow> 'w state
     \<Rightarrow> (exn + json list) \<times> 'w state" where
  "extraction_loop ag config session_id page_count all_extracted_data s =
     (case py_int_lt page_count (dict_get_default (options config) ''max_pages'' (JInt 1)) of
        Inl exc \<Rightarrow> (Inl exc, s)
      | Inr False \<Rightarrow> (Inr all_extracted_data, s)
      | Inr True \<Rightarrow>
          (case extract_page ag config session_id (page_count + 1) all_extracted_data s of
             (Inl exc, s') \<Rightarrow> (Inl exc, s')
           | (Inr (extended, False), s') \<Rightarrow> (Inr extended, s')
           | (Inr (extended, True), s') \<Rightarrow>
               extraction_loop ag config session_id (page_count + 1) extended s'))"
  by pat_completeness auto
termination
  by (relation "measure (\<lambda>(ag, config, session_id, page_count, acc, s).
        page_bound (dict_get_default (options config) ''max_pages'' (JInt 1)) - page_count)")
     (auto dest: py_int_lt_bound)

definition scrape_steps ::
  "'w ScrapingAgent \<Rightarrow> ScrapingConfig \<Rightarrow> 'w state \<Rightarrow> (exn + pydict \<times> pydict) \<times> 'w state" where
  "scrape_steps ag config s =
     (case navigate ag (url config) s of
        (Inl exc, s1) \<Rightarrow> (Inl exc, s1)
      | (Inr (session_id, nav_data), s1) \<Rightarrow>
          (case (if interactions config \<noteq> []
                 then execute_interactions ag session_id (interactions config) s1
                 else (Inr (), s1)) of
             (Inl exc, s2) \<Rightarrow> (Inl exc, s2)
           | (Inr u, s2) \<Rightarrow>
               (case extraction_loop ag config session_id 0 [] s2 of
                  (Inl exc, s3) \<Rightarrow> (Inl exc, s3)
                | (Inr all_extracted_data, s3) \<Rightarrow>
                    (let structured_data =
                           structure_data all_extracted_data (schema config)
                             (utcnow_isoformat ag (world s3));
                         report = generate_quality_report structured_data (schema config)
                     in (Inr (structured_data, report), s3)))))"

text \<open>\<open>scrape\<close>: the \<open>try\<close> block is \<open>scrape_steps\<close>, the handler catches every exception.\<close>

definition scrape :: "'w ScrapingAgent \<Rightarrow> ScrapingConfig \<Rightarrow> 'w state \<Rightarrow> ExtractionResult \<times> 'w state" where
  "scrape ag config s =
     (case scrape_steps ag config s of
        (Inr (structured_data, report), s') \<Rightarrow>
          (\<lparr>status = ''success'', data = structured_data, quality_report = report, error = None\<rparr>, s')
      | (Inl exc, s') \<Rightarrow>
          (\<lparr>status = ''error'', data = [], quality_report = [], error = Some (py_str exc)\<rparr>, s'))"


subsection \<open>Counting pages, and worlds given by a script\<close>

text \<open>The number of reads of the page markup and of extraction passes in a trace.\<close>

fun is_page_read :: "event \<Rightarrow> bool" where
  "is_page_read (ToolRun name) = (name = ''get_html'')"
| "is_page_read e = False"

fun is_extraction_pass :: "event \<Rightarrow> bool" where
  "is_extraction_pass (Completion (ExtractionPrompt html sch)) = True"
| "is_extraction_pass e = False"

definition page_reads :: "event list \<Rightarrow> nat" where
  "page_reads es = length (filter is_page_read es)"

definition extraction_passes :: "event list \<Rightarrow> nat" where
  "extraction_passes es = length (filter is_extraction_pass es)"

text \<open>The events a run from state \<open>s\<close> to state \<open>s'\<close> has added to the trace.\<close>

definition new_events :: "'w state \<Rightarrow> 'w state \<Rightarrow> event list" where
  "new_events s s' = drop (length (trace s)) (trace s')"

definition max_pages_of :: "ScrapingConfig \<Rightarrow> json" where
  "max_pages_of config = dict_get_default (options config) ''max_pages'' (JInt 1)"

definition pagination_of :: "ScrapingConfig \<Rightarrow> json" where
  "pagination_of config = dict_get_default (options config) ''pagination'' (JBool False)"

text \<open>
  A world given by a script: the list of the answers the external collaborators will
  give, in order. A call takes the next answer when it is of its kind, and raises
  otherwise. Every run of the agent against any world is a run against the script of
  the answers it received.
\<close>

datatype response =
    ToolResponse "exn + string \<times> pydict"
  | CompletionResponse "exn + string option"
  | SleepResponse "exn + unit"

definition off_script :: exn where
  "off_script = OtherException ''no answer of this kind is next in the script''"

fun scripted_run :: "pydict \<Rightarrow> response list \<Rightarrow> (exn + string \<times> pydict) \<times> response list" where
  "scripted_run args (ToolResponse r # rest) = (r, rest)"
| "scripted_run args w = (Inl off_script, w)"

fun scripted_client :: "llm_request \<Rightarrow> response list \<Rightarrow> (exn + string option) \<times> response list" where
  "scripted_client request (CompletionResponse r # rest) = (r, rest)"
| "scripted_client request w = (Inl off_script, w)"

fun scripted_sleep :: "json \<Rightarrow> response list \<Rightarrow> (exn + unit) \<times> response list" where
  "scripted_sleep d (SleepResponse r # rest) = (r, rest)"
| "scripted_sleep d w = (Inl off_script, w)"

definition scripted_tool :: "string \<Rightarrow> string \<times> response list ToolDefinition" where
  "scripted_tool name =
     (name, \<lparr>tool_name = name, tool_description = [], tool_schema = [], run = scripted_run\<rparr>)"

definition scripted_service :: "response list ToolService" where
  "scripted_service =
     \<lparr>tools = map scripted_tool
        [''navigate'', ''screenshot'', ''extract_links'', ''fill'', ''click'', ''get_html''],
      timestamp = (\<lambda>w. ''2024-01-01T00:00:00+00:00''),
      duration_ms = (\<lambda>w0 w1. 0)\<rparr>"

definition scripted_agent :: "(string \<Rightarrow> exn + json) \<Rightarrow> response list ScrapingAgent" where
  "scripted_agent loads =
     \<lparr>client = scripted_client,
      agent_tool_service = scripted_service,
      json_loads = loads,
      sleep_ms = scripted_sleep,
      utcnow_isoformat = (\<lambda>w. ''2024-01-01T00:00:00'')\<rparr>"

definition script_state :: "response list \<Rightarrow> response list state" where
  "script_state script = \<lparr>world = script, trace = []\<rparr>"

text \<open>A \<open>json.loads\<close> that knows two texts: one object with two products under
  \<open>items\<close>, one with a single product.\<close>

definition two_products_text :: string where
  "two_products_text = ''{two products}''"

definition one_product_text :: string where
  "one_product_text = ''{one product}''"

definition sample_loads :: "string \<Rightarrow> exn + json" where
  "sample_loads text =
     (if text = two_products_text
      then Inr (JObj [(''items'', JList [complete_product, unpriced_product])])
      else if text = one_product_text
      then Inr (JObj [(''items'', JList [untagged_product])])
      else Inl (JSONDecodeError ''Expecting value: line 1 column 1 (char 0)''))"

definition paginated_config :: ScrapingConfig where
  "paginated_config =
     \<lparr>url = ''https://example.com/'',
      schema = [(''produits'', JList [JObj [(''name'', JStr ''string''), (''price'', JStr ''number'')]])],
      interactions = [],
      options = [(''pagination'', JBool True), (''max_pages'', JInt 3)]\<rparr>"

definition single_page_config :: ScrapingConfig where
  "single_page_config =
     \<lparr>url = ''https://example.com/'',
      schema = [(''produits'', JList [JObj [(''name'', JStr ''string''), (''price'', JStr ''number'')]])],
      interactions = [],
      options = [(''pagination'', JBool False), (''max_pages'', JInt 1)]\<rparr>"

text \<open>
  Scripts for three jobs: two pages, the second of which answers the next-page probe
  with the sentinel; the same job whose second read of the page fails; a job whose
  navigation fails.
\<close>

definition two_page_script :: "response list" where
  "two_page_script =
     [ToolResponse (Inr (''sess_1'', [(''current_url'', JStr ''https://example.com/'')])),
      ToolResponse (Inr (''sess_1'', [(''html'', JStr ''<html>1</html>'')])),
      CompletionResponse (Inr (Some (''Here: '' @ two_products_text))),
      CompletionResponse (Inr (Some ''a.next'')),
      ToolResponse (Inr (''sess_1'', [(''clicked'', JBool True)])),
      ToolResponse (Inr (''sess_1'', [(''html'', JStr ''<html>2</html>'')])),
      CompletionResponse (Inr (Some one_product_text)),
      CompletionResponse (Inr (Some ''NO_PAGINATION''))]"



text \<open>
  Two more scripts: a job whose click on the answered next-page selector fails, and a
  job of a single page.
\<close>

definition click_fails_script :: "response list" where
  "click_fails_script =
     [ToolResponse (Inr (''sess_1'', [(''current_url'', JStr ''https://example.com/'')])),
      ToolResponse (Inr (''sess_1'', [(''html'', JStr ''<html>1</html>'')])),
      CompletionResponse (Inr (Some (''Here: '' @ two_products_text))),
      CompletionResponse (Inr (Some ''a.next'')),
      ToolResponse (Inl (ToolErr \<lparr>code = ELEMENT_NOT_CLICKABLE,
                                   message = ''Element a.next was not clickable.'',
                                   details = None\<rparr>))]"

definition single_page_script :: "response list" where
  "single_page_script =
     [ToolResponse (Inr (''sess_1'', [(''current_url'', JStr ''https://example.com/'')])),
      ToolResponse (Inr (''sess_1'', [(''html'', JStr ''<html>1</html>'')])),
      CompletionResponse (Inr (Some one_product_text))]"

section \<open>Properties of the tool execution service\<close>

lemma dict_get_dict_set_same: "dict_get (dict_set d k v) k = Some v"
  by (induction d) (auto simp: dict_get_def)

lemma dict_get_dict_set_other: "k' \<noteq> k \<Longrightarrow> dict_get (dict_set d k v) k' = dict_get d k'"
  by (induction d) (auto simp: dict_get_def)

lemma call_unexpected:
  assumes "map_of (tools svc) name = Some tool"
    and "run tool arguments (world s) = (Inl exc, w')"
    and "\<not> isinstance_ToolError exc"
  shows "call svc name arguments s =
     ([(''ok'', JBool False),
       (''tool'', JStr name),
       (''error'', JObj (to_error_payload exc)),
       (''meta'', meta svc w' (duration_ms svc (world s) w'))],
      \<lparr>world = w', trace = trace s @ [ToolRun name]\<rparr>)"
  using assms by (cases exc) (simp_all add: call_def run_tool_def)

lemma call_tool_error:
  assumes "map_of (tools svc) name = Some tool"
    and "run tool arguments (world s) = (Inl (ToolErr e), w')"
  shows "call svc name arguments s =
     ((let failure = [(''ok'', JBool False),
                      (''tool'', JStr name),
                      (''error'', JObj (ToolError_to_payload e)),
                      (''meta'', meta svc w' (duration_ms svc (world s) w'))]
       in case dict_get arguments ''session_id'' of
            None \<Rightarrow> failure
          | Some sid \<Rightarrow> if truthy sid then dict_set failure ''session_id'' sid else failure),
      \<lparr>world = w', trace = trace s @ [ToolRun name]\<rparr>)"
  using assms by (simp add: call_def run_tool_def Let_def split: option.splits)

text \<open>
  C10. When the capability raises an exception that is not a \<open>ToolError\<close>, the envelope
  returned by \<open>ToolService.call\<close> has exactly the keys \<open>ok\<close>, \<open>tool\<close>, \<open>error\<close> and
  \<open>meta\<close>: \<open>ok\<close> is false, the error code is \<open>INTERNAL_ERROR\<close>, and there is no
  \<open>session_id\<close> key, whatever the arguments of the call were (so also when they
  carried a \<open>session_id\<close>).
\<close>

theorem call_unexpected_failure_has_no_session_id:
  assumes "map_of (tools svc) name = Some tool"
    and "run tool arguments (world s) = (Inl exc, w')"
    and "\<not> isinstance_ToolError exc"
  shows "dict_get (fst (call svc name arguments s)) ''ok'' = Some (JBool False)
       \<and> (\<exists>msg. dict_get (fst (call svc name arguments s)) ''error''
               = Some (JObj [(''code'', JStr ''INTERNAL_ERROR''), (''message'', JStr msg)]))
       \<and> map fst (fst (call svc name arguments s)) = [''ok'', ''tool'', ''error'', ''meta'']
       \<and> \<not> dict_contains (fst (call svc name arguments s)) ''session_id''"
proof -
  have shape: "to_error_payload exc =
      [(''code'', JStr ''INTERNAL_ERROR''),
       (''message'', JStr (if py_str exc \<noteq> [] then py_str exc else ''Internal error''))]"
    using assms(3) by (cases exc) simp_all
  show ?thesis
    unfolding call_unexpected [OF assms] shape
    by (simp add: dict_get_def dict_contains_def)
qed

theorem call_unexpected_failure_has_no_session_id_witness:
  "dict_get (fst (call (raising_service (OtherException ''boom'')) ''click''
        [(''session_id'', JStr ''sess_0123456789ab''), (''selector'', JStr ''a.next'')]
        initial_state)) ''ok'' = Some (JBool False)
   \<and> dict_get (fst (call (raising_service (OtherException ''boom'')) ''click''
        [(''session_id'', JStr ''sess_0123456789ab''), (''selector'', JStr ''a.next'')]
        initial_state)) ''error''
       = Some (JObj [(''code'', JStr ''INTERNAL_ERROR''), (''message'', JStr ''boom'')])
   \<and> \<not> dict_contains (fst (call (raising_service (OtherException ''boom'')) ''click''
        [(''session_id'', JStr ''sess_0123456789ab''), (''selector'', JStr ''a.next'')]
        initial_state)) ''session_id''
   \<and> dict_contains [(''session_id'', JStr ''sess_0123456789ab''), (''selector'', JStr ''a.next'')]
        ''session_id''"
proof -
  have reg: "map_of (tools (raising_service (OtherException ''boom''))) ''click''
      = Some \<lparr>tool_name = ''click'', tool_description = ''Click an element.'', tool_schema = [],
           run = (\<lambda>args w. (Inl (OtherException ''boom''), Suc w))\<rparr>"
    by (simp add: raising_service_def)
  have ran: "run \<lparr>tool_name = ''click'', tool_description = ''Click an element.'', tool_schema = [],
           run = (\<lambda>args w. (Inl (OtherException ''boom''), Suc w))\<rparr>
        [(''session_id'', JStr ''sess_0123456789ab''), (''selector'', JStr ''a.next'')]
        (world initial_state) = (Inl (OtherException ''boom''), Suc 0)"
    by (simp add: initial_state_def)
  have other: "\<not> isinstance_ToolError (OtherException ''boom'')"
    by simp
  have direct: "dict_get (fst (call (raising_service (OtherException ''boom'')) ''click''
        [(''session_id'', JStr ''sess_0123456789ab''), (''selector'', JStr ''a.next'')]
        initial_state)) ''error''
       = Some (JObj [(''code'', JStr ''INTERNAL_ERROR''), (''message'', JStr ''boom'')])"
    by (simp add: call_def run_tool_def raising_service_def initial_state_def dict_get_def)
  show ?thesis
    using call_unexpected_failure_has_no_session_id [OF reg ran other] direct
    by (simp add: dict_contains_def)
qed

lemma ToolError_to_payload_fields:
  "dict_get (ToolError_to_payload e) ''code'' = Some (JStr (code_value (code e)))"
  "dict_get (ToolError_to_payload e) ''message'' = Some (JStr (message e))"
  "dict_get (ToolError_to_payload e) ''details'' =
     (case details e of None \<Rightarrow> None | Some d \<Rightarrow> if d \<noteq> [] then Some (JObj d) else None)"
  by (simp_all add: ToolError_to_payload_def dict_get_def Let_def split: option.splits)

lemma call_success:
  assumes "map_of (tools svc) name = Some tool"
    and "run tool arguments (world s) = (Inr (session_id, payload), w')"
  shows "call svc name arguments s =
     ([(''ok'', JBool True),
       (''tool'', JStr name),
       (''session_id'', JStr session_id),
       (''data'', JObj payload),
       (''meta'', meta svc w' (duration_ms svc (world s) w'))],
      \<lparr>world = w', trace = trace s @ [ToolRun name]\<rparr>)"
  using assms by (simp add: call_def run_tool_def)

text \<open>
  C2, as the code has it. For a registered capability, \<open>ToolService.call\<close> returns an
  envelope whatever the capability does. If the capability raises a \<open>ToolError\<close>, the
  envelope has \<open>ok\<close> false and carries that error's payload (its code, its message,
  and its details when they are a non-empty mapping), and a truthy \<open>session_id\<close> of the
  arguments is echoed under \<open>session_id\<close>. If it raises any other exception, the
  envelope has \<open>ok\<close> false and the error \<open>{code: INTERNAL_ERROR, message: m}\<close> where
  \<open>m\<close> is \<open>str(exc)\<close>, or the fixed text \<open>Internal error\<close> when \<open>str(exc)\<close> is empty.
  If it returns, the envelope has \<open>ok\<close> true with the session identifier and the
  payload.
\<close>

theorem call_returns_uniform_envelope:
  assumes "map_of (tools svc) name = Some tool"
    and "run tool arguments (world s) = (r, w')"
  shows "(let envelope = fst (call svc name arguments s) in
      (\<forall>e. r = Inl (ToolErr e) \<longrightarrow>
         dict_get envelope ''ok'' = Some (JBool False)
       \<and> dict_get envelope ''error'' = Some (JObj (ToolError_to_payload e))
       \<and> dict_get (ToolError_to_payload e) ''code'' = Some (JStr (code_value (code e)))
       \<and> dict_get (ToolError_to_payload e) ''message'' = Some (JStr (message e))
       \<and> dict_get (ToolError_to_payload e) ''details'' =
           (case details e of None \<Rightarrow> None | Some d \<Rightarrow> if d \<noteq> [] then Some (JObj d) else None)
       \<and> (\<forall>sid. dict_get arguments ''session_id'' = Some sid \<and> truthy sid \<longrightarrow>
             dict_get envelope ''session_id'' = Some sid))
    \<and> (\<forall>exc. r = Inl exc \<and> \<not> isinstance_ToolError exc \<longrightarrow>
         dict_get envelope ''ok'' = Some (JBool False)
       \<and> dict_get envelope ''error'' =
           Some (JObj [(''code'', JStr ''INTERNAL_ERROR''),
                       (''message'', JStr (if py_str exc = [] then ''Internal error'' else py_str exc))]))
    \<and> (\<forall>session_id payload. r = Inr (session_id, payload) \<longrightarrow>
         dict_get envelope ''ok'' = Some (JBool True)
       \<and> dict_get envelope ''session_id'' = Some (JStr session_id)
       \<and> dict_get envelope ''data'' = Some (JObj payload)))
    \<and> snd (call svc name arguments s) = \<lparr>world = w', trace = trace s @ [ToolRun name]\<rparr>"
proof -
  have tool_error: "dict_get (fst (call svc name arguments s)) ''ok'' = Some (JBool False)
       \<and> dict_get (fst (call svc name arguments s)) ''error'' = Some (JObj (ToolError_to_payload e))
       \<and> (\<forall>sid. dict_get arguments ''session_id'' = Some sid \<and> truthy sid \<longrightarrow>
             dict_get (fst (call svc name arguments s)) ''session_id'' = Some sid)
       \<and> snd (call svc name arguments s) = \<lparr>world = w', trace = trace s @ [ToolRun name]\<rparr>"
    if "r = Inl (ToolErr e)" for e
  proof -
    have ran: "run tool arguments (world s) = (Inl (ToolErr e), w')"
      using assms(2) that by simp
    show ?thesis
      unfolding call_tool_error [OF assms(1) ran]
      by (cases "dict_get arguments ''session_id''") (simp_all add: Let_def dict_get_def)
  qed
  have unexpected: "dict_get (fst (call svc name arguments s)) ''ok'' = Some (JBool False)
       \<and> dict_get (fst (call svc name arguments s)) ''error'' =
           Some (JObj [(''code'', JStr ''INTERNAL_ERROR''),
                       (''message'', JStr (if py_str exc = [] then ''Internal error'' else py_str exc))])
       \<and> snd (call svc name arguments s) = \<lparr>world = w', trace = trace s @ [ToolRun name]\<rparr>"
    if "r = Inl exc" and "\<not> isinstance_ToolError exc" for exc
  proof -
    have ran: "run tool arguments (world s) = (Inl exc, w')"
      using assms(2) that by simp
    have shape: "to_error_payload exc =
        [(''code'', JStr ''INTERNAL_ERROR''),
         (''message'', JStr (if py_str exc = [] then ''Internal error'' else py_str exc))]"
      using that(2) by (cases exc) simp_all
    show ?thesis
      unfolding call_unexpected [OF assms(1) ran that(2)] shape
      by (simp add: dict_get_def)
  qed
  have success: "dict_get (fst (call svc name arguments s)) ''ok'' = Some (JBool True)
       \<and> dict_get (fst (call svc name arguments s)) ''session_id'' = Some (JStr session_id)
       \<and> dict_get (fst (call svc name arguments s)) ''data'' = Some (JObj payload)
       \<and> snd (call svc name arguments s) = \<lparr>world = w', trace = trace s @ [ToolRun name]\<rparr>"
    if "r = Inr (session_id, payload)" for session_id payload
  proof -
    have ran: "run tool arguments (world s) = (Inr (session_id, payload), w')"
      using assms(2) that by simp
    show ?thesis
      unfolding call_success [OF assms(1) ran]
      by (simp add: dict_get_def)
  qed
  have final: "snd (call svc name arguments s) = \<lparr>world = w', trace = trace s @ [ToolRun name]\<rparr>"
  proof (cases r)
    case (Inl exc)
    then show ?thesis
      using tool_error unexpected by (cases exc) auto
  next
    case (Inr p)
    then show ?thesis
      using success by (cases p) auto
  qed
  show ?thesis
    unfolding Let_def
    using tool_error unexpected success final ToolError_to_payload_fields
    by blast
qed

theorem call_returns_uniform_envelope_witness:
  "dict_get (fst (call (raising_service (ToolErr \<lparr>code = ELEMENT_NOT_FOUND,
        message = ''No element matches selector.'', details = None\<rparr>)) ''click''
        [(''session_id'', JStr ''sess_0123456789ab''), (''selector'', JStr ''a.next'')]
        initial_state)) ''ok'' = Some (JBool False)
   \<and> dict_get (fst (call (raising_service (ToolErr \<lparr>code = ELEMENT_NOT_FOUND,
        message = ''No element matches selector.'', details = None\<rparr>)) ''click''
        [(''session_id'', JStr ''sess_0123456789ab''), (''selector'', JStr ''a.next'')]
        initial_state)) ''error''
       = Some (JObj [(''code'', JStr ''ELEMENT_NOT_FOUND''),
                     (''message'', JStr ''No element matches selector.'')])
   \<and> dict_get (fst (call (raising_service (ToolErr \<lparr>code = ELEMENT_NOT_FOUND,
        message = ''No element matches selector.'', details = None\<rparr>)) ''click''
        [(''session_id'', JStr ''sess_0123456789ab''), (''selector'', JStr ''a.next'')]
        initial_state)) ''session_id'' = Some (JStr ''sess_0123456789ab'')
   \<and> dict_get (fst (call (raising_service (OtherException ''boom'')) ''click''
        [(''selector'', JStr ''a.next'')] initial_state)) ''error''
       = Some (JObj [(''code'', JStr ''INTERNAL_ERROR''), (''message'', JStr ''boom'')])
   \<and> snd (call (raising_service (OtherException ''boom'')) ''click''
        [(''selector'', JStr ''a.next'')] initial_state)
       = \<lparr>world = Suc 0, trace = [ToolRun ''click'']\<rparr>"
proof -
  let ?e = "\<lparr>code = ELEMENT_NOT_FOUND, message = ''No element matches selector.'',
             details = None\<rparr>"
  let ?args = "[(''session_id'', JStr ''sess_0123456789ab''), (''selector'', JStr ''a.next'')]"
  have reg: "map_of (tools (raising_service exc)) ''click''
      = Some \<lparr>tool_name = ''click'', tool_description = ''Click an element.'', tool_schema = [],
           run = (\<lambda>args w. (Inl exc, Suc w))\<rparr>" for exc
    by (simp add: raising_service_def)
  have ran: "run \<lparr>tool_name = ''click'', tool_description = ''Click an element.'', tool_schema = [],
           run = (\<lambda>args w. (Inl exc, Suc w))\<rparr> args (world initial_state) = (Inl exc, Suc 0)"
    for exc args
    by (simp add: initial_state_def)
  have domain: "dict_get (fst (call (raising_service (ToolErr ?e)) ''click'' ?args initial_state)) ''ok''
        = Some (JBool False)
      \<and> dict_get (fst (call (raising_service (ToolErr ?e)) ''click'' ?args initial_state)) ''error''
        = Some (JObj [(''code'', JStr ''ELEMENT_NOT_FOUND''),
                      (''message'', JStr ''No element matches selector.'')])
      \<and> dict_get (fst (call (raising_service (ToolErr ?e)) ''click'' ?args initial_state)) ''session_id''
        = Some (JStr ''sess_0123456789ab'')"
    using call_returns_uniform_envelope [OF reg ran, of "ToolErr ?e" ?args]
    by (simp add: Let_def ToolError_to_payload_def dict_get_def)
  have other: "dict_get (fst (call (raising_service (OtherException ''boom'')) ''click''
        [(''selector'', JStr ''a.next'')] initial_state)) ''error''
       = Some (JObj [(''code'', JStr ''INTERNAL_ERROR''), (''message'', JStr ''boom'')])
     \<and> snd (call (raising_service (OtherException ''boom'')) ''click''
        [(''selector'', JStr ''a.next'')] initial_state)
       = \<lparr>world = Suc 0, trace = [ToolRun ''click'']\<rparr>"
    using call_returns_uniform_envelope
      [OF reg ran, of "OtherException ''boom''" "[(''selector'', JStr ''a.next'')]"]
    by (simp add: Let_def initial_state_def)
  show ?thesis
    using domain other by simp
qed

text \<open>
  The claim as stated fails where the exception's message is empty: the envelope then
  carries the fixed text \<open>Internal error\<close>, not the (empty) message of the exception.
\<close>

theorem call_empty_message_counterexample:
  "py_str (OtherException []) = []
   \<and> dict_get (fst (call (raising_service (OtherException [])) ''click''
        [(''selector'', JStr ''a.next'')] initial_state)) ''error''
       = Some (JObj [(''code'', JStr ''INTERNAL_ERROR''), (''message'', JStr ''Internal error'')])
   \<and> dict_get (fst (call (raising_service (OtherException [])) ''click''
        [(''selector'', JStr ''a.next'')] initial_state)) ''error''
       \<noteq> Some (JObj [(''code'', JStr ''INTERNAL_ERROR''),
                      (''message'', JStr (py_str (OtherException [])))])"
  by (simp add: call_def run_tool_def raising_service_def initial_state_def dict_get_def)

section \<open>Properties of the session boundary\<close>

lemma session_known:
  assumes "session_id = Some sid" "sid \<noteq> []" "sessions sid = Some stored"
  shows "session br session_id sessions w = (Inr (sid, stored_page stored), sessions, w)"
  using assms by (simp add: session_def known_session_def)

lemma session_preserves:
  assumes "session br session_id sessions w = (r, sessions', w')"
    and "sessions k = Some stored"
    and "\<And>pg. r = Inr (k, pg) \<Longrightarrow> session_id = Some k"
  shows "sessions' k = Some stored"
proof (cases "known_session sessions session_id")
  case (Some st)
  then show ?thesis using assms by (simp add: session_def)
next
  case None
  obtain rc w1 where ctx: "new_context br w = (rc, w1)"
    by (cases "new_context br w") auto
  show ?thesis
  proof (cases rc)
    case (Inl exc)
    then show ?thesis using assms None ctx by (simp add: session_def)
  next
    case (Inr c)
    obtain rp w2 where pg: "new_page br c w1 = (rp, w2)"
      by (cases "new_page br c w1") auto
    show ?thesis
    proof (cases rp)
      case (Inl exc)
      then show ?thesis using assms None ctx Inr pg by (simp add: session_def)
    next
      case (Inr p)
      obtain sid w3 where mint: "session_id_or_mint br session_id w2 = (sid, w3)"
        by (cases "session_id_or_mint br session_id w2") auto
      have res: "r = Inr (sid, p)"
        and upd: "sessions' = sessions(sid \<mapsto> \<lparr>stored_context = c, stored_page = p\<rparr>)"
        using assms(1) None ctx \<open>rc = Inr c\<close> pg Inr mint by (simp_all add: session_def)
      have "sid \<noteq> k"
      proof
        assume "sid = k"
        then have "session_id = Some k" using assms(3) res by simp
        moreover have "k \<noteq> []"
          using mint \<open>sid = k\<close> \<open>session_id = Some k\<close>
          by (auto simp: session_id_or_mint_def mint_session_id_def split: if_splits prod.splits)
        ultimately show False
          using None assms(2) by (simp add: known_session_def)
      qed
      then show ?thesis using upd assms(2) by simp
    qed
  qed
qed

lemma sessions_after_preserves:
  "mints_fresh br rs sessions w \<Longrightarrow> sessions k = Some stored
     \<Longrightarrow> fst (sessions_after br rs sessions w) k = Some stored"
proof (induction rs arbitrary: sessions w)
  case Nil
  then show ?case by simp
next
  case (Cons r rs)
  obtain res sessions' w' where step: "session br r sessions w = (res, sessions', w')"
    by (cases "session br r sessions w") auto
  have fresh: "\<And>pg. res = Inr (k, pg) \<Longrightarrow> r = Some k"
    using Cons.prems step by (auto split: sum.splits)
  have "sessions' k = Some stored"
    using session_preserves [OF step Cons.prems(2)] fresh by blast
  moreover have "mints_fresh br rs sessions' w'"
    using Cons.prems(1) step by simp
  ultimately show ?case
    using Cons.IH step by simp
qed


text \<open>
  C5, as the code has it. If the supplied \<open>session_id\<close> is non-empty and known, the
  stored page handle is returned and nothing changes. Otherwise a new context and a
  new page are created and stored: under the supplied identifier when it is non-empty
  (and unknown), under a minted identifier \<open>sess_\<close> followed by 12 hexadecimal digits
  when it is absent or empty. A stored identifier keeps its page handle across a call,
  and across any run of calls, as long as no minted identifier equals a stored one.
\<close>

theorem session_resolution:
  assumes "session br session_id sessions w = (r, sessions', w')"
  shows "(\<forall>sid stored. session_id = Some sid \<and> sid \<noteq> [] \<and> sessions sid = Some stored \<longrightarrow>
            r = Inr (sid, stored_page stored) \<and> sessions' = sessions \<and> w' = w)
       \<and> (known_session sessions session_id = None \<longrightarrow>
            (\<forall>sid pg. r = Inr (sid, pg) \<longrightarrow>
               (\<exists>ctx w1 w2. new_context br w = (Inr ctx, w1)
                  \<and> new_page br ctx w1 = (Inr pg, w2)
                  \<and> sid = (case session_id of
                             None \<Rightarrow> ''sess_'' @ take 12 (fst (uuid4_hex br w2))
                           | Some s \<Rightarrow> if s \<noteq> [] then s
                                       else ''sess_'' @ take 12 (fst (uuid4_hex br w2)))
                  \<and> sessions' = sessions(sid \<mapsto> \<lparr>stored_context = ctx, stored_page = pg\<rparr>))))
       \<and> (\<forall>k stored. sessions k = Some stored \<and> (\<forall>pg. r = Inr (k, pg) \<longrightarrow> session_id = Some k) \<longrightarrow>
            sessions' k = Some stored)
       \<and> (\<forall>rs k stored. mints_fresh br rs sessions w \<and> sessions k = Some stored \<longrightarrow>
            fst (sessions_after br rs sessions w) k = Some stored)"
proof -
  have known: "r = Inr (sid, stored_page stored) \<and> sessions' = sessions \<and> w' = w"
    if "session_id = Some sid" "sid \<noteq> []" "sessions sid = Some stored" for sid stored
    using assms session_known [of session_id sid sessions stored br w] that by simp
  have unknown: "\<exists>ctx w1 w2. new_context br w = (Inr ctx, w1)
        \<and> new_page br ctx w1 = (Inr pg, w2)
        \<and> sid = (case session_id of
                   None \<Rightarrow> ''sess_'' @ take 12 (fst (uuid4_hex br w2))
                 | Some s \<Rightarrow> if s \<noteq> [] then s
                             else ''sess_'' @ take 12 (fst (uuid4_hex br w2)))
        \<and> sessions' = sessions(sid \<mapsto> \<lparr>stored_context = ctx, stored_page = pg\<rparr>)"
    if none: "known_session sessions session_id = None" and res: "r = Inr (sid, pg)" for sid pg
  proof -
    obtain rc w1 where ctx: "new_context br w = (rc, w1)"
      by (cases "new_context br w") auto
    obtain c where rc: "rc = Inr c"
      using assms none res ctx by (cases rc) (simp_all add: session_def)
    obtain rp w2 where page: "new_page br c w1 = (rp, w2)"
      by (cases "new_page br c w1") auto
    obtain p where rp: "rp = Inr p"
      using assms none res ctx rc page by (cases rp) (simp_all add: session_def)
    obtain sid' w3 where mint: "session_id_or_mint br session_id w2 = (sid', w3)"
      by (cases "session_id_or_mint br session_id w2") auto
    have "sid' = sid" "p = pg"
      and upd: "sessions' = sessions(sid' \<mapsto> \<lparr>stored_context = c, stored_page = p\<rparr>)"
      using assms none res ctx rc page rp mint by (auto simp: session_def)
    moreover have "sid' = (case session_id of
                   None \<Rightarrow> ''sess_'' @ take 12 (fst (uuid4_hex br w2))
                 | Some s \<Rightarrow> if s \<noteq> [] then s
                             else ''sess_'' @ take 12 (fst (uuid4_hex br w2)))"
      using mint
      by (auto simp: session_id_or_mint_def mint_session_id_def split: option.splits prod.splits)
    ultimately show ?thesis
      using ctx rc page rp by auto
  qed
  have step: "sessions' k = Some stored"
    if "sessions k = Some stored" "\<forall>pg. r = Inr (k, pg) \<longrightarrow> session_id = Some k" for k stored
    using session_preserves [OF assms that(1)] that(2) by blast
  have part1: "\<forall>sid stored. session_id = Some sid \<and> sid \<noteq> [] \<and> sessions sid = Some stored \<longrightarrow>
            r = Inr (sid, stored_page stored) \<and> sessions' = sessions \<and> w' = w"
    using known by blast
  have part2: "known_session sessions session_id = None \<longrightarrow>
            (\<forall>sid pg. r = Inr (sid, pg) \<longrightarrow>
               (\<exists>ctx w1 w2. new_context br w = (Inr ctx, w1)
                  \<and> new_page br ctx w1 = (Inr pg, w2)
                  \<and> sid = (case session_id of
                             None \<Rightarrow> ''sess_'' @ take 12 (fst (uuid4_hex br w2))
                           | Some s \<Rightarrow> if s \<noteq> [] then s
                                       else ''sess_'' @ take 12 (fst (uuid4_hex br w2)))
                  \<and> sessions' = sessions(sid \<mapsto> \<lparr>stored_context = ctx, stored_page = pg\<rparr>)))"
    using unknown by (intro impI allI)
  have part3: "\<forall>k stored. sessions k = Some stored \<and> (\<forall>pg. r = Inr (k, pg) \<longrightarrow> session_id = Some k) \<longrightarrow>
            sessions' k = Some stored"
    using step by (intro impI allI) (erule conjE)
  have part4: "\<forall>rs k stored. mints_fresh br rs sessions w \<and> sessions k = Some stored \<longrightarrow>
            fst (sessions_after br rs sessions w) k = Some stored"
    using sessions_after_preserves [of br _ sessions w] by (intro impI allI) (erule conjE)
  from part1 part2 part3 part4 show ?thesis
    by (intro conjI)
qed

theorem session_resolution_witness:
  "session counting_engine (Some ''sess_a'')
      [''sess_a'' \<mapsto> \<lparr>stored_context = 7, stored_page = 8\<rparr>] 20
    = (Inr (''sess_a'', 8), [''sess_a'' \<mapsto> \<lparr>stored_context = 7, stored_page = 8\<rparr>], 20)
   \<and> fst (session counting_engine None
      [''sess_a'' \<mapsto> \<lparr>stored_context = 7, stored_page = 8\<rparr>] 20)
    = Inr (''sess_0123456789ab'', 21)
   \<and> fst (snd (session counting_engine None
      [''sess_a'' \<mapsto> \<lparr>stored_context = 7, stored_page = 8\<rparr>] 20)) ''sess_a''
    = Some \<lparr>stored_context = 7, stored_page = 8\<rparr>
   \<and> fst (sessions_after counting_engine [None, Some ''sess_a'', Some ''other'']
      [''sess_a'' \<mapsto> \<lparr>stored_context = 7, stored_page = 8\<rparr>] 20) ''sess_a''
    = Some \<lparr>stored_context = 7, stored_page = 8\<rparr>"
proof -
  let ?m = "[''sess_a'' \<mapsto> \<lparr>stored_context = 7::nat, stored_page = 8::nat\<rparr>]"
  have run_known: "session counting_engine (Some ''sess_a'') ?m 20
      = (Inr (''sess_a'', 8), ?m, 20)"
    by (simp add: session_def known_session_def)
  have run_new: "session counting_engine None ?m 20
      = (Inr (''sess_0123456789ab'', 21),
         ?m(''sess_0123456789ab'' \<mapsto> \<lparr>stored_context = 20, stored_page = 21\<rparr>), 23)"
    by (simp add: session_def known_session_def counting_engine_def session_id_or_mint_def
        mint_session_id_def)
  have fresh: "mints_fresh counting_engine [None, Some ''sess_a'', Some ''other''] ?m 20"
    by (simp add: session_def known_session_def counting_engine_def session_id_or_mint_def
        mint_session_id_def)
  have b: "fst (snd (session counting_engine None ?m 20)) ''sess_a''
      = Some \<lparr>stored_context = 7, stored_page = 8\<rparr>"
    using session_resolution [OF run_new, THEN conjunct2, THEN conjunct2, THEN conjunct1,
        rule_format, of "''sess_a''" "\<lparr>stored_context = 7, stored_page = 8\<rparr>"] run_new
    by simp
  have c: "fst (sessions_after counting_engine [None, Some ''sess_a'', Some ''other''] ?m 20) ''sess_a''
      = Some \<lparr>stored_context = 7, stored_page = 8\<rparr>"
    using session_resolution [OF run_known, THEN conjunct2, THEN conjunct2, THEN conjunct2,
        rule_format, of "[None, Some ''sess_a'', Some ''other'']" "''sess_a''"
        "\<lparr>stored_context = 7, stored_page = 8\<rparr>"] fresh
    by simp
  show ?thesis
    using run_known b c run_new by simp
qed

text \<open>
  The claim as stated fails for a non-empty identifier that is not yet known: no
  identifier is minted, the page is stored under the identifier the caller supplied.
\<close>

theorem session_unknown_identifier_counterexample:
  "known_session (Map.empty :: (nat, nat) sessions) (Some ''my-session'') = None
   \<and> fst (session counting_engine (Some ''my-session'') Map.empty 0) = Inr (''my-session'', 1)
   \<and> fst (mint_session_id counting_engine 2) = ''sess_0123456789ab''
   \<and> fst (session counting_engine (Some ''my-session'') Map.empty 0)
       \<noteq> Inr (fst (mint_session_id counting_engine 2), 1)"
  by (simp add: session_def known_session_def counting_engine_def session_id_or_mint_def
      mint_session_id_def)

section \<open>Properties of the quality analyzer\<close>

lemma check_nested_refines:
  "check_nested v prefix st = (fst st \<and> missing_in prefix v = [], foldl count_missing (snd st) (missing_in prefix v))"
  "check_dict_items kvs prefix st = (fst st \<and> missing_in_dict prefix kvs = [], foldl count_missing (snd st) (missing_in_dict prefix kvs))"
  "check_list_items xs prefix st = (fst st \<and> missing_in_list prefix xs = [], foldl count_missing (snd st) (missing_in_list prefix xs))"
proof (induction v prefix st and kvs prefix st and xs prefix st
    rule: check_nested_check_dict_items_check_list_items.induct)
  case (5 key val rest prefix st)
  show ?case
  proof (cases "val = JNull \<or> val = JStr []")
    case True
    then show ?thesis
      using 5(2) by (auto simp: is_missing_def)
  next
    case False
    show ?thesis
    proof (cases "is_container val")
      case True
      then show ?thesis
        using False 5(1) 5(2) by (auto simp: is_missing_def)
    next
      case nc: False
      then have "missing_in (field_path prefix key) val = []"
        by (cases val) simp_all
      then show ?thesis
        using False nc 5(2) by (auto simp: is_missing_def)
    qed
  qed
qed simp_all

lemma count_missing_map:
  assumes "x \<notin> set ks \<longrightarrow> c x = 0" and "distinct ks"
  shows "count_missing (map (\<lambda>p. (p, c p)) ks) x =
     map (\<lambda>p. (p, (c(x := c x + 1)) p)) (if x \<in> set ks then ks else ks @ [x])"
  using assms by (induction ks) auto

lemma foldl_count_missing_map:
  assumes "\<forall>p. p \<notin> set ks \<longrightarrow> c p = 0" and "distinct ks"
  shows "foldl count_missing (map (\<lambda>p. (p, c p)) ks) ps =
     map (\<lambda>p. (p, c p + count_list ps p)) (ks @ filter (\<lambda>p. p \<notin> set ks) (first_seen ps))"
  using assms
proof (induction ps arbitrary: ks c)
  case Nil
  then show ?case by simp
next
  case (Cons x ps)
  let ?ks = "if x \<in> set ks then ks else ks @ [x]"
  let ?c = "c(x := c x + 1)"
  have inv: "\<forall>p. p \<notin> set ?ks \<longrightarrow> ?c p = 0" "distinct ?ks"
    using Cons.prems by auto
  have "foldl count_missing (map (\<lambda>p. (p, c p)) ks) (x # ps)
      = foldl count_missing (map (\<lambda>p. (p, ?c p)) ?ks) ps"
    using count_missing_map [of x ks c] Cons.prems by simp
  also have "\<dots> = map (\<lambda>p. (p, ?c p + count_list ps p)) (?ks @ filter (\<lambda>p. p \<notin> set ?ks) (first_seen ps))"
    using Cons.IH [OF inv] .
  also have "\<dots> = map (\<lambda>p. (p, c p + count_list (x # ps) p))
        (ks @ filter (\<lambda>p. p \<notin> set ks) (first_seen (x # ps)))"
  proof (cases "x \<in> set ks")
    case True
    have "filter (\<lambda>p. p \<notin> set ks) (filter (\<lambda>y. y \<noteq> x) (first_seen ps))
        = filter (\<lambda>p. p \<notin> set ks) (first_seen ps)"
      using True by (auto intro: filter_cong)
    then show ?thesis using True by auto
  next
    case False
    have "filter (\<lambda>p. p \<notin> set ks) (filter (\<lambda>y. y \<noteq> x) (first_seen ps))
        = filter (\<lambda>p. p \<noteq> x \<and> p \<notin> set ks) (first_seen ps)"
      by (auto intro: filter_cong)
    then show ?thesis using False by auto
  qed
  finally show ?case .
qed

lemma foldl_count_missing_empty:
  "foldl count_missing [] ps = map (\<lambda>p. (p, count_list ps p)) (first_seen ps)"
  using foldl_count_missing_map [of "[]" "\<lambda>p. 0" ps] by simp

lemma set_first_seen [simp]: "set (first_seen xs) = set xs"
  by (induction xs) auto

lemma distinct_first_seen [simp]: "distinct (first_seen xs)"
  by (induction xs) auto

lemma analyze_items_refines:
  "analyze_items items (c, mf) =
     (c + length (filter item_complete items), foldl count_missing mf (all_missing items))"
proof (induction items arbitrary: c mf)
  case Nil
  then show ?case by (simp add: all_missing_def)
next
  case (Cons item items)
  show ?case
    using Cons.IH
    by (simp add: check_item_completeness_def check_nested_refines item_complete_def all_missing_def)
qed

lemma round_half_even_bounds:
  "of_int (round_half_even x) \<le> x + 1 / 2" "x - 1 / 2 \<le> of_int (round_half_even x)"
proof -
  have f: "of_int \<lfloor>x\<rfloor> \<le> x" "x < of_int \<lfloor>x\<rfloor> + 1"
    by linarith+
  show "of_int (round_half_even x) \<le> x + 1 / 2" "x - 1 / 2 \<le> of_int (round_half_even x)"
    using f by (auto simp: round_half_even_def Let_def; linarith)+
qed

lemma round_half_even_of_int [simp]: "round_half_even (of_int n) = n"
  by (simp add: round_half_even_def)

lemma round_half_even_mono: "x \<le> y \<Longrightarrow> round_half_even x \<le> round_half_even y"
proof -
  assume xy: "x \<le> y"
  have fl: "\<lfloor>x\<rfloor> \<le> \<lfloor>y\<rfloor>" using xy by (rule floor_mono)
  show ?thesis
  proof (cases "\<lfloor>x\<rfloor> = \<lfloor>y\<rfloor>")
    case True
    then show ?thesis using xy by (auto simp: round_half_even_def Let_def)
  next
    case False
    then have "\<lfloor>x\<rfloor> + 1 \<le> \<lfloor>y\<rfloor>" using fl by simp
    moreover have "round_half_even x \<le> \<lfloor>x\<rfloor> + 1"
      by (auto simp: round_half_even_def Let_def)
    moreover have "\<lfloor>y\<rfloor> \<le> round_half_even y"
      by (auto simp: round_half_even_def Let_def)
    ultimately show ?thesis by linarith
  qed
qed

lemma ilog2_le_zero:
  assumes "0 < q" "q \<le> 1"
  shows "ilog2 q \<le> 0"
proof -
  obtain a b where ab: "quotient_of q = (a, b)"
    by (cases "quotient_of q") auto
  have bpos: "0 < b" using ab by (rule quotient_of_denom_pos)
  have q: "q = of_int a / of_int b" using ab by (rule quotient_of_div)
  have "of_int a \<le> (of_int b :: rat)"
    using assms(2) bpos q by (simp add: divide_le_eq)
  then have "a \<le> b" by simp
  then have "bitlen a \<le> bitlen b"
    unfolding bitlen_def using floorlog_mono [of "nat a" "nat b" 2] by simp
  then have d: "bitlen a - bitlen b \<le> 0" by simp
  show ?thesis
    using d by (simp add: ilog2_def ab Let_def)
qed

lemma binary64_unit:
  assumes "0 \<le> q" "q \<le> 1"
  shows "0 \<le> binary64 q" "binary64 q \<le> 1" "\<bar>binary64 q - q\<bar> \<le> 1 / 2 ^ 53"
proof -
  have all: "0 \<le> binary64 q \<and> binary64 q \<le> 1 \<and> \<bar>binary64 q - q\<bar> \<le> 1 / 2 ^ 53"
  proof (cases "q = 0")
    case True
    then show ?thesis by (simp add: binary64_def)
  next
    case False
    then have qpos: "0 < q" using assms(1) by simp
    define p where "p = 52 - max (ilog2 \<bar>q\<bar>) (- 1022)"
    have "ilog2 \<bar>q\<bar> \<le> 0" using ilog2_le_zero [of q] qpos assms(2) by simp
    then have p52: "52 \<le> p" by (simp add: p_def)
    define n where "n = nat p"
    have pn: "p = int n" and n52: "52 \<le> n" using p52 by (simp_all add: n_def)
    have pw: "power_int (2::rat) p = 2 ^ n" by (simp add: pn)
    have b: "binary64 q = of_int (round_half_even (q * 2 ^ n)) / 2 ^ n"
      using False pw by (simp add: binary64_def p_def [symmetric] Let_def)
    have lo: "round_half_even 0 \<le> round_half_even (q * 2 ^ n)"
      using assms(1) by (intro round_half_even_mono) simp
    have hi: "round_half_even (q * 2 ^ n) \<le> round_half_even (of_int (2 ^ n))"
      using assms(2) by (intro round_half_even_mono) (simp add: mult_le_cancel_right1)
    have lo': "0 \<le> round_half_even (q * 2 ^ n)"
      using lo round_half_even_of_int [of 0] by simp
    have hi': "round_half_even (q * 2 ^ n) \<le> 2 ^ n"
      using hi by (simp only: round_half_even_of_int)
    have ge: "0 \<le> binary64 q" unfolding b using lo' by simp
    have "(of_int (round_half_even (q * 2 ^ n)) :: rat) \<le> of_int (2 ^ n)"
      using hi' by (simp only: of_int_le_iff)
    then have le: "binary64 q \<le> 1" unfolding b by (simp add: divide_le_eq)
    have pw52: "(2::rat) ^ 52 \<le> 2 ^ n"
      using n52 by (intro power_increasing) simp_all
    have err: "\<bar>of_int (round_half_even (q * 2 ^ n)) - q * 2 ^ n\<bar> \<le> 1 / 2"
      using round_half_even_bounds [of "q * 2 ^ n"] by linarith
    have "binary64 q - q = (of_int (round_half_even (q * 2 ^ n)) - q * 2 ^ n) / 2 ^ n"
      unfolding b by (simp add: field_simps)
    then have "\<bar>binary64 q - q\<bar> = \<bar>of_int (round_half_even (q * 2 ^ n)) - q * 2 ^ n\<bar> / 2 ^ n"
      by simp
    also have "\<dots> \<le> (1 / 2) / 2 ^ n"
      using err by (intro divide_right_mono) simp_all
    also have "\<dots> \<le> (1 / 2) / 2 ^ 52"
      using pw52 by (intro divide_left_mono) simp_all
    finally have "\<bar>binary64 q - q\<bar> \<le> 1 / 2 ^ 53" by simp
    then show ?thesis using ge le by simp
  qed
  show "0 \<le> binary64 q" "binary64 q \<le> 1" "\<bar>binary64 q - q\<bar> \<le> 1 / 2 ^ 53"
    using all by simp_all
qed

lemma py_truediv_unit:
  assumes "a \<le> b" "0 < b"
  shows "0 \<le> py_truediv a b" "py_truediv a b \<le> 1"
    "\<bar>py_truediv a b - of_nat a / of_nat b\<bar> \<le> 1 / 2 ^ 53"
proof -
  have q: "0 \<le> (of_nat a / of_nat b :: rat)" "(of_nat a / of_nat b :: rat) \<le> 1"
    using assms by (simp_all add: divide_le_eq)
  show "0 \<le> py_truediv a b" "py_truediv a b \<le> 1"
    "\<bar>py_truediv a b - of_nat a / of_nat b\<bar> \<le> 1 / 2 ^ 53"
    unfolding py_truediv_def using binary64_unit [OF q] by simp_all
qed

lemma py_round3_unit:
  assumes "0 \<le> x" "x \<le> 1"
  shows "0 \<le> py_round3 x" "py_round3 x \<le> 1" "\<bar>py_round3 x - x\<bar> \<le> 1 / 2000 + 1 / 2 ^ 53"
proof -
  define k where "k = round_half_even (x * 1000)"
  have "round_half_even 0 \<le> k" unfolding k_def
    using assms(1) by (intro round_half_even_mono) simp
  then have k0: "0 \<le> k" using round_half_even_of_int [of 0] by simp
  have "k \<le> round_half_even (of_int 1000)" unfolding k_def
    using assms(2) by (intro round_half_even_mono) simp
  then have k1: "k \<le> 1000" by (simp only: round_half_even_of_int)
  have d: "0 \<le> (of_int k / 1000 :: rat)" "(of_int k / 1000 :: rat) \<le> 1"
    using k0 k1 by simp_all
  have r: "py_round3 x = binary64 (of_int k / 1000)"
    by (simp add: py_round3_def k_def)
  have e1: "\<bar>binary64 (of_int k / 1000) - of_int k / 1000\<bar> \<le> 1 / 2 ^ 53"
    using binary64_unit(3) [OF d] .
  have "\<bar>of_int k - x * 1000\<bar> \<le> 1 / 2"
    using round_half_even_bounds [of "x * 1000"] unfolding k_def by linarith
  then have e2: "\<bar>of_int k / 1000 - x\<bar> \<le> 1 / 2000"
    by linarith
  show "0 \<le> py_round3 x" "py_round3 x \<le> 1"
    unfolding r using binary64_unit(1,2) [OF d] by simp_all
  show "\<bar>py_round3 x - x\<bar> \<le> 1 / 2000 + 1 / 2 ^ 53"
    unfolding r using e1 e2 by linarith
qed

declare show_nat.simps [simp del]

lemma count_list_distinct:
  "distinct ys \<Longrightarrow> count_list ys p = (if p \<in> set ys then 1 else 0)"
  by (induction ys) auto

lemma count_list_concat_distinct:
  assumes "\<forall>x \<in> set xs. distinct (f x)"
  shows "count_list (concat (map f xs)) p = length (filter (\<lambda>x. p \<in> set (f x)) xs)"
  using assms
proof (induction xs)
  case Nil
  then show ?case by simp
next
  case (Cons x xs)
  have one: "count_list (f x) p = (if p \<in> set (f x) then 1 else 0)"
    using Cons.prems by (simp add: count_list_distinct)
  show ?case
    using Cons one by simp
qed

lemma generate_quality_report_nonempty:
  assumes "find_items structured_data = items" and "items \<noteq> []"
  shows "generate_quality_report structured_data sch =
     [(''total_items'', JInt (int (length items))),
      (''complete_items'', JInt (int (length (filter item_complete items)))),
      (''completion_rate'',
         JFloat (py_round3 (py_truediv (length (filter item_complete items)) (length items)))),
      (''missing_fields'',
         JList (map (render_missing (all_missing items)) (first_seen (all_missing items)))),
      (''errors'', JList [])]"
  using assms
  by (simp add: generate_quality_report_def Let_def analyze_items_refines
      foldl_count_missing_empty render_missing_def comp_def)

lemma generate_quality_report_empty:
  assumes "find_items structured_data = []"
  shows "generate_quality_report structured_data sch =
     [(''total_items'', JInt 0),
      (''complete_items'', JInt 0),
      (''completion_rate'', JFloat 0),
      (''missing_fields'', JList []),
      (''errors'', JList [])]"
  using assms by (simp add: generate_quality_report_def)

text \<open>
  C6, as the code has it. A field is counted as missing exactly when its value is null
  or the empty string; the walk descends into nested dicts and lists, and an entry of a
  nested list is walked under the path of the list (the index is not part of the
  path). The walk of the code agrees with the list of missing occurrences
  \<open>missing_in\<close>: an item is complete exactly when it has no missing occurrence, and the
  count reported for a path is the number of missing occurrences of that path over
  all items, rendered as \<open>path: count items\<close> in the order the paths were first met.
  Where no item misses the same path twice, that count is the number of items that
  miss the path.
\<close>

theorem quality_report_missing_field_accounting:
  assumes "find_items structured_data = items" and "items \<noteq> []"
  shows "dict_get (generate_quality_report structured_data sch) ''missing_fields''
           = Some (JList (map (render_missing (all_missing items)) (first_seen (all_missing items))))
       \<and> dict_get (generate_quality_report structured_data sch) ''complete_items''
           = Some (JInt (int (length (filter item_complete items))))
       \<and> (\<forall>item counters. check_item_completeness item counters
             = (item_complete item, foldl count_missing counters (missing_in [] item)))
       \<and> (\<forall>key val. \<not> is_container val \<longrightarrow>
             check_item_completeness (JObj [(key, val)]) []
               = (if val = JNull \<or> val = JStr [] then (False, [(key, 1)]) else (True, [])))
       \<and> (\<forall>prefix xs. missing_in prefix (JList xs) = concat (map (missing_in prefix) xs))
       \<and> ((\<forall>item \<in> set items. distinct (missing_in [] item)) \<longrightarrow>
             (\<forall>p. count_list (all_missing items) p = items_missing p items))"
proof -
  have fields: "dict_get (generate_quality_report structured_data sch) ''missing_fields''
           = Some (JList (map (render_missing (all_missing items)) (first_seen (all_missing items))))"
    "dict_get (generate_quality_report structured_data sch) ''complete_items''
           = Some (JInt (int (length (filter item_complete items))))"
    unfolding generate_quality_report_nonempty [OF assms] by (simp_all add: dict_get_def)
  have item: "\<forall>item counters. check_item_completeness item counters
             = (item_complete item, foldl count_missing counters (missing_in [] item))"
    by (simp add: check_item_completeness_def check_nested_refines item_complete_def)
  have leaf: "\<forall>key val. \<not> is_container val \<longrightarrow>
             check_item_completeness (JObj [(key, val)]) []
               = (if val = JNull \<or> val = JStr [] then (False, [(key, 1)]) else (True, []))"
    by (simp add: check_item_completeness_def field_path_def)
  have index: "\<forall>prefix xs. missing_in prefix (JList xs) = concat (map (missing_in prefix) xs)"
  proof (intro allI)
    fix prefix xs
    have "missing_in_list prefix xs = concat (map (missing_in prefix) xs)"
      by (induction xs) simp_all
    then show "missing_in prefix (JList xs) = concat (map (missing_in prefix) xs)"
      by simp
  qed
  have per_item: "(\<forall>item \<in> set items. distinct (missing_in [] item)) \<longrightarrow>
             (\<forall>p. count_list (all_missing items) p = items_missing p items)"
    using count_list_concat_distinct [of items "missing_in []"]
    by (simp add: all_missing_def items_missing_def)
  from fields item leaf index per_item show ?thesis
    by (intro conjI)
qed

lemma sample_missing:
  "missing_in [] complete_product = []"
  "missing_in [] unpriced_product = [''price'']"
  "missing_in [] untagged_product = [''tags.label'', ''tags.label'']"
  by (simp_all add: complete_product_def unpriced_product_def untagged_product_def
      is_missing_def field_path_def)

lemma show_nat_digits: "show_nat (Suc 0) = ''1''" "show_nat (Suc (Suc 0)) = ''2''"
  by (simp_all add: show_nat.simps digit_char_def)

theorem quality_report_missing_field_accounting_witness:
  "dict_get (generate_quality_report
        [(''produits'', JList [complete_product, unpriced_product, untagged_product])] [])
      ''missing_fields''
     = Some (JList [JStr ''price: 1 items'', JStr ''tags.label: 2 items''])
   \<and> dict_get (generate_quality_report
        [(''produits'', JList [complete_product, unpriced_product, untagged_product])] [])
      ''complete_items'' = Some (JInt 1)
   \<and> check_item_completeness (JObj [(''price'', JStr [])]) [] = (False, [(''price'', 1)])
   \<and> check_item_completeness (JObj [(''price'', JInt 0)]) [] = (True, [])
   \<and> count_list (all_missing [complete_product, unpriced_product]) ''price''
     = items_missing ''price'' [complete_product, unpriced_product]"
proof -
  let ?items = "[complete_product, unpriced_product, untagged_product]"
  have found: "find_items [(''produits'', JList ?items)] = ?items"
    by simp
  have nonempty: "?items \<noteq> []"
    by simp
  have found2: "find_items [(''produits'', JList [complete_product, unpriced_product])]
      = [complete_product, unpriced_product]"
    by simp
  have nonempty2: "[complete_product, unpriced_product] \<noteq> []"
    by simp
  have dist: "\<forall>item \<in> set [complete_product, unpriced_product]. distinct (missing_in [] item)"
    by (simp add: sample_missing)
  note main = quality_report_missing_field_accounting [OF found nonempty, of "[]"]
  note flat = quality_report_missing_field_accounting [OF found2 nonempty2, of "[]"]
  have a: "dict_get (generate_quality_report [(''produits'', JList ?items)] []) ''missing_fields''
      = Some (JList [JStr ''price: 1 items'', JStr ''tags.label: 2 items''])"
    using main [THEN conjunct1]
    by (simp add: all_missing_def sample_missing render_missing_def show_nat_digits)
  have b: "dict_get (generate_quality_report [(''produits'', JList ?items)] []) ''complete_items''
      = Some (JInt 1)"
    using main [THEN conjunct2, THEN conjunct1]
    by (simp add: item_complete_def sample_missing)
  have c: "check_item_completeness (JObj [(''price'', JStr [])]) [] = (False, [(''price'', 1)])"
    using main [THEN conjunct2, THEN conjunct2, THEN conjunct2, THEN conjunct1, rule_format,
        of "JStr []" "''price''"]
    by simp
  have d: "check_item_completeness (JObj [(''price'', JInt 0)]) [] = (True, [])"
    using main [THEN conjunct2, THEN conjunct2, THEN conjunct2, THEN conjunct1, rule_format,
        of "JInt 0" "''price''"]
    by simp
  have e: "count_list (all_missing [complete_product, unpriced_product]) ''price''
      = items_missing ''price'' [complete_product, unpriced_product]"
    using flat [THEN conjunct2, THEN conjunct2, THEN conjunct2, THEN conjunct2, THEN conjunct2]
      dist by blast
  from a b c d e show ?thesis
    by (intro conjI)
qed

text \<open>
  The claim as stated fails on an item whose nested list misses the same field in
  two entries: the count reported for the path is 2, while one item misses the field.
\<close>

theorem missing_count_counterexample:
  "dict_get (generate_quality_report [(''produits'', JList [untagged_product])] [])
      ''missing_fields'' = Some (JList [JStr ''tags.label: 2 items''])
   \<and> dict_get (generate_quality_report [(''produits'', JList [untagged_product])] [])
      ''total_items'' = Some (JInt 1)
   \<and> items_missing ''tags.label'' [untagged_product] = 1"
proof -
  have found: "find_items [(''produits'', JList [untagged_product])] = [untagged_product]"
    by simp
  show ?thesis
    unfolding generate_quality_report_nonempty [OF found, of "[]", simplified]
    by (simp add: dict_get_def all_missing_def sample_missing render_missing_def show_nat_digits
        items_missing_def)
qed

text \<open>
  C8. The report's \<open>completion_rate\<close> is \<open>round(complete_items / total_items, 3)\<close> in
  Python's float arithmetic: a float between 0 and 1, within \<open>1/2000 + 2^-52\<close> of the
  exact quotient. For an empty item list the report is all zeros with empty lists.
\<close>

theorem quality_report_completion_rate:
  "(let items = find_items structured_data;
        total = length items;
        complete = length (filter item_complete items);
        report = generate_quality_report structured_data sch
    in dict_get report ''total_items'' = Some (JInt (int total))
     \<and> dict_get report ''complete_items'' = Some (JInt (int complete))
     \<and> (\<exists>r. dict_get report ''completion_rate'' = Some (JFloat r)
            \<and> r = (if total = 0 then 0 else py_round3 (py_truediv complete total))
            \<and> 0 \<le> r \<and> r \<le> 1
            \<and> (0 < total \<longrightarrow> \<bar>r - of_nat complete / of_nat total\<bar> \<le> 1 / 2000 + 1 / 2 ^ 52))
     \<and> (total = 0 \<longrightarrow>
           report = [(''total_items'', JInt 0),
                     (''complete_items'', JInt 0),
                     (''completion_rate'', JFloat 0),
                     (''missing_fields'', JList []),
                     (''errors'', JList [])]))"
proof (cases "find_items structured_data = []")
  case True
  show ?thesis
    unfolding Let_def generate_quality_report_empty [OF True] True
    by (simp add: dict_get_def)
next
  case False
  define items where "items = find_items structured_data"
  define total where "total = length items"
  define complete where "complete = length (filter item_complete items)"
  have found: "find_items structured_data = items"
    by (simp add: items_def)
  have nonempty: "items \<noteq> []"
    using False by (simp add: items_def)
  have pos: "0 < total"
    using nonempty by (simp add: total_def)
  have le: "complete \<le> total"
    by (simp add: complete_def total_def)
  note q = py_truediv_unit [OF le pos]
  note r = py_round3_unit [OF q(1) q(2)]
  have err: "\<bar>py_round3 (py_truediv complete total) - of_nat complete / of_nat total\<bar>
      \<le> 1 / 2000 + 1 / 2 ^ 52"
  proof -
    have half: "(1::rat) / 2 ^ 53 + 1 / 2 ^ 53 = 1 / 2 ^ 52"
      by simp
    show ?thesis
      using q(3) r(3) half by linarith
  qed
  show ?thesis
    unfolding Let_def generate_quality_report_nonempty [OF found nonempty]
    unfolding found total_def [symmetric] complete_def [symmetric]
    using pos r(1) r(2) err
    by (simp add: dict_get_def)
qed

lemma py_round3_samples:
  "py_round3 (py_truediv 1 3) = 5998794703657501 / 18014398509481984"
  "py_round3 (py_truediv 1 16) = 1116892707587883 / 18014398509481984"
  by code_simp+

theorem quality_report_completion_rate_witness:
  "dict_get (generate_quality_report
        [(''produits'', JList [complete_product, unpriced_product, untagged_product])] [])
      ''total_items'' = Some (JInt 3)
   \<and> dict_get (generate_quality_report
        [(''produits'', JList [complete_product, unpriced_product, untagged_product])] [])
      ''complete_items'' = Some (JInt 1)
   \<and> dict_get (generate_quality_report
        [(''produits'', JList [complete_product, unpriced_product, untagged_product])] [])
      ''completion_rate'' = Some (JFloat (5998794703657501 / 18014398509481984))
   \<and> \<bar>py_round3 (py_truediv 1 3) - 1 / 3\<bar> \<le> 1 / 2000 + 1 / 2 ^ 52
   \<and> generate_quality_report [(''produits'', JList [])] []
       = [(''total_items'', JInt 0),
          (''complete_items'', JInt 0),
          (''completion_rate'', JFloat 0),
          (''missing_fields'', JList []),
          (''errors'', JList [])]"
proof -
  let ?sd = "[(''produits'', JList [complete_product, unpriced_product, untagged_product])]"
  have complete: "item_complete complete_product" "\<not> item_complete unpriced_product"
    "\<not> item_complete untagged_product"
    by (simp_all add: item_complete_def sample_missing)
  have full: "dict_get (generate_quality_report ?sd []) ''total_items'' = Some (JInt 3)
     \<and> dict_get (generate_quality_report ?sd []) ''complete_items'' = Some (JInt 1)
     \<and> dict_get (generate_quality_report ?sd []) ''completion_rate''
         = Some (JFloat (py_round3 (py_truediv 1 3)))
     \<and> \<bar>py_round3 (py_truediv 1 3) - 1 / 3\<bar> \<le> 1 / 2000 + 1 / 2 ^ 52"
    using quality_report_completion_rate [of ?sd "[]"]
    by (simp add: Let_def complete eval_nat_numeral)
  have empty: "generate_quality_report [(''produits'', JList [])] []
       = [(''total_items'', JInt 0),
          (''complete_items'', JInt 0),
          (''completion_rate'', JFloat 0),
          (''missing_fields'', JList []),
          (''errors'', JList [])]"
    using quality_report_completion_rate [of "[(''produits'', JList [])]" "[]"]
    by (simp add: Let_def)
  from full empty show ?thesis
    by (simp only: py_round3_samples(1) [symmetric])
qed

section \<open>Properties of result structuring\<close>

lemma find_array_field_first:
  assumes "nonempty_list v" and "\<forall>e \<in> set pre. \<not> nonempty_list (snd e)"
  shows "find_array_field (pre @ (k, v) # post) = Some k"
  using assms by (induction pre) auto

lemma find_array_field_none:
  "find_array_field sch = None \<longleftrightarrow> (\<forall>e \<in> set sch. \<not> nonempty_list (snd e))"
  by (induction sch) (auto split: if_splits)

text \<open>
  C9, as the code has it. The items are placed under the first schema key whose value
  is a non-empty list (for a key other than the empty string and \<open>metadata\<close>), and
  under \<open>items\<close> when no schema value is a non-empty list. When the schema has a
  \<open>metadata\<close> key the result carries a \<open>metadata\<close> object with the extraction
  timestamp and the number of items; otherwise the result has the one key.
\<close>

theorem structure_data_places_items:
  "(\<forall>pre k v post.
        sch = pre @ (k, v) # post \<and> nonempty_list v
        \<and> (\<forall>e \<in> set pre. \<not> nonempty_list (snd e)) \<and> k \<noteq> [] \<and> k \<noteq> ''metadata'' \<longrightarrow>
        dict_get (structure_data extracted_items sch utcnow_iso) k = Some (JList extracted_items))
   \<and> ((\<forall>e \<in> set sch. \<not> nonempty_list (snd e)) \<longrightarrow>
        dict_get (structure_data extracted_items sch utcnow_iso) ''items''
          = Some (JList extracted_items))
   \<and> (dict_contains sch ''metadata'' \<longrightarrow>
        dict_get (structure_data extracted_items sch utcnow_iso) ''metadata''
          = Some (JObj [(''date_extraction'', JStr (utcnow_iso @ ''Z'')),
                        (''nb_resultats'', JInt (int (length extracted_items)))]))
   \<and> (\<not> dict_contains sch ''metadata'' \<longrightarrow>
        length (structure_data extracted_items sch utcnow_iso) = 1)"
proof -
  have placed: "dict_get (structure_data extracted_items sch utcnow_iso) k
      = Some (JList extracted_items)"
    if "sch = pre @ (k, v) # post" "nonempty_list v"
      "\<forall>e \<in> set pre. \<not> nonempty_list (snd e)" "k \<noteq> []" "k \<noteq> ''metadata''"
    for pre k v post
  proof -
    have "find_array_field sch = Some k"
      using find_array_field_first [OF that(2) that(3)] that(1) by simp
    then show ?thesis
      using that(4) that(5)
      by (simp add: structure_data_def Let_def dict_get_def)
  qed
  have dflt: "dict_get (structure_data extracted_items sch utcnow_iso) ''items''
          = Some (JList extracted_items)"
    if "\<forall>e \<in> set sch. \<not> nonempty_list (snd e)"
  proof -
    have "find_array_field sch = None"
      using that by (simp add: find_array_field_none)
    then show ?thesis
      by (simp add: structure_data_def Let_def dict_get_def)
  qed
  have md: "dict_get (structure_data extracted_items sch utcnow_iso) ''metadata''
          = Some (JObj [(''date_extraction'', JStr (utcnow_iso @ ''Z'')),
                        (''nb_resultats'', JInt (int (length extracted_items)))])"
    if "dict_contains sch ''metadata''"
    using that by (simp add: structure_data_def Let_def dict_get_dict_set_same)
  have single: "length (structure_data extracted_items sch utcnow_iso) = 1"
    if "\<not> dict_contains sch ''metadata''"
    using that by (simp add: structure_data_def Let_def split: option.splits)
  have part1: "\<forall>pre k v post.
        sch = pre @ (k, v) # post \<and> nonempty_list v
        \<and> (\<forall>e \<in> set pre. \<not> nonempty_list (snd e)) \<and> k \<noteq> [] \<and> k \<noteq> ''metadata'' \<longrightarrow>
        dict_get (structure_data extracted_items sch utcnow_iso) k = Some (JList extracted_items)"
    using placed by blast
  from part1 dflt md single show ?thesis
    by (intro conjI impI)
qed

theorem structure_data_places_items_witness:
  "structure_data [complete_product, unpriced_product]
      [(''site'', JStr ''string''),
       (''produits'', JList [JObj [(''name'', JStr ''string''), (''price'', JStr ''number'')]]),
       (''metadata'', JObj [(''date_extraction'', JStr ''string'')])]
      ''2024-01-01T00:00:00''
    = [(''produits'', JList [complete_product, unpriced_product]),
       (''metadata'', JObj [(''date_extraction'', JStr ''2024-01-01T00:00:00Z''),
                            (''nb_resultats'', JInt 2)])]
   \<and> structure_data [complete_product] [(''title'', JStr ''string'')] ''2024-01-01T00:00:00''
    = [(''items'', JList [complete_product])]"
proof -
  let ?sch = "[(''site'', JStr ''string''),
       (''produits'', JList [JObj [(''name'', JStr ''string''), (''price'', JStr ''number'')]]),
       (''metadata'', JObj [(''date_extraction'', JStr ''string'')])]"
  let ?items = "[complete_product, unpriced_product]"
  note main = structure_data_places_items [of ?sch ?items "''2024-01-01T00:00:00''"]
  have split: "?sch = [(''site'', JStr ''string'')]
      @ (''produits'', JList [JObj [(''name'', JStr ''string''), (''price'', JStr ''number'')]])
      # [(''metadata'', JObj [(''date_extraction'', JStr ''string'')])]"
    by simp
  have a: "dict_get (structure_data ?items ?sch ''2024-01-01T00:00:00'') ''produits''
      = Some (JList ?items)"
    using main [THEN conjunct1, rule_format, OF conjI [OF split]] by simp
  have b: "dict_get (structure_data ?items ?sch ''2024-01-01T00:00:00'') ''metadata''
      = Some (JObj [(''date_extraction'', JStr ''2024-01-01T00:00:00Z''),
                    (''nb_resultats'', JInt 2)])"
    using main [THEN conjunct2, THEN conjunct2, THEN conjunct1] by (simp add: dict_contains_def)
  have c: "dict_get (structure_data [complete_product] [(''title'', JStr ''string'')]
        ''2024-01-01T00:00:00'') ''items'' = Some (JList [complete_product])"
    using structure_data_places_items [of "[(''title'', JStr ''string'')]" "[complete_product]"
        "''2024-01-01T00:00:00''", THEN conjunct2, THEN conjunct1]
    by simp
  have direct: "structure_data ?items ?sch ''2024-01-01T00:00:00''
    = [(''produits'', JList ?items),
       (''metadata'', JObj [(''date_extraction'', JStr ''2024-01-01T00:00:00Z''),
                            (''nb_resultats'', JInt 2)])]"
    "structure_data [complete_product] [(''title'', JStr ''string'')] ''2024-01-01T00:00:00''
    = [(''items'', JList [complete_product])]"
    by (simp_all add: structure_data_def dict_contains_def)
  from a b c direct show ?thesis
    by simp
qed

text \<open>
  The claim as stated fails for a schema key whose declared shape is the empty list:
  the key is skipped and the items go under \<open>items\<close>.
\<close>

theorem structure_data_empty_list_counterexample:
  "structure_data [complete_product] [(''produits'', JList [])] ''2024-01-01T00:00:00''
     = [(''items'', JList [complete_product])]
   \<and> dict_get (structure_data [complete_product] [(''produits'', JList [])]
        ''2024-01-01T00:00:00'') ''produits'' = None"
  by (simp add: structure_data_def dict_contains_def dict_get_def)

section \<open>Properties of the request dispatcher\<close>






lemma sample_lines:
  "strip ''not json'' = ''not json''"
  "strip (''  '' @ initialize_line @ [CHR 0x0A]) = initialize_line"
  "strip ('' '' @ [CHR 0x0A]) = []"
  "strip (wide_integer_line @ [CHR 0x0A]) = wide_integer_line"
  "initialize_line \<noteq> ''not json''"
  "''not json'' \<noteq> initialize_line"
  "wide_integer_line \<noteq> ''not json''"
  "''not json'' \<noteq> wide_integer_line"
  "wide_integer_line \<noteq> initialize_line"
  "initialize_line \<noteq> wide_integer_line"
  "initialize_line \<noteq> []"
  "[] \<noteq> initialize_line"
  "wide_integer_line \<noteq> []"
  "[] \<noteq> wide_integer_line"
  by (simp_all add: strip_def py_isspace_def initialize_line_def wide_integer_line_def)



text \<open>
  When the serialiser raises on the response to a malformed line, nothing is written
  and the loop ends with that exception: the line with the integer of thirty digits
  fails validation, its errors echo the integer, and the \<open>initialize\<close> request that
  follows is never answered.
\<close>

theorem serialiser_failure_ends_loop:
  "model_validate_json sample_server (strip (wide_integer_line @ [CHR 0x0A]))
     = Inl (ValidationError wide_integer_errors ''1 validation error for MCPRequest'')
   \<and> to_json sample_server (invalid_request_response wide_integer_errors)
     = Inl (OtherException ''Integer exceeds 64-bit range'')
   \<and> malformed_response sample_server (wide_integer_line @ [CHR 0x0A]) = None
   \<and> serve_forever sample_server
        [wide_integer_line @ [CHR 0x0A], initialize_line @ [CHR 0x0A]] initial_state
     = ([], Some (OtherException ''Integer exceeds 64-bit range''), initial_state)"
proof -
  have parse: "model_validate_json sample_server wide_integer_line
      = Inl (ValidationError wide_integer_errors ''1 validation error for MCPRequest'')"
    by (simp add: sample_lines sample_server_def)
  have serialiser: "dumps sample_server
        [(''id'', JNull),
         (''error'', JObj [(''code'', JStr ''INTERNAL_ERROR''),
                           (''message'', JStr ''Invalid request payload''),
                           (''details'', wide_integer_errors)])]
      = Inl (OtherException ''Integer exceeds 64-bit range'')"
    by (simp add: sample_server_def sample_dumps_def wide_integer_errors_def)
  have raised: "to_json sample_server (invalid_request_response wide_integer_errors)
      = Inl (OtherException ''Integer exceeds 64-bit range'')"
    using serialiser by (simp add: to_json_def to_json_payload_def invalid_request_response_def)
  have unanswered: "malformed_response sample_server (wide_integer_line @ [CHR 0x0A]) = None"
    using parse serialiser by (simp add: malformed_response_def sample_lines)
  have ended: "serve_forever sample_server
        [wide_integer_line @ [CHR 0x0A], initialize_line @ [CHR 0x0A]] initial_state
     = ([], Some (OtherException ''Integer exceeds 64-bit range''), initial_state)"
    using parse raised by (simp add: sample_lines Let_def dispatch_def)
  from parse raised unanswered ended show ?thesis
    by (simp add: sample_lines del: serve_forever.simps)
qed

section \<open>Properties of the extraction orchestrator\<close>

lemma ErrorCode_of_name_code_value [simp]: "ErrorCode_of_name (code_value c) = Some c"
  by (cases c) (simp_all add: ErrorCode_of_name_def)

lemma error_of_envelope_payload:
  "dict_get result ''error'' = Some (JObj (ToolError_to_payload e)) \<Longrightarrow>
   error_of_envelope result = ToolErr \<lparr>code = code e, message = message e, details = None\<rparr>"
  by (simp add: error_of_envelope_def dict_get_default_def ToolError_to_payload_fields)

lemma ErrorCode_of_name_internal [simp]: "ErrorCode_of_name ''INTERNAL_ERROR'' = Some INTERNAL_ERROR"
  by (simp add: ErrorCode_of_name_def)

text \<open>What \<open>_call_tool\<close> returns or raises, by what the capability does.\<close>

lemma call_tool_unknown:
  assumes "map_of (tools (agent_tool_service ag)) name = None"
  shows "call_tool ag name arguments s =
     (Inl (ToolErr \<lparr>code = INTERNAL_ERROR, message = ''Unknown tool: '' @ name, details = None\<rparr>), s)"
  using assms
  by (simp add: call_tool_def call_def dict_get_default_def dict_get_def error_of_envelope_def)

lemma call_tool_tool_error:
  assumes "map_of (tools (agent_tool_service ag)) name = Some tool"
    and "run tool arguments (world s) = (Inl (ToolErr e), w')"
  shows "call_tool ag name arguments s =
     (Inl (ToolErr \<lparr>code = code e, message = message e, details = None\<rparr>),
      \<lparr>world = w', trace = trace s @ [ToolRun name]\<rparr>)"
proof -
  obtain result s1 where called: "call (agent_tool_service ag) name arguments s = (result, s1)"
    by (cases "call (agent_tool_service ag) name arguments s") auto
  have env: "dict_get result ''ok'' = Some (JBool False)"
    "dict_get result ''error'' = Some (JObj (ToolError_to_payload e))"
    "s1 = \<lparr>world = w', trace = trace s @ [ToolRun name]\<rparr>"
    using called unfolding call_tool_error [OF assms]
    by (auto simp: Let_def dict_get_def split: option.splits)
  show ?thesis
    using env error_of_envelope_payload [OF env(2)] called
    by (simp add: call_tool_def dict_get_default_def)
qed

lemma call_tool_unexpected:
  assumes "map_of (tools (agent_tool_service ag)) name = Some tool"
    and "run tool arguments (world s) = (Inl exc, w')"
    and "\<not> isinstance_ToolError exc"
  shows "call_tool ag name arguments s =
     (Inl (ToolErr \<lparr>code = INTERNAL_ERROR,
                    message = (if py_str exc \<noteq> [] then py_str exc else ''Internal error''),
                    details = None\<rparr>),
      \<lparr>world = w', trace = trace s @ [ToolRun name]\<rparr>)"
proof -
  have shape: "to_error_payload exc =
      [(''code'', JStr (code_value INTERNAL_ERROR)),
       (''message'', JStr (if py_str exc \<noteq> [] then py_str exc else ''Internal error''))]"
    using assms(3) by (cases exc) simp_all
  show ?thesis
    unfolding call_tool_def call_unexpected [OF assms] shape
    by (simp add: dict_get_default_def dict_get_def error_of_envelope_def)
qed

lemma call_tool_success:
  assumes "map_of (tools (agent_tool_service ag)) name = Some tool"
    and "run tool arguments (world s) = (Inr (session_id, payload), w')"
  shows "call_tool ag name arguments s =
     (Inr (JStr session_id, JObj payload), \<lparr>world = w', trace = trace s @ [ToolRun name]\<rparr>)"
  unfolding call_tool_def call_success [OF assms]
  by (simp add: dict_get_default_def dict_get_def)

lemma call_tool_outcome:
  assumes "call_tool ag name arguments s = (r, s')"
  shows "(\<exists>e. r = Inl (ToolErr e) \<and> (trace s' = trace s \<or> trace s' = trace s @ [ToolRun name]))
       \<or> (\<exists>v. r = Inr v \<and> trace s' = trace s @ [ToolRun name])"
proof (cases "map_of (tools (agent_tool_service ag)) name")
  case None
  then show ?thesis
    using assms call_tool_unknown [OF None, of arguments s] by auto
next
  case (Some tool)
  obtain res w' where ran: "run tool arguments (world s) = (res, w')"
    by (cases "run tool arguments (world s)") auto
  show ?thesis
  proof (cases res)
    case (Inl exc)
    show ?thesis
    proof (cases "isinstance_ToolError exc")
      case True
      then obtain e where "exc = ToolErr e" by (cases exc) auto
      then show ?thesis
        using assms call_tool_tool_error [OF Some, of arguments s e w'] ran Inl by auto
    next
      case False
      then show ?thesis
        using assms call_tool_unexpected [OF Some _ False, of arguments s w'] ran Inl by auto
    qed
  next
    case (Inr p)
    obtain sid payload where "p = (sid, payload)" by (cases p) auto
    then show ?thesis
      using assms call_tool_success [OF Some, of arguments s sid payload w'] ran Inr by auto
  qed
qed

lemma page_reads_simps [simp]:
  "page_reads [] = 0"
  "page_reads (e # es) = (if is_page_read e then 1 else 0) + page_reads es"
  "page_reads (es @ fs) = page_reads es + page_reads fs"
  by (simp_all add: page_reads_def)

lemma extraction_passes_simps [simp]:
  "extraction_passes [] = 0"
  "extraction_passes (e # es) = (if is_extraction_pass e then 1 else 0) + extraction_passes es"
  "extraction_passes (es @ fs) = extraction_passes es + extraction_passes fs"
  by (simp_all add: extraction_passes_def)

lemma call_tool_trace:
  assumes "call_tool ag name arguments s = (r, s')"
  shows "\<exists>es. trace s' = trace s @ es \<and> extraction_passes es = 0
     \<and> page_reads es \<le> (if name = ''get_html'' then 1 else 0)
     \<and> (\<forall>v. r = Inr v \<longrightarrow> page_reads es = (if name = ''get_html'' then 1 else 0))"
  using call_tool_outcome [OF assms]
proof (elim disjE exE conjE)
  fix e
  assume "r = Inl (ToolErr e)" "trace s' = trace s"
  then show ?thesis by (intro exI [of _ "[]"]) simp
next
  fix e
  assume "r = Inl (ToolErr e)" "trace s' = trace s @ [ToolRun name]"
  then show ?thesis by (intro exI [of _ "[ToolRun name]"]) simp
next
  fix v
  assume "r = Inr v" "trace s' = trace s @ [ToolRun name]"
  then show ?thesis by (intro exI [of _ "[ToolRun name]"]) simp
qed

lemma complete_trace:
  assumes "complete ag request s = (r, s')"
  shows "trace s' = trace s @ [Completion request]"
  using assms by (auto simp: complete_def split: prod.splits)

lemma extract_with_llm_trace:
  assumes "extract_with_llm ag html_content sch s = (r, s')"
  shows "\<exists>es. trace s' = trace s @ es \<and> page_reads es = 0 \<and> extraction_passes es \<le> 1
     \<and> (\<forall>v. r = Inr v \<longrightarrow> extraction_passes es = 1)"
proof (cases "py_len html_content")
  case (Inl exc)
  then show ?thesis using assms by (auto simp: extract_with_llm_def)
next
  case (Inr n)
  show ?thesis
  proof (cases "if 50000 < n then py_prefix 50000 html_content else Inr html_content")
    case (Inl exc)
    then show ?thesis using assms Inr by (auto simp: extract_with_llm_def)
  next
    case snippet: (Inr html_snippet)
    obtain c s1 where asked: "complete ag (ExtractionPrompt html_snippet sch) s = (c, s1)"
      by (cases "complete ag (ExtractionPrompt html_snippet sch) s") auto
    have tr: "trace s1 = trace s @ [Completion (ExtractionPrompt html_snippet sch)]"
      using complete_trace [OF asked] .
    have "s' = s1"
      using assms Inr snippet asked
      by (auto simp: extract_with_llm_def split: sum.splits option.splits)
    then show ?thesis
      using tr by (intro exI [of _ "[Completion (ExtractionPrompt html_snippet sch)]"]) simp
  qed
qed

lemma navigate_to_next_page_trace:
  assumes "navigate_to_next_page ag session_id html_content s = (r, s')"
  shows "\<exists>es. trace s' = trace s @ es \<and> page_reads es = 0 \<and> extraction_passes es = 0"
proof (cases "py_prefix 30000 html_content")
  case (Inl exc)
  then show ?thesis using assms by (auto simp: navigate_to_next_page_def)
next
  case (Inr html_prefix)
  obtain c s1 where asked: "complete ag (NextPagePrompt html_prefix) s = (c, s1)"
    by (cases "complete ag (NextPagePrompt html_prefix) s") auto
  have tr: "trace s1 = trace s @ [Completion (NextPagePrompt html_prefix)]"
    using complete_trace [OF asked] .
  show ?thesis
  proof (cases c)
    case (Inl exc)
    then have "s' = s1" using assms Inr asked by (auto simp: navigate_to_next_page_def)
    then show ?thesis using tr by (intro exI [of _ "[Completion (NextPagePrompt html_prefix)]"]) simp
  next
    case content: (Inr content_opt)
    show ?thesis
    proof (cases content_opt)
      case None
      then have "s' = s1" using assms Inr asked content by (auto simp: navigate_to_next_page_def)
      then show ?thesis using tr by (intro exI [of _ "[Completion (NextPagePrompt html_prefix)]"]) simp
    next
      case (Some content)
      show ?thesis
      proof (cases "clean_selector content = ''NO_PAGINATION'' \<or> clean_selector content = []")
        case True
        then have "s' = s1"
          using assms Inr asked \<open>c = Inr content_opt\<close> Some
          by (auto simp: navigate_to_next_page_def Let_def)
        then show ?thesis
          using tr by (intro exI [of _ "[Completion (NextPagePrompt html_prefix)]"]) simp
      next
        case False
        obtain cr s2 where click: "call_tool ag ''click''
            [(''session_id'', session_id), (''selector'', JStr (clean_selector content))] s1 = (cr, s2)"
          by (cases "call_tool ag ''click''
            [(''session_id'', session_id), (''selector'', JStr (clean_selector content))] s1") auto
        obtain es where es: "trace s2 = trace s1 @ es" "extraction_passes es = 0" "page_reads es = 0"
          using call_tool_trace [OF click] by auto
        have "s' = s2"
          using assms Inr asked \<open>c = Inr content_opt\<close> Some False click
          by (auto simp: navigate_to_next_page_def Let_def split: sum.splits exn.splits)
        then show ?thesis
          using tr es
          by (intro exI [of _ "[Completion (NextPagePrompt html_prefix)] @ es"]) simp
      qed
    qed
  qed
qed

lemma extract_page_trace:
  assumes "extract_page ag config session_id page_count acc s = (r, s')"
  shows "\<exists>es. trace s' = trace s @ es \<and> page_reads es \<le> 1
     \<and> extraction_passes es \<le> page_reads es
     \<and> (\<forall>v. r = Inr v \<longrightarrow> page_reads es = 1 \<and> extraction_passes es = 1)"
proof -
  obtain gr s1 where got: "call_tool ag ''get_html'' [(''session_id'', session_id)] s = (gr, s1)"
    by (cases "call_tool ag ''get_html'' [(''session_id'', session_id)] s") auto
  obtain es1 where es1: "trace s1 = trace s @ es1" "extraction_passes es1 = 0" "page_reads es1 \<le> 1"
    "\<forall>v. gr = Inr v \<longrightarrow> page_reads es1 = 1"
    using call_tool_trace [OF got] by auto
  show ?thesis
  proof (cases gr)
    case (Inl exc)
    then have "s' = s1" "r = Inl exc"
      using assms got by (auto simp: extract_page_def)
    then show ?thesis using es1 by (intro exI [of _ es1]) simp
  next
    case (Inr p)
    obtain sid html_data where p: "p = (sid, html_data)" by (cases p) auto
    have reads1: "page_reads es1 = 1" using es1(4) Inr by simp
    show ?thesis
    proof (cases "py_getitem html_data ''html''")
      case (Inl exc)
      then have "s' = s1" "r = Inl exc"
        using assms got Inr p by (auto simp: extract_page_def)
      then show ?thesis using es1 by (intro exI [of _ es1]) simp
    next
      case html: (Inr html_content)
      obtain xr s2 where ext: "extract_with_llm ag html_content (schema config) s1 = (xr, s2)"
        by (cases "extract_with_llm ag html_content (schema config) s1") auto
      obtain es2 where es2: "trace s2 = trace s1 @ es2" "page_reads es2 = 0"
        "extraction_passes es2 \<le> 1" "\<forall>v. xr = Inr v \<longrightarrow> extraction_passes es2 = 1"
        using extract_with_llm_trace [OF ext] by auto
      have upto2: "trace s2 = trace s @ (es1 @ es2)" "page_reads (es1 @ es2) = 1"
        "extraction_passes (es1 @ es2) \<le> 1"
        using es1 es2 reads1 by simp_all
      show ?thesis
      proof (cases xr)
        case (Inl exc)
        then have "s' = s2" "r = Inl exc"
          using assms got Inr p html ext by (auto simp: extract_page_def)
        then show ?thesis using upto2 by (intro exI [of _ "es1 @ es2"]) simp
      next
        case page: (Inr page_data)
        have passes2: "extraction_passes (es1 @ es2) = 1"
          using es1 es2 page by simp
        define extension where "extension =
          (if truthy page_data
           then (case py_iter page_data of Inl exc \<Rightarrow> Inl exc | Inr xs \<Rightarrow> Inr (acc @ xs))
           else Inr acc)"
        show ?thesis
        proof (cases extension)
          case (Inl exc)
          then have "s' = s2" "r = Inl exc"
            using assms got \<open>gr = Inr p\<close> p html ext page
            by (auto simp: extract_page_def extension_def)
          then show ?thesis using upto2 by (intro exI [of _ "es1 @ es2"]) simp
        next
          case extended: (Inr extended)
          have stay: "?thesis" if "s' = s2"
            using that upto2 passes2 by (intro exI [of _ "es1 @ es2"]) simp
          show ?thesis
          proof (cases "truthy (dict_get_default (options config) ''pagination'' (JBool False))")
            case False
            then have "s' = s2"
              using assms got \<open>gr = Inr p\<close> p html ext page extended
              by (auto simp: extract_page_def extension_def [symmetric] Let_def)
            then show ?thesis by (rule stay)
          next
            case True
            show ?thesis
            proof (cases "py_int_lt page_count (dict_get_default (options config) ''max_pages'' (JInt 1))")
              case (Inl exc)
              then have "s' = s2"
                using assms got \<open>gr = Inr p\<close> p html ext page extended True
                by (auto simp: extract_page_def extension_def [symmetric] Let_def)
              then show ?thesis by (rule stay)
            next
              case more: (Inr more)
              show ?thesis
              proof (cases more)
                case False
                then have "s' = s2"
                  using assms got \<open>gr = Inr p\<close> p html ext page extended True more
                  by (auto simp: extract_page_def extension_def [symmetric] Let_def)
                then show ?thesis by (rule stay)
              next
                case go: True
                obtain nr s3 where nav: "navigate_to_next_page ag session_id html_content s2 = (nr, s3)"
                  by (cases "navigate_to_next_page ag session_id html_content s2") auto
                obtain es3 where es3: "trace s3 = trace s2 @ es3" "page_reads es3 = 0"
                  "extraction_passes es3 = 0"
                  using navigate_to_next_page_trace [OF nav] by auto
                have "s' = s3"
                  using assms got \<open>gr = Inr p\<close> p html ext page extended True more go nav
                  by (auto simp: extract_page_def extension_def [symmetric] Let_def split: sum.splits)
                then show ?thesis
                  using upto2 passes2 es3 by (intro exI [of _ "es1 @ es2 @ es3"]) simp
              qed
            qed
          qed
        qed
      qed
    qed
  qed
qed

declare extraction_loop.simps [simp del]

lemma extraction_loop_trace:
  assumes "extraction_loop ag config session_id page_count acc s = (r, s')"
  shows "\<exists>es. trace s' = trace s @ es
     \<and> page_reads es \<le> page_bound (max_pages_of config) - page_count
     \<and> extraction_passes es \<le> page_reads es
     \<and> (\<forall>v. r = Inr v \<longrightarrow> extraction_passes es = page_reads es)
     \<and> (\<forall>v. r = Inr v \<and> \<not> truthy (pagination_of config)
            \<and> py_int_lt page_count (max_pages_of config) = Inr True \<longrightarrow> page_reads es = 1)"
  using assms
proof (induction k \<equiv> "page_bound (max_pages_of config) - page_count"
    arbitrary: page_count acc s rule: less_induct)
  case less
  note loop = less.prems [unfolded extraction_loop.simps [of ag config session_id page_count acc s],
      folded max_pages_of_def]
  show ?case
  proof (cases "py_int_lt page_count (max_pages_of config)")
    case (Inl exc)
    then have "s' = s" "r = Inl exc"
      using loop by auto
    then show ?thesis by (intro exI [of _ "[]"]) simp
  next
    case (Inr more)
    show ?thesis
    proof (cases more)
      case False
      then have "s' = s"
        using loop Inr by auto
      then show ?thesis using Inr False by (intro exI [of _ "[]"]) simp
    next
      case True
      have lt: "page_count < page_bound (max_pages_of config)"
        using py_int_lt_bound [of page_count "max_pages_of config"] Inr True by simp
      obtain pr s1 where page: "extract_page ag config session_id (page_count + 1) acc s = (pr, s1)"
        by (cases "extract_page ag config session_id (page_count + 1) acc s") auto
      obtain es1 where es1: "trace s1 = trace s @ es1" "page_reads es1 \<le> 1"
        "extraction_passes es1 \<le> page_reads es1"
        "\<forall>v. pr = Inr v \<longrightarrow> page_reads es1 = 1 \<and> extraction_passes es1 = 1"
        using extract_page_trace [OF page] by auto
      show ?thesis
      proof (cases pr)
        case (Inl exc)
        then have "s' = s1" "r = Inl exc"
          using loop Inr True page by auto
        then show ?thesis using es1 lt by (intro exI [of _ es1]) simp
      next
        case ok: (Inr p)
        obtain extended has_next where p: "p = (extended, has_next)" by (cases p) auto
        have one: "page_reads es1 = 1" "extraction_passes es1 = 1"
          using es1(4) ok by simp_all
        show ?thesis
        proof (cases has_next)
          case False
          then have "s' = s1"
            using loop Inr True page ok p by auto
          then show ?thesis using es1 one lt by (intro exI [of _ es1]) simp
        next
          case next_page: True
          have rec: "extraction_loop ag config session_id (page_count + 1) extended s1 = (r, s')"
            using loop Inr True page ok p next_page by auto
          have paginated: "truthy (pagination_of config)"
          proof (rule ccontr)
            assume "\<not> truthy (pagination_of config)"
            then have "snd (projr (fst (extract_page ag config session_id (page_count + 1) acc s))) = False"
              using page ok
              by (auto simp: extract_page_def pagination_of_def Let_def
                  split: prod.splits sum.splits)
            then show False using page ok p next_page by simp
          qed
          have smaller: "page_bound (max_pages_of config) - (page_count + 1)
              < page_bound (max_pages_of config) - page_count"
            using lt by simp
          obtain es2 where es2: "trace s' = trace s1 @ es2"
            "page_reads es2 \<le> page_bound (max_pages_of config) - (page_count + 1)"
            "extraction_passes es2 \<le> page_reads es2"
            "\<forall>v. r = Inr v \<longrightarrow> extraction_passes es2 = page_reads es2"
            using less.hyps [OF smaller rec] by auto
          show ?thesis
            using es1 one es2 lt paginated
            by (intro exI [of _ "es1 @ es2"]) auto
        qed
      qed
    qed
  qed
qed

lemma execute_interactions_trace:
  assumes "execute_interactions ag session_id todo s = (r, s')"
  shows "\<exists>es. trace s' = trace s @ es \<and> page_reads es = 0 \<and> extraction_passes es = 0"
  using assms
proof (induction todo arbitrary: s)
  case Nil
  then show ?case by (intro exI [of _ "[]"]) simp
next
  case (Cons interaction rest)
  define kind where "kind = dict_get interaction ''type''"
  note run = Cons.prems [unfolded execute_interactions.simps Let_def, folded kind_def]
  have via_tool: ?case
    if called: "call_tool ag name arguments s = (cr, s1)"
      and rest_or_stop: "(execute_interactions ag session_id rest s1 = (r, s')) \<or> s' = s1"
      and name: "name \<noteq> ''get_html''"
    for name arguments cr s1
  proof -
    obtain es1 where es1: "trace s1 = trace s @ es1" "extraction_passes es1 = 0" "page_reads es1 = 0"
      using call_tool_trace [OF called] name by auto
    show ?thesis
      using rest_or_stop
    proof
      assume "execute_interactions ag session_id rest s1 = (r, s')"
      then obtain es2 where "trace s' = trace s1 @ es2" "page_reads es2 = 0" "extraction_passes es2 = 0"
        using Cons.IH by blast
      then show ?thesis using es1 by (intro exI [of _ "es1 @ es2"]) simp
    next
      assume "s' = s1"
      then show ?thesis using es1 by (intro exI [of _ es1]) simp
    qed
  qed
  consider (click) "kind = Some (JStr ''click'')"
    | (wait) "kind \<noteq> Some (JStr ''click'')" "kind = Some (JStr ''wait'')"
    | (fill) "kind \<noteq> Some (JStr ''click'')" "kind \<noteq> Some (JStr ''wait'')"
        "kind \<noteq> Some (JStr ''scroll'')" "kind = Some (JStr ''fill'')"
    | (skip) "kind \<noteq> Some (JStr ''click'')" "kind \<noteq> Some (JStr ''wait'')"
        "kind = Some (JStr ''scroll'') \<or> kind \<noteq> Some (JStr ''fill'')"
    by blast
  then show ?case
  proof cases
    case click
    obtain cr s1 where called: "call_tool ag ''click''
        [(''session_id'', session_id),
         (''selector'', dict_get_default interaction ''selector'' JNull)] s = (cr, s1)"
      by (cases "call_tool ag ''click''
        [(''session_id'', session_id),
         (''selector'', dict_get_default interaction ''selector'' JNull)] s") auto
    have "(execute_interactions ag session_id rest s1 = (r, s')) \<or> s' = s1"
      using run click called by (auto split: sum.splits if_splits)
    then show ?thesis
      using via_tool [OF called] by simp
  next
    case wait
    obtain sr w' where slept:
      "sleep_ms ag (dict_get_default interaction ''duration'' (JInt 1000)) (world s) = (sr, w')"
      by (cases "sleep_ms ag (dict_get_default interaction ''duration'' (JInt 1000)) (world s)") auto
    have "(execute_interactions ag session_id rest (s\<lparr>world := w'\<rparr>) = (r, s')) \<or> s' = s\<lparr>world := w'\<rparr>"
      using run wait slept by (auto split: sum.splits)
    then show ?thesis
    proof
      assume "execute_interactions ag session_id rest (s\<lparr>world := w'\<rparr>) = (r, s')"
      then obtain es where "trace s' = trace (s\<lparr>world := w'\<rparr>) @ es" "page_reads es = 0"
        "extraction_passes es = 0"
        using Cons.IH by blast
      then show ?thesis by (intro exI [of _ es]) simp
    next
      assume "s' = s\<lparr>world := w'\<rparr>"
      then show ?thesis by (intro exI [of _ "[]"]) simp
    qed
  next
    case fill
    obtain cr s1 where called: "call_tool ag ''fill''
        [(''session_id'', session_id),
         (''selector'', dict_get_default interaction ''selector'' JNull),
         (''value'', dict_get_default interaction ''value'' JNull)] s = (cr, s1)"
      by (cases "call_tool ag ''fill''
        [(''session_id'', session_id),
         (''selector'', dict_get_default interaction ''selector'' JNull),
         (''value'', dict_get_default interaction ''value'' JNull)] s") auto
    have "(execute_interactions ag session_id rest s1 = (r, s')) \<or> s' = s1"
      using run fill called by (auto split: sum.splits if_splits)
    then show ?thesis
      using via_tool [OF called] by simp
  next
    case skip
    then have "execute_interactions ag session_id rest s = (r, s')"
      using run by (auto split: if_splits)
    then show ?thesis using Cons.IH by blast
  qed
qed

lemma scrape_steps_trace:
  assumes "scrape_steps ag config s = (r, s')"
  shows "\<exists>es. trace s' = trace s @ es
     \<and> page_reads es \<le> page_bound (max_pages_of config)
     \<and> extraction_passes es \<le> page_reads es
     \<and> (\<forall>v. r = Inr v \<longrightarrow> extraction_passes es = page_reads es)
     \<and> (\<forall>v. r = Inr v \<and> \<not> truthy (pagination_of config)
            \<and> py_int_lt 0 (max_pages_of config) = Inr True \<longrightarrow> page_reads es = 1)"
proof -
  obtain nr s1 where nav: "navigate ag (url config) s = (nr, s1)"
    by (cases "navigate ag (url config) s") auto
  obtain es1 where es1: "trace s1 = trace s @ es1" "extraction_passes es1 = 0" "page_reads es1 = 0"
    using call_tool_trace [OF nav [unfolded navigate_def]] by auto
  show ?thesis
  proof (cases nr)
    case (Inl exc)
    then have "s' = s1" "r = Inl exc"
      using assms nav by (auto simp: scrape_steps_def)
    then show ?thesis using es1 by (intro exI [of _ es1]) simp
  next
    case (Inr p)
    obtain session_id nav_data where p: "p = (session_id, nav_data)" by (cases p) auto
    obtain ir s2 where inter: "(if interactions config \<noteq> []
        then execute_interactions ag session_id (interactions config) s1
        else (Inr (), s1)) = (ir, s2)"
      by (cases "if interactions config \<noteq> []
        then execute_interactions ag session_id (interactions config) s1
        else (Inr (), s1)") auto
    obtain es2 where es2: "trace s2 = trace s1 @ es2" "page_reads es2 = 0" "extraction_passes es2 = 0"
    proof (cases "interactions config \<noteq> []")
      case True
      then show ?thesis
        using inter execute_interactions_trace [of ag session_id "interactions config" s1 ir s2] that
        by auto
    next
      case False
      then have "trace s2 = trace s1 @ []" using inter by auto
      then show ?thesis using that [of "[]"] by simp
    qed
    show ?thesis
    proof (cases ir)
      case (Inl exc)
      then have "s' = s2" "r = Inl exc"
        using assms nav Inr p inter by (auto simp: scrape_steps_def)
      then show ?thesis using es1 es2 by (intro exI [of _ "es1 @ es2"]) simp
    next
      case ok: (Inr u)
      obtain lr s3 where loop: "extraction_loop ag config session_id 0 [] s2 = (lr, s3)"
        by (cases "extraction_loop ag config session_id 0 [] s2") auto
      obtain es3 where es3: "trace s3 = trace s2 @ es3"
        "page_reads es3 \<le> page_bound (max_pages_of config) - 0"
        "extraction_passes es3 \<le> page_reads es3"
        "\<forall>v. lr = Inr v \<longrightarrow> extraction_passes es3 = page_reads es3"
        "\<forall>v. lr = Inr v \<and> \<not> truthy (pagination_of config)
            \<and> py_int_lt 0 (max_pages_of config) = Inr True \<longrightarrow> page_reads es3 = 1"
        using extraction_loop_trace [OF loop] by auto
      have final: "s' = s3" "(\<exists>v. r = Inr v) \<longrightarrow> (\<exists>v. lr = Inr v)"
        using assms nav \<open>nr = Inr p\<close> p inter ok loop
        by (auto simp: scrape_steps_def Let_def split: sum.splits)
      show ?thesis
        using es1 es2 es3 final
        by (intro exI [of _ "es1 @ es2 @ es3"]) auto
    qed
  qed
qed

text \<open>The events a run has added to the trace.\<close>

lemma new_events_append: "trace s' = trace s @ es \<Longrightarrow> new_events s s' = es"
  by (simp add: new_events_def)

text \<open>
  C3. A job reads the page markup at most \<open>max_pages\<close> times and runs at most as many
  extraction passes as it has read pages; a job that succeeds has run exactly one
  extraction pass per page read; and a job that succeeds with pagination disabled and
  a positive \<open>max_pages\<close> has read exactly one page and run exactly one extraction
  pass.
\<close>

theorem page_budget:
  assumes "scrape ag config s = (res, s')"
  shows "page_reads (new_events s s') \<le> page_bound (max_pages_of config)
       \<and> extraction_passes (new_events s s') \<le> page_reads (new_events s s')
       \<and> (\<forall>n. max_pages_of config = JInt n \<and> 0 \<le> n \<longrightarrow> int (page_reads (new_events s s')) \<le> n)
       \<and> (status res = ''success'' \<longrightarrow>
            extraction_passes (new_events s s') = page_reads (new_events s s'))
       \<and> (status res = ''success'' \<and> \<not> truthy (pagination_of config)
            \<and> py_int_lt 0 (max_pages_of config) = Inr True \<longrightarrow>
            page_reads (new_events s s') = 1 \<and> extraction_passes (new_events s s') = 1)"
proof -
  obtain r where steps: "scrape_steps ag config s = (r, s')"
    and ok: "status res = ''success'' \<longrightarrow> (\<exists>v. r = Inr v)"
    using assms by (auto simp: scrape_def split: prod.splits sum.splits)
  obtain es where es: "trace s' = trace s @ es"
    "page_reads es \<le> page_bound (max_pages_of config)"
    "extraction_passes es \<le> page_reads es"
    "\<forall>v. r = Inr v \<longrightarrow> extraction_passes es = page_reads es"
    "\<forall>v. r = Inr v \<and> \<not> truthy (pagination_of config)
        \<and> py_int_lt 0 (max_pages_of config) = Inr True \<longrightarrow> page_reads es = 1"
    using scrape_steps_trace [OF steps] by auto
  have new: "new_events s s' = es"
    using es(1) by (rule new_events_append)
  have int_bound: "\<forall>n. max_pages_of config = JInt n \<and> 0 \<le> n \<longrightarrow> int (page_reads es) \<le> n"
    using es(2) by auto
  show ?thesis
    unfolding new using es(2,3,4,5) int_bound ok by auto
qed

lemma scripted_registered:
  "name \<in> set [''navigate'', ''screenshot'', ''extract_links'', ''fill'', ''click'', ''get_html''] \<Longrightarrow>
   map_of (tools (agent_tool_service (scripted_agent loads))) name
     = Some \<lparr>tool_name = name, tool_description = [], tool_schema = [], run = scripted_run\<rparr>"
  by (auto simp: scripted_agent_def scripted_service_def scripted_tool_def)

lemma scripted_call_tool_success:
  assumes "name \<in> set [''navigate'', ''screenshot'', ''extract_links'', ''fill'', ''click'', ''get_html'']"
  shows "call_tool (scripted_agent loads) name arguments
       \<lparr>world = ToolResponse (Inr (session_id, payload)) # rest, trace = tr\<rparr>
     = (Inr (JStr session_id, JObj payload), \<lparr>world = rest, trace = tr @ [ToolRun name]\<rparr>)"
  using call_tool_success [OF scripted_registered [OF assms], of arguments
      "\<lparr>world = ToolResponse (Inr (session_id, payload)) # rest, trace = tr\<rparr>" session_id payload rest loads]
  by simp

lemma scripted_call_tool_tool_error:
  assumes "name \<in> set [''navigate'', ''screenshot'', ''extract_links'', ''fill'', ''click'', ''get_html'']"
  shows "call_tool (scripted_agent loads) name arguments
       \<lparr>world = ToolResponse (Inl (ToolErr e)) # rest, trace = tr\<rparr>
     = (Inl (ToolErr \<lparr>code = code e, message = message e, details = None\<rparr>),
        \<lparr>world = rest, trace = tr @ [ToolRun name]\<rparr>)"
  using call_tool_tool_error [OF scripted_registered [OF assms], of arguments
      "\<lparr>world = ToolResponse (Inl (ToolErr e)) # rest, trace = tr\<rparr>" e rest loads]
  by simp

lemma scripted_complete:
  "complete (scripted_agent loads) request \<lparr>world = CompletionResponse r # rest, trace = tr\<rparr>
     = (r, \<lparr>world = rest, trace = tr @ [Completion request]\<rparr>)"
  by (simp add: complete_def scripted_agent_def)

text \<open>The markup sent for extraction: the page, cut to its first 50000 characters.\<close>

lemma scripted_extract_with_llm:
  assumes "parse_llm_response (scripted_agent loads) text = Inr items"
  shows "extract_with_llm (scripted_agent loads) (JStr html) sch
       \<lparr>world = CompletionResponse (Inr (Some text)) # rest, trace = tr\<rparr>
     = (Inr items, \<lparr>world = rest, trace = tr @ [Completion (ExtractionPrompt (JStr (take 50000 html)) sch)]\<rparr>)"
  using assms by (simp add: extract_with_llm_def scripted_complete)

lemma scripted_next_page_sentinel:
  assumes "clean_selector text = ''NO_PAGINATION'' \<or> clean_selector text = []"
  shows "navigate_to_next_page (scripted_agent loads) session_id (JStr html)
       \<lparr>world = CompletionResponse (Inr (Some text)) # rest, trace = tr\<rparr>
     = (Inr False, \<lparr>world = rest, trace = tr @ [Completion (NextPagePrompt (JStr (take 30000 html)))]\<rparr>)"
  using assms by (auto simp: navigate_to_next_page_def scripted_complete Let_def)

lemma scripted_next_page_click:
  assumes "clean_selector text \<noteq> ''NO_PAGINATION''" "clean_selector text \<noteq> []"
  shows "navigate_to_next_page (scripted_agent loads) session_id (JStr html)
       \<lparr>world = CompletionResponse (Inr (Some text)) # ToolResponse (Inr (sid, payload)) # rest,
        trace = tr\<rparr>
     = (Inr True, \<lparr>world = rest,
          trace = tr @ [Completion (NextPagePrompt (JStr (take 30000 html))), ToolRun ''click'']\<rparr>)"
  using assms
  by (simp add: navigate_to_next_page_def scripted_complete Let_def scripted_call_tool_success)

lemma scripted_page_last:
  assumes "parse_llm_response (scripted_agent loads) text = Inr (JList items)"
    and "\<not> truthy (pagination_of config) \<or> py_int_lt page_count (max_pages_of config) = Inr False"
  shows "extract_page (scripted_agent loads) config session_id page_count acc
       \<lparr>world = ToolResponse (Inr (sid, [(''html'', JStr html)]))
          # CompletionResponse (Inr (Some text)) # rest, trace = tr\<rparr>
     = (Inr (acc @ items, False),
        \<lparr>world = rest,
         trace = tr @ [ToolRun ''get_html'',
                       Completion (ExtractionPrompt (JStr (take 50000 html)) (schema config))]\<rparr>)"
  using assms
  by (auto simp: extract_page_def Let_def scripted_call_tool_success dict_get_def
      scripted_extract_with_llm pagination_of_def max_pages_of_def)

lemma scripted_page_sentinel:
  assumes "parse_llm_response (scripted_agent loads) text = Inr (JList items)"
    and "truthy (pagination_of config)" "py_int_lt page_count (max_pages_of config) = Inr True"
    and "clean_selector probe = ''NO_PAGINATION'' \<or> clean_selector probe = []"
  shows "extract_page (scripted_agent loads) config session_id page_count acc
       \<lparr>world = ToolResponse (Inr (sid, [(''html'', JStr html)]))
          # CompletionResponse (Inr (Some text))
          # CompletionResponse (Inr (Some probe)) # rest, trace = tr\<rparr>
     = (Inr (acc @ items, False),
        \<lparr>world = rest,
         trace = tr @ [ToolRun ''get_html'',
                       Completion (ExtractionPrompt (JStr (take 50000 html)) (schema config)),
                       Completion (NextPagePrompt (JStr (take 30000 html)))]\<rparr>)"
  using assms(2,3)
  by (auto simp: extract_page_def Let_def scripted_call_tool_success dict_get_def
      scripted_extract_with_llm [OF assms(1)] scripted_next_page_sentinel [OF assms(4)]
      pagination_of_def max_pages_of_def)

lemma scripted_page_next:
  assumes "parse_llm_response (scripted_agent loads) text = Inr (JList items)"
    and "truthy (pagination_of config)" "py_int_lt page_count (max_pages_of config) = Inr True"
    and "clean_selector probe \<noteq> ''NO_PAGINATION''" "clean_selector probe \<noteq> []"
  shows "extract_page (scripted_agent loads) config session_id page_count acc
       \<lparr>world = ToolResponse (Inr (sid, [(''html'', JStr html)]))
          # CompletionResponse (Inr (Some text))
          # CompletionResponse (Inr (Some probe))
          # ToolResponse (Inr (sid', payload)) # rest, trace = tr\<rparr>
     = (Inr (acc @ items, True),
        \<lparr>world = rest,
         trace = tr @ [ToolRun ''get_html'',
                       Completion (ExtractionPrompt (JStr (take 50000 html)) (schema config)),
                       Completion (NextPagePrompt (JStr (take 30000 html))),
                       ToolRun ''click'']\<rparr>)"
  using assms(2,3)
  by (auto simp: extract_page_def Let_def scripted_call_tool_success dict_get_def
      scripted_extract_with_llm [OF assms(1)] scripted_next_page_click [OF assms(4,5)]
      pagination_of_def max_pages_of_def)


lemma scrape_success:
  assumes "scrape_steps ag config s = (Inr (structured, report), s1)"
  shows "scrape ag config s =
     (\<lparr>status = ''success'', data = structured, quality_report = report, error = None\<rparr>, s1)"
  using assms by (simp add: scrape_def)



lemma scrape_steps_loop_success:
  assumes "navigate ag (url config) s = (Inr (session_id, nav_data), s1)"
    and "(if interactions config \<noteq> []
          then execute_interactions ag session_id (interactions config) s1
          else (Inr (), s1)) = (Inr u, s2)"
    and "extraction_loop ag config session_id 0 [] s2 = (Inr items, s3)"
  shows "scrape_steps ag config s =
     (Inr (structure_data items (schema config) (utcnow_isoformat ag (world s3)),
           generate_quality_report
             (structure_data items (schema config) (utcnow_isoformat ag (world s3)))
             (schema config)), s3)"
  using assms by (simp add: scrape_steps_def Let_def)


lemma extraction_loop_page_last:
  assumes "py_int_lt page_count (max_pages_of config) = Inr True"
    and "extract_page ag config session_id (page_count + 1) acc s = (Inr (extended, False), s1)"
  shows "extraction_loop ag config session_id page_count acc s = (Inr extended, s1)"
  using assms
  by (simp add: extraction_loop.simps [of ag config session_id page_count acc s] max_pages_of_def)

lemma extraction_loop_page_next:
  assumes "py_int_lt page_count (max_pages_of config) = Inr True"
    and "extract_page ag config session_id (page_count + 1) acc s = (Inr (extended, True), s1)"
  shows "extraction_loop ag config session_id page_count acc s
     = extraction_loop ag config session_id (page_count + 1) extended s1"
  using assms
  by (simp add: extraction_loop.simps [of ag config session_id page_count acc s] max_pages_of_def)



lemma scripted_navigate:
  "navigate (scripted_agent loads) u \<lparr>world = ToolResponse (Inr (session_id, payload)) # rest, trace = tr\<rparr>
     = (Inr (JStr session_id, JObj payload), \<lparr>world = rest, trace = tr @ [ToolRun ''navigate'']\<rparr>)"
  by (simp add: navigate_def scripted_call_tool_success)

text \<open>
  The scenario of two pages, for any markup, any completion texts and any
  \<open>json.loads\<close>: the job succeeds with the items of both pages.
\<close>

lemma scripted_two_pages:
  assumes parse1: "parse_llm_response (scripted_agent loads) text1 = Inr (JList items1)"
    and parse2: "parse_llm_response (scripted_agent loads) text2 = Inr (JList items2)"
    and probe1: "clean_selector probe1 \<noteq> ''NO_PAGINATION''" "clean_selector probe1 \<noteq> []"
    and probe2: "clean_selector probe2 = ''NO_PAGINATION'' \<or> clean_selector probe2 = []"
    and paginated: "truthy (pagination_of config)"
    and three: "max_pages_of config = JInt 3"
    and plain: "interactions config = []"
  shows "scrape (scripted_agent loads) config
       (script_state
          [ToolResponse (Inr (sid0, nav_data)),
           ToolResponse (Inr (sid1, [(''html'', JStr html1)])),
           CompletionResponse (Inr (Some text1)),
           CompletionResponse (Inr (Some probe1)),
           ToolResponse (Inr (sid2, clicked)),
           ToolResponse (Inr (sid3, [(''html'', JStr html2)])),
           CompletionResponse (Inr (Some text2)),
           CompletionResponse (Inr (Some probe2))])
     = (\<lparr>status = ''success'',
         data = structure_data (items1 @ items2) (schema config) ''2024-01-01T00:00:00'',
         quality_report =
           generate_quality_report
             (structure_data (items1 @ items2) (schema config) ''2024-01-01T00:00:00'')
             (schema config),
         error = None\<rparr>,
        \<lparr>world = [],
         trace = [ToolRun ''navigate'',
                  ToolRun ''get_html'',
                  Completion (ExtractionPrompt (JStr (take 50000 html1)) (schema config)),
                  Completion (NextPagePrompt (JStr (take 30000 html1))),
                  ToolRun ''click'',
                  ToolRun ''get_html'',
                  Completion (ExtractionPrompt (JStr (take 50000 html2)) (schema config)),
                  Completion (NextPagePrompt (JStr (take 30000 html2)))]\<rparr>)"
proof -
  have lt0: "py_int_lt 0 (max_pages_of config) = Inr True"
    and lt1: "py_int_lt (0 + 1) (max_pages_of config) = Inr True"
    and lt2: "py_int_lt (0 + 1 + 1) (max_pages_of config) = Inr True"
    using three by simp_all
  note page1 = scripted_page_next [OF parse1 paginated lt1 probe1]
  note page2 = scripted_page_sentinel [OF parse2 paginated lt2 probe2]
  have loop: "extraction_loop (scripted_agent loads) config (JStr sid0) 0 []
       \<lparr>world = [ToolResponse (Inr (sid1, [(''html'', JStr html1)])),
           CompletionResponse (Inr (Some text1)),
           CompletionResponse (Inr (Some probe1)),
           ToolResponse (Inr (sid2, clicked)),
           ToolResponse (Inr (sid3, [(''html'', JStr html2)])),
           CompletionResponse (Inr (Some text2)),
           CompletionResponse (Inr (Some probe2))], trace = [ToolRun ''navigate'']\<rparr>
     = (Inr (items1 @ items2),
        \<lparr>world = [],
         trace = [ToolRun ''navigate'',
                  ToolRun ''get_html'',
                  Completion (ExtractionPrompt (JStr (take 50000 html1)) (schema config)),
                  Completion (NextPagePrompt (JStr (take 30000 html1))),
                  ToolRun ''click'',
                  ToolRun ''get_html'',
                  Completion (ExtractionPrompt (JStr (take 50000 html2)) (schema config)),
                  Completion (NextPagePrompt (JStr (take 30000 html2)))]\<rparr>)"
    unfolding extraction_loop_page_next [OF lt0 page1] extraction_loop_page_last [OF lt1 page2]
    by simp
  show ?thesis
    unfolding script_state_def
    by (rule scrape_success [OF scrape_steps_loop_success [OF scripted_navigate _ loop],
          simplified scripted_agent_def [of loads], simplified,
          folded scripted_agent_def]) (simp add: plain)
qed

lemma navigate_to_next_page_sentinel:
  assumes "py_prefix 30000 html_content = Inr html_prefix"
    and "client ag (NextPagePrompt html_prefix) (world s) = (Inr (Some content), w')"
    and "clean_selector content = ''NO_PAGINATION'' \<or> clean_selector content = []"
  shows "navigate_to_next_page ag session_id html_content s =
     (Inr False, \<lparr>world = w', trace = trace s @ [Completion (NextPagePrompt html_prefix)]\<rparr>)"
  using assms by (auto simp: navigate_to_next_page_def complete_def Let_def)

lemma navigate_to_next_page_click:
  assumes "py_prefix 30000 html_content = Inr html_prefix"
    and "client ag (NextPagePrompt html_prefix) (world s) = (Inr (Some content), w')"
    and "clean_selector content \<noteq> ''NO_PAGINATION''" "clean_selector content \<noteq> []"
    and "call_tool ag ''click''
           [(''session_id'', session_id), (''selector'', JStr (clean_selector content))]
           \<lparr>world = w', trace = trace s @ [Completion (NextPagePrompt html_prefix)]\<rparr> = (r, s')"
  shows "navigate_to_next_page ag session_id html_content s =
     (Inr (case r of Inl exc \<Rightarrow> False | Inr v \<Rightarrow> True), s')"
proof -
  have outcome: "(\<exists>e. r = Inl (ToolErr e)) \<or> (\<exists>v. r = Inr v)"
    using call_tool_outcome [OF assms(5)] by auto
  show ?thesis
    using outcome assms
    by (auto simp: navigate_to_next_page_def complete_def Let_def)
qed

lemma extract_page_stops:
  assumes "call_tool ag ''get_html'' [(''session_id'', session_id)] s = (Inr (sid, html_data), s1)"
    and "py_getitem html_data ''html'' = Inr html_content"
    and "extract_with_llm ag html_content (schema config) s1 = (Inr page_data, s2)"
    and "(if truthy page_data
          then (case py_iter page_data of Inl exc \<Rightarrow> Inl exc | Inr xs \<Rightarrow> Inr (acc @ xs))
          else Inr acc) = Inr extended"
    and "truthy (pagination_of config)"
    and "py_int_lt page_count (max_pages_of config) = Inr True"
    and "navigate_to_next_page ag session_id html_content s2 = (Inr False, s3)"
  shows "extract_page ag config session_id page_count acc s = (Inr (extended, False), s3)"
  using assms(1,2,3,5,6,7)
  by (simp add: extract_page_def Let_def pagination_of_def max_pages_of_def assms(4))

lemma scripted_client_answer:
  "client (scripted_agent loads) request (CompletionResponse r # rest) = (r, rest)"
  by (simp add: scripted_agent_def)

lemma sample_script_facts:
  "parse_llm_response (scripted_agent sample_loads) (''Here: '' @ two_products_text)
     = Inr (JList [complete_product, unpriced_product])"
  "parse_llm_response (scripted_agent sample_loads) one_product_text
     = Inr (JList [untagged_product])"
  "clean_selector ''a.next'' = ''a.next''"
  "clean_selector ''NO_PAGINATION'' = ''NO_PAGINATION''"
  "truthy (pagination_of paginated_config)"
  "max_pages_of paginated_config = JInt 3"
  "interactions paginated_config = []"
  "\<not> truthy (pagination_of single_page_config)"
  "max_pages_of single_page_config = JInt 1"
  "interactions single_page_config = []"
  "url paginated_config = ''https://example.com/''"
  "url single_page_config = ''https://example.com/''"
  by (simp_all add: parse_llm_response_def scripted_agent_def sample_loads_def
      two_products_text_def one_product_text_def slice_def parsed_items_def
      clean_selector_def strip_def rfind_char_def py_isspace_def startswith_def endswith_def fence_def
      pagination_of_def max_pages_of_def paginated_config_def single_page_config_def
      dict_get_default_def dict_get_def Let_def)

text \<open>
  C4. When the next-page probe answers the sentinel or an empty selector, no click is
  made and the page is the last one. When the click on the answered selector fails,
  whatever the error kind, the page is the last one too: a click through
  \<open>_call_tool\<close> fails with a \<open>ToolError\<close> only. A last page ends the loop with the
  items accumulated, and the job then returns with status \<open>success\<close>. In the scenario
  of three allowed pages where the probe answers the sentinel on the second, two
  pages are read and extracted and the job succeeds.
\<close>

theorem pagination_never_fatal:
  "(\<forall>html_prefix content w'.
        py_prefix 30000 html_content = Inr html_prefix
        \<and> client ag (NextPagePrompt html_prefix) (world s) = (Inr (Some content), w')
        \<and> (clean_selector content = ''NO_PAGINATION'' \<or> clean_selector content = []) \<longrightarrow>
        navigate_to_next_page ag session_id html_content s =
          (Inr False, \<lparr>world = w', trace = trace s @ [Completion (NextPagePrompt html_prefix)]\<rparr>))
   \<and> (\<forall>html_prefix content w' r s'.
        py_prefix 30000 html_content = Inr html_prefix
        \<and> client ag (NextPagePrompt html_prefix) (world s) = (Inr (Some content), w')
        \<and> clean_selector content \<noteq> ''NO_PAGINATION'' \<and> clean_selector content \<noteq> []
        \<and> call_tool ag ''click''
             [(''session_id'', session_id), (''selector'', JStr (clean_selector content))]
             \<lparr>world = w', trace = trace s @ [Completion (NextPagePrompt html_prefix)]\<rparr> = (r, s') \<longrightarrow>
        (\<forall>exc. r = Inl exc \<longrightarrow> isinstance_ToolError exc)
        \<and> navigate_to_next_page ag session_id html_content s =
            (Inr (case r of Inl exc \<Rightarrow> False | Inr v \<Rightarrow> True), s'))
   \<and> (\<forall>sid html_data page_content page_data acc extended page_count s0 s1 s2 s3.
        call_tool ag ''get_html'' [(''session_id'', session_id)] s0 = (Inr (sid, html_data), s1)
        \<and> py_getitem html_data ''html'' = Inr page_content
        \<and> extract_with_llm ag page_content (schema config) s1 = (Inr page_data, s2)
        \<and> (if truthy page_data
            then (case py_iter page_data of Inl exc \<Rightarrow> Inl exc | Inr xs \<Rightarrow> Inr (acc @ xs))
            else Inr acc) = Inr extended
        \<and> truthy (pagination_of config)
        \<and> py_int_lt page_count (max_pages_of config) = Inr True
        \<and> navigate_to_next_page ag session_id page_content s2 = (Inr False, s3) \<longrightarrow>
        extract_page ag config session_id page_count acc s0 = (Inr (extended, False), s3))
   \<and> (\<forall>page_count acc extended s0 s1.
        py_int_lt page_count (max_pages_of config) = Inr True
        \<and> extract_page ag config session_id (page_count + 1) acc s0 = (Inr (extended, False), s1) \<longrightarrow>
        extraction_loop ag config session_id page_count acc s0 = (Inr extended, s1))
   \<and> (\<forall>nav_data u items s0 s1 s2 s3.
        navigate ag (url config) s0 = (Inr (session_id, nav_data), s1)
        \<and> (if interactions config \<noteq> []
            then execute_interactions ag session_id (interactions config) s1
            else (Inr (), s1)) = (Inr u, s2)
        \<and> extraction_loop ag config session_id 0 [] s2 = (Inr items, s3) \<longrightarrow>
        status (fst (scrape ag config s0)) = ''success''
        \<and> data (fst (scrape ag config s0))
            = structure_data items (schema config) (utcnow_isoformat ag (world s3)))
   \<and> (\<forall>loads text1 items1 text2 items2 probe1 probe2 sid0 nav_data sid1 html1 sid2 clicked sid3 html2.
        parse_llm_response (scripted_agent loads) text1 = Inr (JList items1)
        \<and> parse_llm_response (scripted_agent loads) text2 = Inr (JList items2)
        \<and> clean_selector probe1 \<noteq> ''NO_PAGINATION'' \<and> clean_selector probe1 \<noteq> []
        \<and> clean_selector probe2 = ''NO_PAGINATION''
        \<and> truthy (pagination_of config) \<and> max_pages_of config = JInt 3
        \<and> interactions config = [] \<longrightarrow>
        status (fst (scrape (scripted_agent loads) config
          (script_state
            [ToolResponse (Inr (sid0, nav_data)),
             ToolResponse (Inr (sid1, [(''html'', JStr html1)])),
             CompletionResponse (Inr (Some text1)),
             CompletionResponse (Inr (Some probe1)),
             ToolResponse (Inr (sid2, clicked)),
             ToolResponse (Inr (sid3, [(''html'', JStr html2)])),
             CompletionResponse (Inr (Some text2)),
             CompletionResponse (Inr (Some probe2))]))) = ''success''
        \<and> page_reads (trace (snd (scrape (scripted_agent loads) config
          (script_state
            [ToolResponse (Inr (sid0, nav_data)),
             ToolResponse (Inr (sid1, [(''html'', JStr html1)])),
             CompletionResponse (Inr (Some text1)),
             CompletionResponse (Inr (Some probe1)),
             ToolResponse (Inr (sid2, clicked)),
             ToolResponse (Inr (sid3, [(''html'', JStr html2)])),
             CompletionResponse (Inr (Some text2)),
             CompletionResponse (Inr (Some probe2))])))) = 2
        \<and> extraction_passes (trace (snd (scrape (scripted_agent loads) config
          (script_state
            [ToolResponse (Inr (sid0, nav_data)),
             ToolResponse (Inr (sid1, [(''html'', JStr html1)])),
             CompletionResponse (Inr (Some text1)),
             CompletionResponse (Inr (Some probe1)),
             ToolResponse (Inr (sid2, clicked)),
             ToolResponse (Inr (sid3, [(''html'', JStr html2)])),
             CompletionResponse (Inr (Some text2)),
             CompletionResponse (Inr (Some probe2))])))) = 2)"
proof -
  have sentinel: "\<forall>html_prefix content w'.
        py_prefix 30000 html_content = Inr html_prefix
        \<and> client ag (NextPagePrompt html_prefix) (world s) = (Inr (Some content), w')
        \<and> (clean_selector content = ''NO_PAGINATION'' \<or> clean_selector content = []) \<longrightarrow>
        navigate_to_next_page ag session_id html_content s =
          (Inr False, \<lparr>world = w', trace = trace s @ [Completion (NextPagePrompt html_prefix)]\<rparr>)"
    by (intro allI impI, elim conjE) (rule navigate_to_next_page_sentinel)
  have click: "\<forall>html_prefix content w' r s'.
        py_prefix 30000 html_content = Inr html_prefix
        \<and> client ag (NextPagePrompt html_prefix) (world s) = (Inr (Some content), w')
        \<and> clean_selector content \<noteq> ''NO_PAGINATION'' \<and> clean_selector content \<noteq> []
        \<and> call_tool ag ''click''
             [(''session_id'', session_id), (''selector'', JStr (clean_selector content))]
             \<lparr>world = w', trace = trace s @ [Completion (NextPagePrompt html_prefix)]\<rparr> = (r, s') \<longrightarrow>
        (\<forall>exc. r = Inl exc \<longrightarrow> isinstance_ToolError exc)
        \<and> navigate_to_next_page ag session_id html_content s =
            (Inr (case r of Inl exc \<Rightarrow> False | Inr v \<Rightarrow> True), s')"
  proof (intro allI impI, elim conjE)
    fix html_prefix content w' r s'
    assume a: "py_prefix 30000 html_content = Inr html_prefix"
      "client ag (NextPagePrompt html_prefix) (world s) = (Inr (Some content), w')"
      "clean_selector content \<noteq> ''NO_PAGINATION''" "clean_selector content \<noteq> []"
      "call_tool ag ''click''
             [(''session_id'', session_id), (''selector'', JStr (clean_selector content))]
             \<lparr>world = w', trace = trace s @ [Completion (NextPagePrompt html_prefix)]\<rparr> = (r, s')"
    have "\<forall>exc. r = Inl exc \<longrightarrow> isinstance_ToolError exc"
      using call_tool_outcome [OF a(5)] by auto
    then show "(\<forall>exc. r = Inl exc \<longrightarrow> isinstance_ToolError exc)
        \<and> navigate_to_next_page ag session_id html_content s =
            (Inr (case r of Inl exc \<Rightarrow> False | Inr v \<Rightarrow> True), s')"
      using navigate_to_next_page_click [OF a] by simp
  qed
  have page: "\<forall>sid html_data page_content page_data acc extended page_count s0 s1 s2 s3.
        call_tool ag ''get_html'' [(''session_id'', session_id)] s0 = (Inr (sid, html_data), s1)
        \<and> py_getitem html_data ''html'' = Inr page_content
        \<and> extract_with_llm ag page_content (schema config) s1 = (Inr page_data, s2)
        \<and> (if truthy page_data
            then (case py_iter page_data of Inl exc \<Rightarrow> Inl exc | Inr xs \<Rightarrow> Inr (acc @ xs))
            else Inr acc) = Inr extended
        \<and> truthy (pagination_of config)
        \<and> py_int_lt page_count (max_pages_of config) = Inr True
        \<and> navigate_to_next_page ag session_id page_content s2 = (Inr False, s3) \<longrightarrow>
        extract_page ag config session_id page_count acc s0 = (Inr (extended, False), s3)"
    by (intro allI impI, elim conjE) (rule extract_page_stops)
  have loop: "\<forall>page_count acc extended s0 s1.
        py_int_lt page_count (max_pages_of config) = Inr True
        \<and> extract_page ag config session_id (page_count + 1) acc s0 = (Inr (extended, False), s1) \<longrightarrow>
        extraction_loop ag config session_id page_count acc s0 = (Inr extended, s1)"
    by (intro allI impI, elim conjE) (rule extraction_loop_page_last)
  have job: "\<forall>nav_data u items s0 s1 s2 s3.
        navigate ag (url config) s0 = (Inr (session_id, nav_data), s1)
        \<and> (if interactions config \<noteq> []
            then execute_interactions ag session_id (interactions config) s1
            else (Inr (), s1)) = (Inr u, s2)
        \<and> extraction_loop ag config session_id 0 [] s2 = (Inr items, s3) \<longrightarrow>
        status (fst (scrape ag config s0)) = ''success''
        \<and> data (fst (scrape ag config s0))
            = structure_data items (schema config) (utcnow_isoformat ag (world s3))"
  proof (intro allI impI, elim conjE)
    fix nav_data u items s0 s1 s2 s3
    assume a: "navigate ag (url config) s0 = (Inr (session_id, nav_data), s1)"
      "(if interactions config \<noteq> []
            then execute_interactions ag session_id (interactions config) s1
            else (Inr (), s1)) = (Inr u, s2)"
      "extraction_loop ag config session_id 0 [] s2 = (Inr items, s3)"
    show "status (fst (scrape ag config s0)) = ''success''
        \<and> data (fst (scrape ag config s0))
            = structure_data items (schema config) (utcnow_isoformat ag (world s3))"
      using scrape_success [OF scrape_steps_loop_success [OF a]] by simp
  qed
  have scenario: "\<forall>loads text1 items1 text2 items2 probe1 probe2 sid0 nav_data sid1 html1 sid2 clicked sid3 html2.
        parse_llm_response (scripted_agent loads) text1 = Inr (JList items1)
        \<and> parse_llm_response (scripted_agent loads) text2 = Inr (JList items2)
        \<and> clean_selector probe1 \<noteq> ''NO_PAGINATION'' \<and> clean_selector probe1 \<noteq> []
        \<and> clean_selector probe2 = ''NO_PAGINATION''
        \<and> truthy (pagination_of config) \<and> max_pages_of config = JInt 3
        \<and> interactions config = [] \<longrightarrow>
        status (fst (scrape (scripted_agent loads) config
          (script_state
            [ToolResponse (Inr (sid0, nav_data)),
             ToolResponse (Inr (sid1, [(''html'', JStr html1)])),
             CompletionResponse (Inr (Some text1)),
             CompletionResponse (Inr (Some probe1)),
             ToolResponse (Inr (sid2, clicked)),
             ToolResponse (Inr (sid3, [(''html'', JStr html2)])),
             CompletionResponse (Inr (Some text2)),
             CompletionResponse (Inr (Some probe2))]))) = ''success''
        \<and> page_reads (trace (snd (scrape (scripted_agent loads) config
          (script_state
            [ToolResponse (Inr (sid0, nav_data)),
             ToolResponse (Inr (sid1, [(''html'', JStr html1)])),
             CompletionResponse (Inr (Some text1)),
             CompletionResponse (Inr (Some probe1)),
             ToolResponse (Inr (sid2, clicked)),
             ToolResponse (Inr (sid3, [(''html'', JStr html2)])),
             CompletionResponse (Inr (Some text2)),
             CompletionResponse (Inr (Some probe2))])))) = 2
        \<and> extraction_passes (trace (snd (scrape (scripted_agent loads) config
          (script_state
            [ToolResponse (Inr (sid0, nav_data)),
             ToolResponse (Inr (sid1, [(''html'', JStr html1)])),
             CompletionResponse (Inr (Some text1)),
             CompletionResponse (Inr (Some probe1)),
             ToolResponse (Inr (sid2, clicked)),
             ToolResponse (Inr (sid3, [(''html'', JStr html2)])),
             CompletionResponse (Inr (Some text2)),
             CompletionResponse (Inr (Some probe2))])))) = 2"
  proof (intro allI impI, elim conjE)
    fix loads text1 items1 text2 items2 probe1 probe2 sid0 nav_data sid1 html1 sid2 clicked sid3 html2
    assume a: "parse_llm_response (scripted_agent loads) text1 = Inr (JList items1)"
      "parse_llm_response (scripted_agent loads) text2 = Inr (JList items2)"
      "clean_selector probe1 \<noteq> ''NO_PAGINATION''" "clean_selector probe1 \<noteq> []"
      and b: "clean_selector probe2 = ''NO_PAGINATION''"
      and c: "truthy (pagination_of config)" "max_pages_of config = JInt 3" "interactions config = []"
    have b': "clean_selector probe2 = ''NO_PAGINATION'' \<or> clean_selector probe2 = []"
      using b by simp
    note run = scripted_two_pages [OF a b' c, of sid0 nav_data sid1 html1 sid2 clicked sid3 html2]
    show "status (fst (scrape (scripted_agent loads) config
          (script_state
            [ToolResponse (Inr (sid0, nav_data)),
             ToolResponse (Inr (sid1, [(''html'', JStr html1)])),
             CompletionResponse (Inr (Some text1)),
             CompletionResponse (Inr (Some probe1)),
             ToolResponse (Inr (sid2, clicked)),
             ToolResponse (Inr (sid3, [(''html'', JStr html2)])),
             CompletionResponse (Inr (Some text2)),
             CompletionResponse (Inr (Some probe2))]))) = ''success''
        \<and> page_reads (trace (snd (scrape (scripted_agent loads) config
          (script_state
            [ToolResponse (Inr (sid0, nav_data)),
             ToolResponse (Inr (sid1, [(''html'', JStr html1)])),
             CompletionResponse (Inr (Some text1)),
             CompletionResponse (Inr (Some probe1)),
             ToolResponse (Inr (sid2, clicked)),
             ToolResponse (Inr (sid3, [(''html'', JStr html2)])),
             CompletionResponse (Inr (Some text2)),
             CompletionResponse (Inr (Some probe2))])))) = 2
        \<and> extraction_passes (trace (snd (scrape (scripted_agent loads) config
          (script_state
            [ToolResponse (Inr (sid0, nav_data)),
             ToolResponse (Inr (sid1, [(''html'', JStr html1)])),
             CompletionResponse (Inr (Some text1)),
             CompletionResponse (Inr (Some probe1)),
             ToolResponse (Inr (sid2, clicked)),
             ToolResponse (Inr (sid3, [(''html'', JStr html2)])),
             CompletionResponse (Inr (Some text2)),
             CompletionResponse (Inr (Some probe2))])))) = 2"
      unfolding run by simp
  qed
  from sentinel click page loop job scenario show ?thesis
    by (intro conjI)
qed

theorem pagination_never_fatal_witness:
  "navigate_to_next_page (scripted_agent sample_loads) (JStr ''sess_1'') (JStr ''<html>2</html>'')
      \<lparr>world = [CompletionResponse (Inr (Some ''NO_PAGINATION''))], trace = []\<rparr>
     = (Inr False,
        \<lparr>world = [], trace = [Completion (NextPagePrompt (JStr ''<html>2</html>''))]\<rparr>)
   \<and> navigate_to_next_page (scripted_agent sample_loads) (JStr ''sess_1'') (JStr ''<html>1</html>'')
      \<lparr>world = drop 3 click_fails_script, trace = []\<rparr>
     = (Inr False,
        \<lparr>world = [],
         trace = [Completion (NextPagePrompt (JStr ''<html>1</html>'')), ToolRun ''click'']\<rparr>)
   \<and> extract_page (scripted_agent sample_loads) paginated_config (JStr ''sess_1'') 1 []
      \<lparr>world = drop 1 click_fails_script, trace = [ToolRun ''navigate'']\<rparr>
     = (Inr ([complete_product, unpriced_product], False),
        \<lparr>world = [],
         trace = [ToolRun ''navigate'', ToolRun ''get_html'',
                  Completion (ExtractionPrompt (JStr ''<html>1</html>'') (schema paginated_config)),
                  Completion (NextPagePrompt (JStr ''<html>1</html>'')), ToolRun ''click'']\<rparr>)
   \<and> extraction_loop (scripted_agent sample_loads) paginated_config (JStr ''sess_1'') 0 []
      \<lparr>world = drop 1 click_fails_script, trace = [ToolRun ''navigate'']\<rparr>
     = (Inr [complete_product, unpriced_product],
        \<lparr>world = [],
         trace = [ToolRun ''navigate'', ToolRun ''get_html'',
                  Completion (ExtractionPrompt (JStr ''<html>1</html>'') (schema paginated_config)),
                  Completion (NextPagePrompt (JStr ''<html>1</html>'')), ToolRun ''click'']\<rparr>)
   \<and> status (fst (scrape (scripted_agent sample_loads) paginated_config
        (script_state click_fails_script))) = ''success''
   \<and> data (fst (scrape (scripted_agent sample_loads) paginated_config
        (script_state click_fails_script)))
     = [(''produits'', JList [complete_product, unpriced_product])]
   \<and> status (fst (scrape (scripted_agent sample_loads) paginated_config
        (script_state two_page_script))) = ''success''
   \<and> page_reads (trace (snd (scrape (scripted_agent sample_loads) paginated_config
        (script_state two_page_script)))) = 2
   \<and> extraction_passes (trace (snd (scrape (scripted_agent sample_loads) paginated_config
        (script_state two_page_script)))) = 2"
proof -
  let ?ag = "scripted_agent sample_loads"
  let ?sid = "JStr ''sess_1''"
  let ?failure = "\<lparr>code = ELEMENT_NOT_CLICKABLE, message = ''Element a.next was not clickable.'',
      details = None\<rparr>"
  let ?probe1 = "Completion (NextPagePrompt (JStr ''<html>1</html>''))"
  let ?pass1 = "Completion (ExtractionPrompt (JStr ''<html>1</html>'') (schema paginated_config))"
  have parse1: "parse_llm_response ?ag (''Here: '' @ two_products_text)
      = Inr (JList [complete_product, unpriced_product])"
    by (rule sample_script_facts(1))
  have selector: "clean_selector ''a.next'' = ''a.next''"
    by (simp add: sample_script_facts)
  have sentinel: "navigate_to_next_page ?ag ?sid (JStr ''<html>2</html>'')
      \<lparr>world = [CompletionResponse (Inr (Some ''NO_PAGINATION''))], trace = []\<rparr>
     = (Inr False,
        \<lparr>world = [], trace = [Completion (NextPagePrompt (JStr ''<html>2</html>''))]\<rparr>)"
    using pagination_never_fatal [where ag = ?ag and session_id = ?sid
        and html_content = "JStr ''<html>2</html>''"
        and s = "\<lparr>world = [CompletionResponse (Inr (Some ''NO_PAGINATION''))], trace = []\<rparr>",
        THEN conjunct1, rule_format, of "JStr ''<html>2</html>''" "''NO_PAGINATION''" "[]"]
    by (simp add: sample_script_facts scripted_client_answer)
  have click: "navigate_to_next_page ?ag ?sid (JStr ''<html>1</html>'')
      \<lparr>world = [CompletionResponse (Inr (Some ''a.next'')), ToolResponse (Inl (ToolErr ?failure))],
       trace = tr\<rparr>
     = (Inr False, \<lparr>world = [], trace = tr @ [?probe1, ToolRun ''click'']\<rparr>)" for tr
    using pagination_never_fatal [where ag = ?ag and session_id = ?sid
        and html_content = "JStr ''<html>1</html>''"
        and s = "\<lparr>world = [CompletionResponse (Inr (Some ''a.next'')),
                           ToolResponse (Inl (ToolErr ?failure))], trace = tr\<rparr>",
        THEN conjunct2, THEN conjunct1, rule_format,
        of "JStr ''<html>1</html>''" "''a.next''" "[ToolResponse (Inl (ToolErr ?failure))]"
          "Inl (ToolErr ?failure)" "\<lparr>world = [], trace = tr @ [?probe1, ToolRun ''click'']\<rparr>",
        THEN conjunct2]
    by (simp add: selector scripted_client_answer scripted_call_tool_tool_error)
  have page: "extract_page ?ag paginated_config ?sid 1 []
      \<lparr>world = drop 1 click_fails_script, trace = [ToolRun ''navigate'']\<rparr>
     = (Inr ([complete_product, unpriced_product], False),
        \<lparr>world = [],
         trace = [ToolRun ''navigate'', ToolRun ''get_html'', ?pass1, ?probe1, ToolRun ''click'']\<rparr>)"
    using pagination_never_fatal [where ag = ?ag and session_id = ?sid
        and config = paginated_config,
        THEN conjunct2, THEN conjunct2, THEN conjunct1, rule_format,
        where ?s0.0 = "\<lparr>world = drop 1 click_fails_script, trace = [ToolRun ''navigate'']\<rparr>"
          and sid = "JStr ''sess_1''" and html_data = "JObj [(''html'', JStr ''<html>1</html>'')]"
          and ?s1.0 = "\<lparr>world = drop 2 click_fails_script,
                          trace = [ToolRun ''navigate'', ToolRun ''get_html'']\<rparr>"
          and page_content = "JStr ''<html>1</html>''"
          and page_data = "JList [complete_product, unpriced_product]"
          and ?s2.0 = "\<lparr>world = drop 3 click_fails_script,
                          trace = [ToolRun ''navigate'', ToolRun ''get_html'', ?pass1]\<rparr>"
          and acc = "[]" and extended = "[complete_product, unpriced_product]" and page_count = 1
          and ?s3.0 = "\<lparr>world = [],
             trace = [ToolRun ''navigate'', ToolRun ''get_html'', ?pass1, ?probe1, ToolRun ''click'']\<rparr>"]
    by (simp add: click_fails_script_def scripted_call_tool_success dict_get_def
        scripted_extract_with_llm [OF parse1, simplified] click sample_script_facts)
  have loop: "extraction_loop ?ag paginated_config ?sid 0 []
      \<lparr>world = drop 1 click_fails_script, trace = [ToolRun ''navigate'']\<rparr>
     = (Inr [complete_product, unpriced_product],
        \<lparr>world = [],
         trace = [ToolRun ''navigate'', ToolRun ''get_html'', ?pass1, ?probe1, ToolRun ''click'']\<rparr>)"
    using pagination_never_fatal [where ag = ?ag and session_id = ?sid
        and config = paginated_config,
        THEN conjunct2, THEN conjunct2, THEN conjunct2, THEN conjunct1, rule_format,
        where page_count = 0 and acc = "[]"
          and ?s0.0 = "\<lparr>world = drop 1 click_fails_script, trace = [ToolRun ''navigate'']\<rparr>"
          and extended = "[complete_product, unpriced_product]"
          and ?s1.0 = "\<lparr>world = [],
            trace = [ToolRun ''navigate'', ToolRun ''get_html'', ?pass1, ?probe1, ToolRun ''click'']\<rparr>"]
      page
    by (simp add: sample_script_facts)
  have nav: "navigate ?ag (url paginated_config) (script_state click_fails_script)
      = (Inr (?sid, JObj [(''current_url'', JStr ''https://example.com/'')]),
         \<lparr>world = drop 1 click_fails_script, trace = [ToolRun ''navigate'']\<rparr>)"
    by (simp add: script_state_def click_fails_script_def scripted_navigate)
  have plain: "(if interactions paginated_config \<noteq> []
        then execute_interactions ?ag ?sid (interactions paginated_config)
          \<lparr>world = drop 1 click_fails_script, trace = [ToolRun ''navigate'']\<rparr>
        else (Inr (), \<lparr>world = drop 1 click_fails_script, trace = [ToolRun ''navigate'']\<rparr>))
      = (Inr (), \<lparr>world = drop 1 click_fails_script, trace = [ToolRun ''navigate'']\<rparr>)"
    by (simp add: sample_script_facts)
  have shape: "structure_data [complete_product, unpriced_product] (schema paginated_config)
      (utcnow_isoformat ?ag w) = [(''produits'', JList [complete_product, unpriced_product])]" for w
    by (simp add: paginated_config_def structure_data_def dict_contains_def)
  have job: "status (fst (scrape ?ag paginated_config (script_state click_fails_script))) = ''success''
      \<and> data (fst (scrape ?ag paginated_config (script_state click_fails_script)))
        = [(''produits'', JList [complete_product, unpriced_product])]"
    using pagination_never_fatal [where ag = ?ag and session_id = ?sid
        and config = paginated_config,
        THEN conjunct2, THEN conjunct2, THEN conjunct2, THEN conjunct2, THEN conjunct1, rule_format,
        OF conjI [OF nav conjI [OF plain loop]]]
    by (simp only: shape)
  have two_pages: "parse_llm_response ?ag (''Here: '' @ two_products_text)
        = Inr (JList [complete_product, unpriced_product])
      \<and> parse_llm_response ?ag one_product_text = Inr (JList [untagged_product])
      \<and> clean_selector ''a.next'' \<noteq> ''NO_PAGINATION'' \<and> clean_selector ''a.next'' \<noteq> []
      \<and> clean_selector ''NO_PAGINATION'' = ''NO_PAGINATION''
      \<and> truthy (pagination_of paginated_config) \<and> max_pages_of paginated_config = JInt 3
      \<and> interactions paginated_config = []"
    using sample_script_facts(1,2) by (simp add: sample_script_facts(3-))
  have scenario: "status (fst (scrape ?ag paginated_config (script_state two_page_script))) = ''success''
      \<and> page_reads (trace (snd (scrape ?ag paginated_config (script_state two_page_script)))) = 2
      \<and> extraction_passes (trace (snd (scrape ?ag paginated_config (script_state two_page_script)))) = 2"
    unfolding two_page_script_def
    by (rule pagination_never_fatal [THEN conjunct2, THEN conjunct2, THEN conjunct2, THEN conjunct2,
          THEN conjunct2, rule_format, OF two_pages])
  from sentinel click [of "[]"] page loop job scenario show ?thesis
    by (simp add: click_fails_script_def)
qed

text \<open>The sample jobs, run against their scripts.\<close>

lemma two_page_job:
  "scrape (scripted_agent sample_loads) paginated_config (script_state two_page_script)
     = (\<lparr>status = ''success'',
         data = structure_data ([complete_product, unpriced_product] @ [untagged_product])
                  (schema paginated_config) ''2024-01-01T00:00:00'',
         quality_report = generate_quality_report
            (structure_data ([complete_product, unpriced_product] @ [untagged_product])
               (schema paginated_config) ''2024-01-01T00:00:00'')
            (schema paginated_config),
         error = None\<rparr>,
        \<lparr>world = [],
         trace = [ToolRun ''navigate'',
                  ToolRun ''get_html'',
                  Completion (ExtractionPrompt (JStr (take 50000 ''<html>1</html>'')) (schema paginated_config)),
                  Completion (NextPagePrompt (JStr (take 30000 ''<html>1</html>''))),
                  ToolRun ''click'',
                  ToolRun ''get_html'',
                  Completion (ExtractionPrompt (JStr (take 50000 ''<html>2</html>'')) (schema paginated_config)),
                  Completion (NextPagePrompt (JStr (take 30000 ''<html>2</html>'')))]\<rparr>)"
proof -
  have sentinel: "clean_selector ''NO_PAGINATION'' = ''NO_PAGINATION'' \<or> clean_selector ''NO_PAGINATION'' = []"
    and selector: "clean_selector ''a.next'' \<noteq> ''NO_PAGINATION''" "clean_selector ''a.next'' \<noteq> []"
    by (simp_all add: sample_script_facts(3-))
  show ?thesis
    unfolding two_page_script_def
    by (rule scripted_two_pages [OF sample_script_facts(1,2) selector sentinel
          sample_script_facts(5,6,7)])
qed

lemma single_page_job:
  "scrape (scripted_agent sample_loads) single_page_config (script_state single_page_script)
     = (\<lparr>status = ''success'',
         data = structure_data [untagged_product] (schema single_page_config) ''2024-01-01T00:00:00'',
         quality_report = generate_quality_report
            (structure_data [untagged_product] (schema single_page_config) ''2024-01-01T00:00:00'')
            (schema single_page_config),
         error = None\<rparr>,
        \<lparr>world = [],
         trace = [ToolRun ''navigate'',
                  ToolRun ''get_html'',
                  Completion (ExtractionPrompt (JStr (take 50000 ''<html>1</html>''))
                    (schema single_page_config))]\<rparr>)"
proof -
  have lt0: "py_int_lt 0 (max_pages_of single_page_config) = Inr True"
    by (simp add: sample_script_facts(9))
  have off: "\<not> truthy (pagination_of single_page_config)
      \<or> py_int_lt (0 + 1) (max_pages_of single_page_config) = Inr False"
    by (simp add: sample_script_facts(8))
  note page1 = scripted_page_last [OF sample_script_facts(2) off]
  have loop: "extraction_loop (scripted_agent sample_loads) single_page_config (JStr ''sess_1'') 0 []
       \<lparr>world = [ToolResponse (Inr (''sess_1'', [(''html'', JStr ''<html>1</html>'')])),
           CompletionResponse (Inr (Some one_product_text))], trace = [ToolRun ''navigate'']\<rparr>
     = (Inr ([] @ [untagged_product]),
        \<lparr>world = [],
         trace = [ToolRun ''navigate''] @ [ToolRun ''get_html'',
                  Completion (ExtractionPrompt (JStr (take 50000 ''<html>1</html>''))
                    (schema single_page_config))]\<rparr>)"
    by (rule extraction_loop_page_last [OF lt0 page1])
  have plain: "(if interactions single_page_config \<noteq> []
        then execute_interactions (scripted_agent sample_loads) (JStr ''sess_1'')
          (interactions single_page_config) s1
        else (Inr (), s1)) = (Inr (), s1)" for s1
    by (simp add: sample_script_facts(10))
  have utc: "utcnow_isoformat (scripted_agent sample_loads) w = ''2024-01-01T00:00:00''" for w
    by (simp add: scripted_agent_def)
  show ?thesis
    unfolding script_state_def single_page_script_def
    using scrape_success [OF scrape_steps_loop_success
        [OF scripted_navigate [where tr = "[]", unfolded append_Nil] plain loop]]
    by (simp only: utc append_Nil append_Cons)
qed


text \<open>
  The page budget on two jobs: the single-page job reads one page and runs one
  extraction pass; the two-page job stays within its three pages and runs one pass per
  page read.
\<close>

theorem page_budget_witness:
  "status (fst (scrape (scripted_agent sample_loads) single_page_config
      (script_state single_page_script))) = ''success''
   \<and> page_reads (new_events (script_state single_page_script)
        (snd (scrape (scripted_agent sample_loads) single_page_config
           (script_state single_page_script)))) = 1
   \<and> extraction_passes (new_events (script_state single_page_script)
        (snd (scrape (scripted_agent sample_loads) single_page_config
           (script_state single_page_script)))) = 1
   \<and> status (fst (scrape (scripted_agent sample_loads) paginated_config
      (script_state two_page_script))) = ''success''
   \<and> int (page_reads (new_events (script_state two_page_script)
        (snd (scrape (scripted_agent sample_loads) paginated_config
           (script_state two_page_script))))) \<le> 3
   \<and> extraction_passes (new_events (script_state two_page_script)
        (snd (scrape (scripted_agent sample_loads) paginated_config
           (script_state two_page_script))))
     = page_reads (new_events (script_state two_page_script)
        (snd (scrape (scripted_agent sample_loads) paginated_config
           (script_state two_page_script))))"
proof -
  let ?ag = "scripted_agent sample_loads"
  let ?one = "scrape ?ag single_page_config (script_state single_page_script)"
  let ?two = "scrape ?ag paginated_config (script_state two_page_script)"
  have one_ok: "status (fst ?one) = ''success''"
    by (simp add: single_page_job)
  have two_ok: "status (fst ?two) = ''success''"
    by (simp add: two_page_job)
  have positive: "\<not> truthy (pagination_of single_page_config)
      \<and> py_int_lt 0 (max_pages_of single_page_config) = Inr True"
    by (simp add: sample_script_facts(8,9))
  note one = page_budget [of ?ag single_page_config "script_state single_page_script"
      "fst ?one" "snd ?one", OF prod.collapse [symmetric]]
  note two = page_budget [of ?ag paginated_config "script_state two_page_script"
      "fst ?two" "snd ?two", OF prod.collapse [symmetric]]
  have single: "page_reads (new_events (script_state single_page_script) (snd ?one)) = 1
      \<and> extraction_passes (new_events (script_state single_page_script) (snd ?one)) = 1"
    using one [THEN conjunct2, THEN conjunct2, THEN conjunct2, THEN conjunct2] one_ok positive
    by blast
  have bound: "int (page_reads (new_events (script_state two_page_script) (snd ?two))) \<le> 3"
    using two [THEN conjunct2, THEN conjunct2, THEN conjunct1, rule_format, of 3]
    by (simp add: sample_script_facts(6))
  have passes: "extraction_passes (new_events (script_state two_page_script) (snd ?two))
      = page_reads (new_events (script_state two_page_script) (snd ?two))"
    using two [THEN conjunct2, THEN conjunct2, THEN conjunct2, THEN conjunct1] two_ok
    by blast
  from one_ok single two_ok bound passes show ?thesis
    by (intro conjI) simp_all
qed


end
